theory Spec2Isabelle
  imports Main "HOL-Library.Word"
begin

unbundle bit_operations_syntax

section \<open>Machine types, status codes and the platform header\<close>

text \<open>
  The driver under study is the Intel Processor Trace control plane of
  \<^verbatim>\<open>crosshatch-devices.c\<close>.  \<^verbatim>\<open>uint32_t\<close> and \<^verbatim>\<open>uint64_t\<close> (also \<^verbatim>\<open>size_t\<close> and
  \<^verbatim>\<open>zx_paddr_t\<close> on this 64-bit target) are words whose arithmetic wraps around.
\<close>

type_synonym u32 = "32 word"
type_synonym u64 = "64 word"

datatype zx_status =
    ZX_OK
  | ZX_ERR_INTERNAL
  | ZX_ERR_NOT_SUPPORTED
  | ZX_ERR_NO_RESOURCES
  | ZX_ERR_NO_MEMORY
  | ZX_ERR_INVALID_ARGS
  | ZX_ERR_BAD_STATE
  | ZX_ERR_BUFFER_TOO_SMALL
  | ZX_ERR_ALREADY_BOUND

text \<open>
  The constants and macros of \<^verbatim>\<open>intel-pt.h\<close> and the sizes of the ioctl structures are
  used by the driver but declared in a header that is not among the sources.  They are
  taken as a parameter: one record holding every constant and macro the modelled code
  mentions, with the header's names.  Macros with an argument are functions;
  \<open>sizeof_*\<close> are the sizes of the ioctl structures and \<open>allowed_rights\<close> is the
  disjunction of the six \<^verbatim>\<open>ZX_RIGHT_*\<close> bits of lines 903--905.
\<close>

record ipt_header =
  IPT_TOPA_MAX_TABLE_ENTRIES :: u32
  IPT_TOPA_MIN_SHIFT :: u64
  IPT_TOPA_MAX_SHIFT :: u64
  IPT_TOPA_ENTRY_PHYS_ADDR :: "u64 \<Rightarrow> u64"
  IPT_TOPA_ENTRY_SIZE :: "u64 \<Rightarrow> u64"
  IPT_TOPA_ENTRY_END :: u64
  IPT_TOPA_ENTRY_STOP :: u64
  IPT_TOPA_ENTRY_EXTRACT_SIZE :: "u64 \<Rightarrow> u32"
  IPT_MAX_NUM_TRACES :: u32
  IPT_MAX_NUM_ADDR_RANGES :: nat
  IPT_CTL_OS_ALLOWED_MASK :: u64
  IPT_CTL_USER_ALLOWED_MASK :: u64
  IPT_CTL_TSC_EN_MASK :: u64
  IPT_CTL_DIS_RETC_MASK :: u64
  IPT_CTL_BRANCH_EN_MASK :: u64
  IPT_CTL_PTW_EN_MASK :: u64
  IPT_CTL_FUP_ON_PTW_MASK :: u64
  IPT_CTL_CR3_FILTER_MASK :: u64
  IPT_CTL_MTC_EN_MASK :: u64
  IPT_CTL_MTC_FREQ_MASK :: u64
  IPT_CTL_MTC_FREQ_SHIFT :: nat
  IPT_CTL_POWER_EVENT_EN_MASK :: u64
  IPT_CTL_ADDR0_MASK :: u64
  IPT_CTL_ADDR1_MASK :: u64
  IPT_CTL_ADDR2_MASK :: u64
  IPT_CTL_ADDR3_MASK :: u64
  IPT_CTL_CYC_EN_MASK :: u64
  IPT_CTL_PSB_FREQ_MASK :: u64
  IPT_CTL_PSB_FREQ_SHIFT :: nat
  IPT_CTL_CYC_THRESH_MASK :: u64
  IPT_CTL_CYC_THRESH_SHIFT :: nat
  IPT_CTL_TOPA_MASK :: u64
  IPT_CTL_TRACE_EN_MASK :: u64
  sizeof_trace_config :: nat
  sizeof_buffer_config :: nat
  sizeof_descriptor :: nat
  sizeof_assign_thread_buffer :: nat
  sizeof_buffer_info :: nat
  sizeof_chunk_handle_req :: nat
  sizeof_handle :: nat
  allowed_rights :: u32

text \<open>The driver's own constants (lines 150--168 of the source).\<close>

definition MAX_PER_TRACE_SPACE :: u64 where
  "MAX_PER_TRACE_SPACE = 256 * 1024 * 1024"

definition MAX_NUM_CHUNKS :: u32 where
  "MAX_NUM_CHUNKS = 4096"

definition MAX_CHUNK_ORDER :: u32 where
  "MAX_CHUNK_ORDER = 8"

definition PAGE_SIZE :: u64 where
  "PAGE_SIZE = 4096"

definition PAGE_SIZE_SHIFT :: nat where
  "PAGE_SIZE_SHIFT = 12"

text \<open>
  The static \<^verbatim>\<open>ipt_config_*\<close> variables that \<^verbatim>\<open>insntrace_init_once\<close> fills from CPUID and
  that the modelled operations read.
\<close>

record ipt_config =
  ipt_config_mtc_freq_mask :: u32
  ipt_config_cyc_thresh_mask :: u32
  ipt_config_psb_freq_mask :: u32
  ipt_config_num_addr_ranges :: u32
  ipt_config_supported :: bool
  ipt_config_cr3_filtering :: bool
  ipt_config_psb :: bool
  ipt_config_ip_filtering :: bool
  ipt_config_mtc :: bool
  ipt_config_ptwrite :: bool
  ipt_config_power_events :: bool
  ipt_config_output_topa :: bool
  ipt_config_output_topa_multi :: bool

section \<open>Per-trace state and the device\<close>

text \<open>
  An \<^verbatim>\<open>io_buffer_t\<close> as the driver sees it: its physical address, the 64-bit words
  behind its virtual address (only the ToPA tables are read and written by the
  driver, so the words of a chunk are left empty) and its VMO handle.
\<close>

record io_buffer =
  phys :: u64
  virt :: "u64 list"
  vmo_handle :: u32

definition zero_io_buffer :: io_buffer where
  "zero_io_buffer = \<lparr>phys = 0, virt = [], vmo_handle = 0\<rparr>"

datatype ipt_trace_mode = IPT_TRACE_CPUS | IPT_TRACE_THREADS

text \<open>
  \<^verbatim>\<open>ipt_per_trace_state_t\<close>.  The owner union holds a cpu number or a thread handle,
  both 32 bits wide.  The two array pointers are \<open>None\<close> when \<^verbatim>\<open>NULL\<close>.
\<close>

record ipt_per_trace_state =
  owner :: u32
  num_chunks :: u32
  chunk_order :: u32
  is_circular :: bool
  allocated :: bool
  assigned :: bool
  num_tables :: u32
  ctl :: u64
  status :: u64
  output_base :: u64
  output_mask_ptrs :: u64
  cr3_match :: u64
  addr_ranges :: "(u64 \<times> u64) list"
  chunks :: "io_buffer list option"
  topas :: "io_buffer list option"

text \<open>What \<^verbatim>\<open>memset(per_trace, 0, sizeof( *per_trace))\<close> and \<^verbatim>\<open>calloc\<close> leave in a slot.\<close>

definition zero_per_trace :: "ipt_header \<Rightarrow> ipt_per_trace_state" where
  "zero_per_trace hw =
     \<lparr>owner = 0, num_chunks = 0, chunk_order = 0, is_circular = False,
      allocated = False, assigned = False, num_tables = 0,
      ctl = 0, status = 0, output_base = 0, output_mask_ptrs = 0, cr3_match = 0,
      addr_ranges = replicate (IPT_MAX_NUM_ADDR_RANGES hw) (0, 0),
      chunks = None, topas = None\<rparr>"

text \<open>
  \<^verbatim>\<open>insntrace_device_t\<close> without its mutex: every operation below runs with the lock
  held, one at a time.
\<close>

record insntrace_device =
  opened :: bool
  mode :: ipt_trace_mode
  num_traces :: u32
  per_trace_state :: "ipt_per_trace_state list option"
  active :: bool
  bti :: u32

text \<open>The register block exchanged with the kernel (\<^verbatim>\<open>zx_x86_pt_regs_t\<close>).\<close>

record zx_x86_pt_regs =
  regs_ctl :: u64
  regs_status :: u64
  regs_output_base :: u64
  regs_output_mask_ptrs :: u64
  regs_cr3_match :: u64
  regs_addr_ranges :: "(u64 \<times> u64) list"

text \<open>
  The answers of the external collaborators during one operation: the C allocator,
  the DMA allocator (\<^verbatim>\<open>io_buffer_init\<close>, \<^verbatim>\<open>io_buffer_init_aligned\<close>, indexed by the position
  in the array being filled), the privileged \<^verbatim>\<open>zx_mtrace_control\<close> channel, the cpu count,
  the handle primitives, and the contents of an uninitialised stack word.  A ToPA
  table comes back from \<^verbatim>\<open>io_buffer_init\<close> with a physical address, a handle and the
  initial contents of its words (a function of the word index).
\<close>

record collaborators =
  calloc_traces_fails :: bool
  calloc_chunks_fails :: bool
  calloc_topas_fails :: bool
  io_buffer_init_aligned :: "nat \<Rightarrow> zx_status \<times> u64 \<times> u32"
  io_buffer_init :: "nat \<Rightarrow> zx_status \<times> u64 \<times> u32 \<times> (nat \<Rightarrow> u64)"
  zx_system_get_num_cpus :: u32
  mtrace_alloc_trace :: zx_status
  mtrace_free_trace :: zx_status
  mtrace_stage_trace_data :: "u32 \<Rightarrow> zx_x86_pt_regs \<Rightarrow> zx_status"
  mtrace_get_trace_data :: "u32 \<Rightarrow> zx_status \<times> zx_x86_pt_regs"
  mtrace_start :: zx_status
  mtrace_stop :: zx_status
  zx_object_get_info :: "u32 \<Rightarrow> zx_status \<times> u32"
  zx_handle_duplicate :: "u32 \<Rightarrow> u32 \<Rightarrow> zx_status \<times> u32"
  uninitialized_u32 :: u32

section \<open>ToPA construction\<close>

text \<open>
  A store into word \<open>k\<close> of table \<open>t\<close> of the \<^verbatim>\<open>topas\<close> array.  A store outside the array or
  outside the table's words is undefined behaviour in C; the model stops with \<open>None\<close>.
\<close>

definition table_store :: "io_buffer list \<Rightarrow> nat \<Rightarrow> nat \<Rightarrow> u64 \<Rightarrow> io_buffer list option" where
  "table_store ts t k v =
     (if t < length ts \<and> k < length (virt (ts ! t))
      then Some (ts[t := (ts ! t)\<lparr>virt := (virt (ts ! t))[k := v]\<rparr>])
      else None)"

definition table_load :: "io_buffer list \<Rightarrow> nat \<Rightarrow> nat \<Rightarrow> u64 option" where
  "table_load ts t k =
     (if t < length ts \<and> k < length (virt (ts ! t))
      then Some (virt (ts ! t) ! k)
      else None)"

text \<open>
  The local variables of \<^verbatim>\<open>make_topa\<close> that its first loop updates, together with the
  tables it writes.  \<^verbatim>\<open>last_entry\<close> points to a word of a table: the table's index and the
  word's index, or \<open>None\<close> for \<^verbatim>\<open>NULL\<close>.
\<close>

record topa_fill =
  fill_topas :: "io_buffer list"
  curr_table :: u32
  curr_idx :: u32
  last_entry :: "(nat \<times> nat) option"

text \<open>The value written for one chunk (lines 267--268).\<close>

definition topa_data_entry :: "ipt_header \<Rightarrow> u64 \<Rightarrow> u64 \<Rightarrow> u64" where
  "topa_data_entry hw run_len_log2 pa =
     IPT_TOPA_ENTRY_PHYS_ADDR hw pa OR
     IPT_TOPA_ENTRY_SIZE hw (run_len_log2 + of_nat PAGE_SIZE_SHIFT)"

text \<open>The value of an END entry that links to the table at physical address \<open>pa\<close>.\<close>

definition topa_end_entry :: "ipt_header \<Rightarrow> u64 \<Rightarrow> u64" where
  "topa_end_entry hw pa = IPT_TOPA_ENTRY_PHYS_ADDR hw pa OR IPT_TOPA_ENTRY_END hw"

text \<open>
  The first loop of \<^verbatim>\<open>make_topa\<close> (lines 262--280), over the chunk indices
  \<open>0 ..< num_chunks\<close>.
\<close>

primrec make_topa_fill ::
  "ipt_header \<Rightarrow> u64 \<Rightarrow> io_buffer list \<Rightarrow> nat list \<Rightarrow> topa_fill \<Rightarrow> topa_fill option" where
  "make_topa_fill hw run_len_log2 cs [] s = Some s"
| "make_topa_fill hw run_len_log2 cs (i # rest) s =
     (if i < length cs then
        (let pa = phys (cs ! i);
             val = topa_data_entry hw run_len_log2 pa
         in case table_store (fill_topas s) (unat (curr_table s)) (unat (curr_idx s)) val of
              None \<Rightarrow> None
            | Some ts \<Rightarrow>
                make_topa_fill hw run_len_log2 cs rest
                  (if IPT_TOPA_MAX_TABLE_ENTRIES hw - 2 \<le> curr_idx s
                   then s\<lparr>fill_topas := ts,
                          last_entry := Some (unat (curr_table s), unat (curr_idx s)),
                          curr_idx := 0,
                          curr_table := curr_table s + 1\<rparr>
                   else s\<lparr>fill_topas := ts,
                          last_entry := Some (unat (curr_table s), unat (curr_idx s)),
                          curr_idx := curr_idx s + 1\<rparr>))
      else None)"

text \<open>
  The second loop (lines 289--302): the END entry of every completed table, in the
  table's last word, linking to the next table or from the last table to the first.
\<close>

primrec make_topa_ends ::
  "ipt_header \<Rightarrow> u32 \<Rightarrow> nat list \<Rightarrow> io_buffer list \<Rightarrow> io_buffer list option" where
  "make_topa_ends hw ntables [] ts = Some ts"
| "make_topa_ends hw ntables (i # rest) ts =
     (let next_table = (if (of_nat i :: u32) = ntables - 1 then 0 else i + 1)
      in if next_table < length ts then
           (case table_store ts i (unat (IPT_TOPA_MAX_TABLE_ENTRIES hw - 1))
                   (topa_end_entry hw (phys (ts ! next_table))) of
              None \<Rightarrow> None
            | Some ts' \<Rightarrow> make_topa_ends hw ntables rest ts')
         else None)"

text \<open>
  \<^verbatim>\<open>make_topa\<close>.  It returns the tables it has written; \<open>None\<close> stands for a failed
  \<^verbatim>\<open>assert\<close> or an access outside an array.
\<close>

definition make_topa :: "ipt_header \<Rightarrow> ipt_per_trace_state \<Rightarrow> ipt_per_trace_state option" where
  "make_topa hw per_trace =
     (let run_len_log2 = (ucast (chunk_order per_trace) :: u64) in
      if \<not> (run_len_log2 + of_nat PAGE_SIZE_SHIFT \<le> IPT_TOPA_MAX_SHIFT hw) then None
      else if \<not> (IPT_TOPA_MIN_SHIFT hw \<le> run_len_log2 + of_nat PAGE_SIZE_SHIFT) then None
      else
        case (chunks per_trace, topas per_trace) of
          (Some cs, Some ts) \<Rightarrow>
            (case make_topa_fill hw run_len_log2 cs [0 ..< unat (num_chunks per_trace)]
                    \<lparr>fill_topas = ts, curr_table = 0, curr_idx = 0, last_entry = None\<rparr> of
               None \<Rightarrow> None
             | Some s \<Rightarrow>
                 if \<not> (curr_table s + 1 = num_tables per_trace \<or>
                        (curr_table s = num_tables per_trace \<and> curr_idx s = 0)) then None
                 else
                   (case make_topa_ends hw (num_tables per_trace)
                           [0 ..< unat (curr_table s)] (fill_topas s) of
                      None \<Rightarrow> None
                    | Some ts1 \<Rightarrow>
                        (case (if curr_table s < num_tables per_trace
                               then (if ts1 = [] then None
                                     else table_store ts1 (unat (curr_table s)) (unat (curr_idx s))
                                            (topa_end_entry hw (phys (ts1 ! 0))))
                               else Some ts1) of
                           None \<Rightarrow> None
                         | Some ts2 \<Rightarrow>
                             (case last_entry s of
                                None \<Rightarrow> None
                              | Some (t, k) \<Rightarrow>
                                  if \<not> is_circular per_trace then
                                    (case table_load ts2 t k of
                                       None \<Rightarrow> None
                                     | Some e \<Rightarrow>
                                         (case table_store ts2 t k (e OR IPT_TOPA_ENTRY_STOP hw) of
                                            None \<Rightarrow> None
                                          | Some ts3 \<Rightarrow> Some (per_trace\<lparr>topas := Some ts3\<rparr>)))
                                  else Some (per_trace\<lparr>topas := Some ts2\<rparr>)))))
        | _ \<Rightarrow> None)"

section \<open>Entry count\<close>

text \<open>
  \<^verbatim>\<open>compute_topa_entry_count\<close> (lines 323--335), in 32-bit unsigned arithmetic.  The
  division by \<^verbatim>\<open>IPT_TOPA_MAX_TABLE_ENTRIES - 1\<close> presupposes a table of at least two
  entries; every theorem below assumes it.
\<close>

definition compute_topa_entry_count :: "ipt_header \<Rightarrow> ipt_per_trace_state \<Rightarrow> u32" where
  "compute_topa_entry_count hw per_trace =
     (let num_entries = num_chunks per_trace;
          num_end_entries =
            (num_entries + IPT_TOPA_MAX_TABLE_ENTRIES hw - 2) div
            (IPT_TOPA_MAX_TABLE_ENTRIES hw - 1);
          result = num_entries + num_end_entries
      in result)"

section \<open>Allocating and freeing one trace buffer\<close>

text \<open>
  The chunk loop of \<^verbatim>\<open>x86_pt_alloc_buffer1\<close> (lines 385--406), over the indices
  \<open>0 ..< num\<close>.  It returns the status with which the loop ends (\<open>ZX_OK\<close> when it runs to
  completion) and the slot as it stands then.
\<close>

primrec alloc_chunks ::
  "collaborators \<Rightarrow> u32 \<Rightarrow> nat list \<Rightarrow> ipt_per_trace_state \<Rightarrow>
   zx_status \<times> ipt_per_trace_state" where
  "alloc_chunks env order [] per_trace = (ZX_OK, per_trace)"
| "alloc_chunks env order (i # rest) per_trace =
     (let alignment_log2 = (of_nat PAGE_SIZE_SHIFT + order :: u32);
          (st, pa, h) = io_buffer_init_aligned env i
      in if st \<noteq> ZX_OK then (st, per_trace)
         else
           (let per_trace1 = per_trace
                  \<lparr>chunks := map_option
                     (\<lambda>cs. cs[i := \<lparr>phys = pa, virt = [], vmo_handle = h\<rparr>]) (chunks per_trace),
                   num_chunks := num_chunks per_trace + 1\<rparr>;
                align_mask = push_bit (unat alignment_log2) (1 :: u64) - 1
            in if pa AND align_mask \<noteq> 0 then (ZX_ERR_INTERNAL, per_trace1)
               else alloc_chunks env order rest per_trace1))"

text \<open>
  The table loop (lines 433--442).  Each table is \<^verbatim>\<open>IPT_TOPA_MAX_TABLE_ENTRIES\<close> words
  long; their initial contents are the allocator's.
\<close>

primrec alloc_tables ::
  "ipt_header \<Rightarrow> collaborators \<Rightarrow> nat list \<Rightarrow> ipt_per_trace_state \<Rightarrow>
   zx_status \<times> ipt_per_trace_state" where
  "alloc_tables hw env [] per_trace = (ZX_OK, per_trace)"
| "alloc_tables hw env (i # rest) per_trace =
     (let (st, pa, h, contents) = io_buffer_init env i
      in if st \<noteq> ZX_OK then (ZX_ERR_NO_MEMORY, per_trace)
         else alloc_tables hw env rest
                (per_trace
                   \<lparr>topas := map_option
                      (\<lambda>ts. ts[i := \<lparr>phys = pa,
                                     virt = map contents [0 ..< unat (IPT_TOPA_MAX_TABLE_ENTRIES hw)],
                                     vmo_handle = h\<rparr>]) (topas per_trace),
                    num_tables := num_tables per_trace + 1\<rparr>))"

text \<open>
  \<^verbatim>\<open>x86_pt_alloc_buffer1\<close>.  The slot passed in is overwritten by the initial \<^verbatim>\<open>memset\<close>, so
  the function depends on its other arguments only.  The result is the status and
  the slot; \<open>None\<close> is a failed \<^verbatim>\<open>assert\<close> or undefined behaviour (the shift
  \<^verbatim>\<open>1 << order\<close> of an \<^verbatim>\<open>int\<close> by 31 or more).
\<close>

definition x86_pt_alloc_buffer1 ::
  "ipt_header \<Rightarrow> ipt_config \<Rightarrow> collaborators \<Rightarrow> u32 \<Rightarrow> u32 \<Rightarrow> bool \<Rightarrow>
   (zx_status \<times> ipt_per_trace_state) option" where
  "x86_pt_alloc_buffer1 hw cfg env num order circular =
     (if 31 \<le> unat order then None
      else
        let per_trace = zero_per_trace hw in
        if calloc_chunks_fails env then Some (ZX_ERR_NO_MEMORY, per_trace)
        else
          let per_trace = per_trace\<lparr>chunks := Some (replicate (unat num) zero_io_buffer)\<rparr>;
              (st, per_trace) = alloc_chunks env order [0 ..< unat num] per_trace
          in if st \<noteq> ZX_OK then Some (st, per_trace)
             else if num_chunks per_trace \<noteq> num then None
             else
               let per_trace = per_trace\<lparr>chunk_order := order, is_circular := circular\<rparr>;
                   entry_count = compute_topa_entry_count hw per_trace;
                   table_count =
                     (entry_count + IPT_TOPA_MAX_TABLE_ENTRIES hw - 1) div
                     IPT_TOPA_MAX_TABLE_ENTRIES hw
               in if entry_count < 2 then Some (ZX_ERR_INVALID_ARGS, per_trace)
                  else if \<not> ipt_config_output_topa_multi cfg \<and> 2 < entry_count
                  then Some (ZX_ERR_NOT_SUPPORTED, per_trace)
                  else if calloc_topas_fails env then Some (ZX_ERR_NO_MEMORY, per_trace)
                  else
                    let per_trace =
                          per_trace\<lparr>topas := Some (replicate (unat table_count) zero_io_buffer)\<rparr>;
                        (st, per_trace) = alloc_tables hw env [0 ..< unat table_count] per_trace
                    in if st \<noteq> ZX_OK then Some (ZX_ERR_NO_MEMORY, per_trace)
                       else if num_tables per_trace \<noteq> table_count then None
                       else (case make_topa hw per_trace of
                               None \<Rightarrow> None
                             | Some per_trace' \<Rightarrow> Some (ZX_OK, per_trace')))"

text \<open>
  \<^verbatim>\<open>x86_pt_free_buffer1\<close> (lines 450--470): the buffers are released and both array
  pointers set to \<^verbatim>\<open>NULL\<close>; \<open>None\<close> is the failed \<^verbatim>\<open>assert(!per_trace->assigned)\<close>.
\<close>

definition x86_pt_free_buffer1 :: "ipt_per_trace_state \<Rightarrow> ipt_per_trace_state option" where
  "x86_pt_free_buffer1 per_trace =
     (if assigned per_trace then None
      else Some (per_trace\<lparr>chunks := None, topas := None, allocated := False\<rparr>))"

section \<open>A sample platform\<close>

text \<open>
  One instance of the header record, for evaluating the model on concrete inputs:
  the bit positions of the Intel SDM for \<^verbatim>\<open>IA32_RTIT_CTL\<close> and for ToPA entries, and
  tables of four entries so that the tables stay small.
\<close>

definition sample_header :: ipt_header where
  "sample_header =
     \<lparr>IPT_TOPA_MAX_TABLE_ENTRIES = 4,
      IPT_TOPA_MIN_SHIFT = 12,
      IPT_TOPA_MAX_SHIFT = 27,
      IPT_TOPA_ENTRY_PHYS_ADDR = (\<lambda>x. x AND NOT 4095),
      IPT_TOPA_ENTRY_SIZE = (\<lambda>size_log2. push_bit 6 (size_log2 - 12)),
      IPT_TOPA_ENTRY_END = 1,
      IPT_TOPA_ENTRY_STOP = 16,
      IPT_TOPA_ENTRY_EXTRACT_SIZE = (\<lambda>e. ucast (drop_bit 6 e AND 15) + 12),
      IPT_MAX_NUM_TRACES = 64,
      IPT_MAX_NUM_ADDR_RANGES = 4,
      IPT_CTL_OS_ALLOWED_MASK = 4,
      IPT_CTL_USER_ALLOWED_MASK = 8,
      IPT_CTL_TSC_EN_MASK = 1024,
      IPT_CTL_DIS_RETC_MASK = 2048,
      IPT_CTL_BRANCH_EN_MASK = 8192,
      IPT_CTL_PTW_EN_MASK = 4096,
      IPT_CTL_FUP_ON_PTW_MASK = 32,
      IPT_CTL_CR3_FILTER_MASK = 128,
      IPT_CTL_MTC_EN_MASK = 512,
      IPT_CTL_MTC_FREQ_MASK = 245760,
      IPT_CTL_MTC_FREQ_SHIFT = 14,
      IPT_CTL_POWER_EVENT_EN_MASK = 16,
      IPT_CTL_ADDR0_MASK = 64424509440,
      IPT_CTL_ADDR1_MASK = 1030792151040,
      IPT_CTL_ADDR2_MASK = 16492674416640,
      IPT_CTL_ADDR3_MASK = 263882790666240,
      IPT_CTL_CYC_EN_MASK = 2,
      IPT_CTL_PSB_FREQ_MASK = 251658240,
      IPT_CTL_PSB_FREQ_SHIFT = 24,
      IPT_CTL_CYC_THRESH_MASK = 7864320,
      IPT_CTL_CYC_THRESH_SHIFT = 19,
      IPT_CTL_TOPA_MASK = 256,
      IPT_CTL_TRACE_EN_MASK = 1,
      sizeof_trace_config = 8,
      sizeof_buffer_config = 96,
      sizeof_descriptor = 4,
      sizeof_assign_thread_buffer = 8,
      sizeof_buffer_info = 8,
      sizeof_chunk_handle_req = 8,
      sizeof_handle = 4,
      allowed_rights = 221\<rparr>"

definition sample_config :: ipt_config where
  "sample_config =
     \<lparr>ipt_config_mtc_freq_mask = 585,
      ipt_config_cyc_thresh_mask = 16383,
      ipt_config_psb_freq_mask = 63,
      ipt_config_num_addr_ranges = 2,
      ipt_config_supported = True,
      ipt_config_cr3_filtering = True,
      ipt_config_psb = True,
      ipt_config_ip_filtering = True,
      ipt_config_mtc = True,
      ipt_config_ptwrite = False,
      ipt_config_power_events = False,
      ipt_config_output_topa = True,
      ipt_config_output_topa_multi = True\<rparr>"

text \<open>
  Collaborators that never fail: chunk \<open>i\<close> at physical address \<open>(16 + i) * 2^20\<close>,
  table \<open>i\<close> at \<open>(1 + i) * 2^12\<close> with all words zero, two cpus.
\<close>

definition sample_regs :: zx_x86_pt_regs where
  "sample_regs =
     \<lparr>regs_ctl = 0, regs_status = 0, regs_output_base = 4096,
      regs_output_mask_ptrs = 0, regs_cr3_match = 0,
      regs_addr_ranges = replicate 4 (0, 0)\<rparr>"

definition sample_collaborators :: collaborators where
  "sample_collaborators =
     \<lparr>calloc_traces_fails = False,
      calloc_chunks_fails = False,
      calloc_topas_fails = False,
      io_buffer_init_aligned = (\<lambda>i. (ZX_OK, (16 + of_nat i) * 1048576, 100 + of_nat i)),
      io_buffer_init = (\<lambda>i. (ZX_OK, (1 + of_nat i) * 4096, 200 + of_nat i, (\<lambda>k. 0))),
      zx_system_get_num_cpus = 2,
      mtrace_alloc_trace = ZX_OK,
      mtrace_free_trace = ZX_OK,
      mtrace_stage_trace_data = (\<lambda>d r. ZX_OK),
      mtrace_get_trace_data = (\<lambda>d. (ZX_OK, sample_regs)),
      mtrace_start = ZX_OK,
      mtrace_stop = ZX_OK,
      zx_object_get_info = (\<lambda>h. (ZX_OK, 255)),
      zx_handle_duplicate = (\<lambda>h r. (ZX_OK, h + 1000)),
      uninitialized_u32 = 0\<rparr>"

section \<open>The capture walk\<close>

text \<open>
  \<^verbatim>\<open>compute_capture_size\<close> (lines 339--370).  The inner loop either returns from the
  function or runs to the end of the table with a new total.
\<close>

datatype capture_walk = Returned u64 | Continue u64

primrec capture_entries ::
  "ipt_header \<Rightarrow> io_buffer \<Rightarrow> u64 \<Rightarrow> u32 \<Rightarrow> u32 \<Rightarrow> nat list \<Rightarrow> u64 \<Rightarrow>
   capture_walk option" where
  "capture_entries hw topa curr_table_paddr curr_table_entry_idx curr_entry_offset [] total_size =
     Some (Continue total_size)"
| "capture_entries hw topa curr_table_paddr curr_table_entry_idx curr_entry_offset
     (entry # rest) total_size =
     (if phys topa = curr_table_paddr \<and> curr_table_entry_idx \<le> (of_nat entry :: u32)
      then Some (Returned (total_size + ucast curr_entry_offset))
      else if entry < length (virt topa) then
        (let topa_entry = virt topa ! entry;
             size_log2 = IPT_TOPA_ENTRY_EXTRACT_SIZE hw topa_entry
         in if 64 \<le> unat size_log2 then None
            else capture_entries hw topa curr_table_paddr curr_table_entry_idx curr_entry_offset
                   rest (total_size + push_bit (unat size_log2) 1))
      else None)"

primrec capture_tables ::
  "ipt_header \<Rightarrow> io_buffer list \<Rightarrow> u64 \<Rightarrow> u32 \<Rightarrow> u32 \<Rightarrow> nat list \<Rightarrow> u64 \<Rightarrow>
   u64 option" where
  "capture_tables hw ts curr_table_paddr curr_table_entry_idx curr_entry_offset [] total_size =
     Some 0"
| "capture_tables hw ts curr_table_paddr curr_table_entry_idx curr_entry_offset
     (table # rest) total_size =
     (if table < length ts then
        (case capture_entries hw (ts ! table) curr_table_paddr curr_table_entry_idx
                curr_entry_offset [0 ..< unat (IPT_TOPA_MAX_TABLE_ENTRIES hw - 1)] total_size of
           None \<Rightarrow> None
         | Some (Returned r) \<Rightarrow> Some r
         | Some (Continue t) \<Rightarrow>
             capture_tables hw ts curr_table_paddr curr_table_entry_idx curr_entry_offset rest t)
      else None)"

text \<open>
  A \<^verbatim>\<open>NULL\<close> array has no element that may be read: it is the empty list.  \<open>None\<close> is a read
  outside an array or a shift of \<^verbatim>\<open>1UL\<close> by 64 or more.
\<close>

definition array_of :: "'a list option \<Rightarrow> 'a list" where
  "array_of p = (case p of None \<Rightarrow> [] | Some xs \<Rightarrow> xs)"

definition compute_capture_size :: "ipt_header \<Rightarrow> ipt_per_trace_state \<Rightarrow> u64 option" where
  "compute_capture_size hw per_trace =
     (let curr_table_paddr = output_base per_trace;
          curr_table_entry_idx = drop_bit 7 (ucast (output_mask_ptrs per_trace) :: u32);
          curr_entry_offset = (ucast (drop_bit 32 (output_mask_ptrs per_trace)) :: u32)
      in capture_tables hw (array_of (topas per_trace)) curr_table_paddr curr_table_entry_idx
           curr_entry_offset [0 ..< unat (num_tables per_trace)] 0)"

section \<open>Validation of the control bits and \<^verbatim>\<open>x86_pt_alloc_buffer\<close>\<close>

text \<open>The request of \<^verbatim>\<open>ALLOC_BUFFER\<close> (\<^verbatim>\<open>ioctl_insntrace_buffer_config_t\<close>).\<close>

record ioctl_insntrace_buffer_config =
  cfg_num_chunks :: u32
  cfg_chunk_order :: u32
  cfg_is_circular :: bool
  cfg_ctl :: u64
  cfg_cr3_match :: u64
  cfg_addr_ranges :: "(u64 \<times> u64) list"

text \<open>The mask built in lines 488--516.\<close>

definition settable_ctl_mask :: "ipt_header \<Rightarrow> ipt_config \<Rightarrow> u64" where
  "settable_ctl_mask hw cfg =
     (let m = IPT_CTL_OS_ALLOWED_MASK hw OR IPT_CTL_USER_ALLOWED_MASK hw OR
              IPT_CTL_TSC_EN_MASK hw OR IPT_CTL_DIS_RETC_MASK hw OR IPT_CTL_BRANCH_EN_MASK hw;
          m = (if ipt_config_ptwrite cfg
               then m OR (IPT_CTL_PTW_EN_MASK hw OR IPT_CTL_FUP_ON_PTW_MASK hw) else m);
          m = (if ipt_config_cr3_filtering cfg then m OR IPT_CTL_CR3_FILTER_MASK hw else m);
          m = (if ipt_config_mtc cfg
               then m OR (IPT_CTL_MTC_EN_MASK hw OR IPT_CTL_MTC_FREQ_MASK hw) else m);
          m = (if ipt_config_power_events cfg then m OR IPT_CTL_POWER_EVENT_EN_MASK hw else m);
          m = (if ipt_config_ip_filtering cfg then
                 (let m = (if 1 \<le> ipt_config_num_addr_ranges cfg
                           then m OR IPT_CTL_ADDR0_MASK hw else m);
                      m = (if 2 \<le> ipt_config_num_addr_ranges cfg
                           then m OR IPT_CTL_ADDR1_MASK hw else m);
                      m = (if 3 \<le> ipt_config_num_addr_ranges cfg
                           then m OR IPT_CTL_ADDR2_MASK hw else m);
                      m = (if 4 \<le> ipt_config_num_addr_ranges cfg
                           then m OR IPT_CTL_ADDR3_MASK hw else m)
                  in m)
               else m);
          m = (if ipt_config_psb cfg
               then m OR (IPT_CTL_CYC_EN_MASK hw OR IPT_CTL_PSB_FREQ_MASK hw OR
                          IPT_CTL_CYC_THRESH_MASK hw)
               else m)
      in m)"

text \<open>A sub-field of the control word: \<^verbatim>\<open>(uint32_t) ((ctl & MASK) >> SHIFT)\<close>.\<close>

definition ctl_subfield :: "u64 \<Rightarrow> u64 \<Rightarrow> nat \<Rightarrow> u32" where
  "ctl_subfield c field_mask field_shift = ucast (drop_bit field_shift (c AND field_mask))"

text \<open>
  The test \<^verbatim>\<open>v != 0 && ((1 << v) & hw_mask) == 0\<close> on a sub-field.  The shift of the
  \<^verbatim>\<open>int\<close> 1 is evaluated only when \<open>v\<close> is not zero, and is undefined (\<open>None\<close>) for 31 or more.
\<close>

definition subfield_rejected :: "u32 \<Rightarrow> u32 \<Rightarrow> bool option" where
  "subfield_rejected v hw_mask =
     (if v = 0 then Some False
      else if 31 \<le> unat v then None
      else Some (push_bit (unat v) (1 :: u32) AND hw_mask = 0))"

text \<open>
  Lines 488--540 of \<^verbatim>\<open>x86_pt_alloc_buffer\<close>: \<open>Some ZX_ERR_INVALID_ARGS\<close> where the code
  returns, \<open>Some ZX_OK\<close> where it goes on to look for a free slot.
\<close>

definition validate_ctl :: "ipt_header \<Rightarrow> ipt_config \<Rightarrow> u64 \<Rightarrow> zx_status option" where
  "validate_ctl hw cfg c =
     (if c AND NOT (settable_ctl_mask hw cfg) \<noteq> 0 then Some ZX_ERR_INVALID_ARGS
      else
        case subfield_rejected
               (ctl_subfield c (IPT_CTL_MTC_FREQ_MASK hw) (IPT_CTL_MTC_FREQ_SHIFT hw))
               (ipt_config_mtc_freq_mask cfg) of
          None \<Rightarrow> None
        | Some True \<Rightarrow> Some ZX_ERR_INVALID_ARGS
        | Some False \<Rightarrow>
           (case subfield_rejected
                   (ctl_subfield c (IPT_CTL_CYC_THRESH_MASK hw) (IPT_CTL_CYC_THRESH_SHIFT hw))
                   (ipt_config_cyc_thresh_mask cfg) of
              None \<Rightarrow> None
            | Some True \<Rightarrow> Some ZX_ERR_INVALID_ARGS
            | Some False \<Rightarrow>
               (case subfield_rejected
                       (ctl_subfield c (IPT_CTL_PSB_FREQ_MASK hw) (IPT_CTL_PSB_FREQ_SHIFT hw))
                       (ipt_config_psb_freq_mask cfg) of
                  None \<Rightarrow> None
                | Some True \<Rightarrow> Some ZX_ERR_INVALID_ARGS
                | Some False \<Rightarrow> Some ZX_OK)))"

text \<open>
  The search for an unallocated slot (lines 544--549) over the descriptors
  \<open>0 ..< num_traces\<close>: \<open>Some (Some d)\<close> when slot \<open>d\<close> is free, \<open>Some None\<close> when the loop reaches
  \<^verbatim>\<open>num_traces\<close>, \<open>None\<close> for a read outside the array.
\<close>

primrec find_unallocated :: "ipt_per_trace_state list \<Rightarrow> nat list \<Rightarrow> nat option option" where
  "find_unallocated slots [] = Some None"
| "find_unallocated slots (descriptor # rest) =
     (if descriptor < length slots then
        (if \<not> allocated (slots ! descriptor) then Some (Some descriptor)
         else find_unallocated slots rest)
      else None)"

text \<open>
  \<^verbatim>\<open>x86_pt_alloc_buffer\<close>.  The result is the status, the descriptor written to
  \<^verbatim>\<open>out_descriptor\<close> (if any) and the device.
\<close>

definition x86_pt_alloc_buffer ::
  "ipt_header \<Rightarrow> ipt_config \<Rightarrow> collaborators \<Rightarrow> insntrace_device \<Rightarrow>
   ioctl_insntrace_buffer_config \<Rightarrow> (zx_status \<times> u32 option \<times> insntrace_device) option" where
  "x86_pt_alloc_buffer hw cfg env dev config =
     (if cfg_num_chunks config = 0 \<or> MAX_NUM_CHUNKS < cfg_num_chunks config
      then Some (ZX_ERR_INVALID_ARGS, None, dev)
      else if MAX_CHUNK_ORDER < cfg_chunk_order config
      then Some (ZX_ERR_INVALID_ARGS, None, dev)
      else
        let chunk_pages = (push_bit (unat (cfg_chunk_order config)) 1 :: u64);
            nr_pages = ucast (cfg_num_chunks config) * chunk_pages;
            total_per_trace = nr_pages * PAGE_SIZE
        in if MAX_PER_TRACE_SPACE < total_per_trace then Some (ZX_ERR_INVALID_ARGS, None, dev)
           else
             case validate_ctl hw cfg (cfg_ctl config) of
               None \<Rightarrow> None
             | Some st \<Rightarrow>
                 if st \<noteq> ZX_OK then Some (st, None, dev)
                 else
                   (case find_unallocated (array_of (per_trace_state dev))
                           [0 ..< unat (num_traces dev)] of
                      None \<Rightarrow> None
                    | Some None \<Rightarrow> Some (ZX_ERR_NO_RESOURCES, None, dev)
                    | Some (Some descriptor) \<Rightarrow>
                        (case x86_pt_alloc_buffer1 hw cfg env (cfg_num_chunks config)
                                (cfg_chunk_order config) (cfg_is_circular config) of
                           None \<Rightarrow> None
                         | Some (status1, per_trace) \<Rightarrow>
                             if status1 \<noteq> ZX_OK then
                               (case x86_pt_free_buffer1 per_trace of
                                  None \<Rightarrow> None
                                | Some per_trace' \<Rightarrow>
                                    Some (status1, None,
                                          dev\<lparr>per_trace_state :=
                                                 Some ((array_of (per_trace_state dev))
                                                         [descriptor := per_trace'])\<rparr>))
                             else if array_of (topas per_trace) = [] then None
                             else
                               Some (ZX_OK, Some (of_nat descriptor),
                                     dev\<lparr>per_trace_state :=
                                            Some ((array_of (per_trace_state dev))
                                                    [descriptor := per_trace
                                                       \<lparr>ctl := cfg_ctl config,
                                                        status := 0,
                                                        output_base :=
                                                          phys (array_of (topas per_trace) ! 0),
                                                        output_mask_ptrs := 0,
                                                        cr3_match := cfg_cr3_match config,
                                                        addr_ranges := cfg_addr_ranges config,
                                                        allocated := True\<rparr>])\<rparr>))))"

section \<open>The ioctl handlers\<close>

text \<open>
  Modelled from the spec: the values of \<^verbatim>\<open>IPT_MODE_CPUS\<close> and \<^verbatim>\<open>IPT_MODE_THREADS\<close>, which
  the header that is not among the sources defines, are the spec's
  (\<open>mode: u32 (0=CpusMode,1=ThreadsMode)\<close>).
\<close>

definition IPT_MODE_CPUS :: u32 where
  "IPT_MODE_CPUS = 0"

definition IPT_MODE_THREADS :: u32 where
  "IPT_MODE_THREADS = 1"

text \<open>The other request structures.\<close>

record ioctl_insntrace_trace_config =
  tc_mode :: u32
  tc_num_traces :: u32

record ioctl_insntrace_assign_thread_buffer =
  atb_descriptor :: u32
  atb_thread :: u32

record ioctl_insntrace_chunk_handle_req =
  req_descriptor :: u32
  req_chunk_num :: u32

text \<open>
  What a handler copies into the reply buffer; \<open>No_reply\<close> when it writes nothing
  (and leaves \<^verbatim>\<open>out_actual\<close> alone).
\<close>

datatype ioctl_reply =
    No_reply
  | Trace_config_reply ioctl_insntrace_trace_config
  | Descriptor_reply u32
  | Buffer_config_reply ioctl_insntrace_buffer_config
  | Buffer_info_reply u64
  | Handle_reply u32

text \<open>
  \<^verbatim>\<open>x86_pt_free_buffer\<close> (lines 589--604); \<open>None\<close> is the failed
  \<^verbatim>\<open>assert(dev->per_trace_state)\<close> or a slot outside the array.
\<close>

definition x86_pt_free_buffer ::
  "insntrace_device \<Rightarrow> u32 \<Rightarrow> (zx_status \<times> insntrace_device) option" where
  "x86_pt_free_buffer dev descriptor =
     (if active dev then Some (ZX_ERR_BAD_STATE, dev)
      else if num_traces dev \<le> descriptor then Some (ZX_ERR_INVALID_ARGS, dev)
      else
        case per_trace_state dev of
          None \<Rightarrow> None
        | Some slots \<Rightarrow>
            if unat descriptor < length slots then
              (let per_trace = slots ! unat descriptor
               in if \<not> allocated per_trace then Some (ZX_ERR_INVALID_ARGS, dev)
                  else if assigned per_trace then Some (ZX_ERR_BAD_STATE, dev)
                  else (case x86_pt_free_buffer1 per_trace of
                          None \<Rightarrow> None
                        | Some per_trace' \<Rightarrow>
                            Some (ZX_OK,
                                  dev\<lparr>per_trace_state :=
                                         Some (slots[unat descriptor := per_trace'])\<rparr>)))
            else None)"

text \<open>\<^verbatim>\<open>x86_pt_stage_trace_data\<close> (lines 606--627): the status it returns.\<close>

definition x86_pt_stage_trace_data ::
  "ipt_header \<Rightarrow> collaborators \<Rightarrow> insntrace_device \<Rightarrow> u32 \<Rightarrow> zx_status option" where
  "x86_pt_stage_trace_data hw env dev descriptor =
     (if num_traces dev \<le> descriptor then Some ZX_ERR_INVALID_ARGS
      else
        case per_trace_state dev of
          None \<Rightarrow> None
        | Some slots \<Rightarrow>
            if unat descriptor < length slots then
              (let per_trace = slots ! unat descriptor;
                   regs = \<lparr>regs_ctl = ctl per_trace OR
                                       (IPT_CTL_TOPA_MASK hw OR IPT_CTL_TRACE_EN_MASK hw),
                           regs_status = status per_trace,
                           regs_output_base = output_base per_trace,
                           regs_output_mask_ptrs = output_mask_ptrs per_trace,
                           regs_cr3_match = cr3_match per_trace,
                           regs_addr_ranges = addr_ranges per_trace\<rparr>
               in Some (mtrace_stage_trace_data env descriptor regs))
            else None)"

text \<open>\<^verbatim>\<open>x86_pt_get_trace_data\<close> (lines 629--652).\<close>

definition x86_pt_get_trace_data ::
  "collaborators \<Rightarrow> insntrace_device \<Rightarrow> u32 \<Rightarrow> (zx_status \<times> insntrace_device) option" where
  "x86_pt_get_trace_data env dev descriptor =
     (if num_traces dev \<le> descriptor then Some (ZX_ERR_INVALID_ARGS, dev)
      else
        case per_trace_state dev of
          None \<Rightarrow> None
        | Some slots \<Rightarrow>
            if unat descriptor < length slots then
              (let (st, regs) = mtrace_get_trace_data env descriptor
               in if st \<noteq> ZX_OK then Some (st, dev)
                  else Some (ZX_OK,
                             dev\<lparr>per_trace_state :=
                                    Some (slots[unat descriptor := (slots ! unat descriptor)
                                            \<lparr>ctl := regs_ctl regs,
                                             status := regs_status regs,
                                             output_base := regs_output_base regs,
                                             output_mask_ptrs := regs_output_mask_ptrs regs,
                                             cr3_match := regs_cr3_match regs,
                                             addr_ranges := regs_addr_ranges regs\<rparr>])\<rparr>))
            else None)"

text \<open>\<^verbatim>\<open>ipt_alloc_trace\<close> (lines 657--715); \<open>cmd\<close> is the command buffer read as a trace config.\<close>

definition ipt_alloc_trace ::
  "ipt_header \<Rightarrow> ipt_config \<Rightarrow> collaborators \<Rightarrow> insntrace_device \<Rightarrow>
   ioctl_insntrace_trace_config \<Rightarrow> nat \<Rightarrow> zx_status \<times> insntrace_device" where
  "ipt_alloc_trace hw cfg env dev cmd cmdlen =
     (if \<not> ipt_config_supported cfg then (ZX_ERR_NOT_SUPPORTED, dev)
      else if \<not> ipt_config_output_topa cfg then (ZX_ERR_NOT_SUPPORTED, dev)
      else if per_trace_state dev \<noteq> None then (ZX_ERR_BAD_STATE, dev)
      else if cmdlen \<noteq> sizeof_trace_config hw then (ZX_ERR_INVALID_ARGS, dev)
      else if tc_mode cmd = IPT_MODE_THREADS then (ZX_ERR_NOT_SUPPORTED, dev)
      else if tc_mode cmd \<noteq> IPT_MODE_CPUS \<and> tc_mode cmd \<noteq> IPT_MODE_THREADS
      then (ZX_ERR_INVALID_ARGS, dev)
      else
        let internal_mode =
              (if tc_mode cmd = IPT_MODE_CPUS then IPT_TRACE_CPUS else IPT_TRACE_THREADS)
        in if IPT_MAX_NUM_TRACES hw < tc_num_traces cmd then (ZX_ERR_INVALID_ARGS, dev)
           else if tc_mode cmd = IPT_MODE_CPUS \<and> tc_num_traces cmd \<noteq> zx_system_get_num_cpus env
           then (ZX_ERR_INVALID_ARGS, dev)
           else
             let dev1 = dev\<lparr>num_traces := tc_num_traces cmd\<rparr>
             in if calloc_traces_fails env then (ZX_ERR_NO_MEMORY, dev1)
                else if mtrace_alloc_trace env \<noteq> ZX_OK
                then (mtrace_alloc_trace env, dev1\<lparr>per_trace_state := None\<rparr>)
                else (ZX_OK,
                      dev1\<lparr>per_trace_state :=
                             Some (replicate (unat (num_traces dev1)) (zero_per_trace hw)),
                           mode := internal_mode\<rparr>))"

text \<open>The two loops of \<^verbatim>\<open>ipt_free_trace\<close> (lines 722--732).\<close>

primrec any_assigned :: "ipt_per_trace_state list \<Rightarrow> nat list \<Rightarrow> bool option" where
  "any_assigned slots [] = Some False"
| "any_assigned slots (i # rest) =
     (if i < length slots then
        (if assigned (slots ! i) then Some True else any_assigned slots rest)
      else None)"

primrec free_allocated ::
  "nat list \<Rightarrow> ipt_per_trace_state list \<Rightarrow> ipt_per_trace_state list option" where
  "free_allocated [] slots = Some slots"
| "free_allocated (i # rest) slots =
     (if i < length slots then
        (if allocated (slots ! i) then
           (case x86_pt_free_buffer1 (slots ! i) of
              None \<Rightarrow> None
            | Some per_trace' \<Rightarrow> free_allocated rest (slots[i := per_trace']))
         else free_allocated rest slots)
      else None)"

text \<open>
  \<^verbatim>\<open>ipt_free_trace\<close> (lines 717--745).  When the privileged \<^verbatim>\<open>FREE_TRACE\<close> action fails
  the function returns \<^verbatim>\<open>ZX_OK\<close> and keeps the trace array.
\<close>

definition ipt_free_trace ::
  "collaborators \<Rightarrow> insntrace_device \<Rightarrow> (zx_status \<times> insntrace_device) option" where
  "ipt_free_trace env dev =
     (if active dev then Some (ZX_ERR_BAD_STATE, dev)
      else
        case any_assigned (array_of (per_trace_state dev)) [0 ..< unat (num_traces dev)] of
          None \<Rightarrow> None
        | Some True \<Rightarrow> Some (ZX_ERR_BAD_STATE, dev)
        | Some False \<Rightarrow>
            (case free_allocated [0 ..< unat (num_traces dev)]
                    (array_of (per_trace_state dev)) of
               None \<Rightarrow> None
             | Some slots \<Rightarrow>
                 (let dev1 = dev\<lparr>per_trace_state :=
                                   map_option (\<lambda>_. slots) (per_trace_state dev)\<rparr>
                  in if mtrace_free_trace env \<noteq> ZX_OK then Some (ZX_OK, dev1)
                     else Some (ZX_OK, dev1\<lparr>per_trace_state := None\<rparr>))))"

text \<open>
  \<^verbatim>\<open>ipt_get_trace_config\<close> (lines 747--767).  The local \<^verbatim>\<open>config\<close> is not initialised and
  only its \<^verbatim>\<open>mode\<close> is assigned before it is copied out: \<^verbatim>\<open>num_traces\<close> is whatever the
  stack held.
\<close>

definition ipt_get_trace_config ::
  "ipt_header \<Rightarrow> collaborators \<Rightarrow> insntrace_device \<Rightarrow> nat \<Rightarrow> zx_status \<times> ioctl_reply" where
  "ipt_get_trace_config hw env dev replymax =
     (if replymax < sizeof_trace_config hw then (ZX_ERR_BUFFER_TOO_SMALL, No_reply)
      else
        let config = \<lparr>tc_mode = (case mode dev of
                                    IPT_TRACE_CPUS \<Rightarrow> IPT_MODE_CPUS
                                  | IPT_TRACE_THREADS \<Rightarrow> IPT_MODE_THREADS),
                      tc_num_traces = uninitialized_u32 env\<rparr>
        in (ZX_OK, Trace_config_reply config))"

text \<open>\<^verbatim>\<open>ipt_alloc_buffer\<close> (lines 769--787).\<close>

definition ipt_alloc_buffer ::
  "ipt_header \<Rightarrow> ipt_config \<Rightarrow> collaborators \<Rightarrow> insntrace_device \<Rightarrow>
   ioctl_insntrace_buffer_config \<Rightarrow> nat \<Rightarrow> nat \<Rightarrow>
   (zx_status \<times> ioctl_reply \<times> insntrace_device) option" where
  "ipt_alloc_buffer hw cfg env dev cmd cmdlen replymax =
     (if cmdlen \<noteq> sizeof_buffer_config hw then Some (ZX_ERR_INVALID_ARGS, No_reply, dev)
      else if replymax < sizeof_descriptor hw then Some (ZX_ERR_BUFFER_TOO_SMALL, No_reply, dev)
      else
        case x86_pt_alloc_buffer hw cfg env dev cmd of
          None \<Rightarrow> None
        | Some (st, descriptor, dev') \<Rightarrow>
            if st \<noteq> ZX_OK then Some (st, No_reply, dev')
            else (case descriptor of
                    None \<Rightarrow> None
                  | Some d \<Rightarrow> Some (ZX_OK, Descriptor_reply d, dev')))"

text \<open>
  \<^verbatim>\<open>ipt_assign_thread_buffer\<close> and \<^verbatim>\<open>ipt_release_thread_buffer\<close> (lines 789--807, with
  lines 573--587): the thread handle is closed and nothing else happens.
\<close>

definition ipt_assign_thread_buffer ::
  "ipt_header \<Rightarrow> insntrace_device \<Rightarrow> ioctl_insntrace_assign_thread_buffer \<Rightarrow> nat \<Rightarrow> zx_status" where
  "ipt_assign_thread_buffer hw dev cmd cmdlen =
     (if cmdlen \<noteq> sizeof_assign_thread_buffer hw then ZX_ERR_INVALID_ARGS
      else ZX_ERR_NOT_SUPPORTED)"

definition ipt_release_thread_buffer ::
  "ipt_header \<Rightarrow> insntrace_device \<Rightarrow> ioctl_insntrace_assign_thread_buffer \<Rightarrow> nat \<Rightarrow> zx_status" where
  "ipt_release_thread_buffer hw dev cmd cmdlen =
     (if cmdlen \<noteq> sizeof_assign_thread_buffer hw then ZX_ERR_INVALID_ARGS
      else ZX_ERR_NOT_SUPPORTED)"

text \<open>\<^verbatim>\<open>ipt_get_buffer_config\<close> (lines 809--839).\<close>

definition ipt_get_buffer_config ::
  "ipt_header \<Rightarrow> insntrace_device \<Rightarrow> u32 \<Rightarrow> nat \<Rightarrow> nat \<Rightarrow> (zx_status \<times> ioctl_reply) option" where
  "ipt_get_buffer_config hw dev descriptor cmdlen replymax =
     (if cmdlen \<noteq> sizeof_descriptor hw then Some (ZX_ERR_INVALID_ARGS, No_reply)
      else if replymax < sizeof_buffer_config hw then Some (ZX_ERR_BUFFER_TOO_SMALL, No_reply)
      else if num_traces dev \<le> descriptor then Some (ZX_ERR_INVALID_ARGS, No_reply)
      else if unat descriptor < length (array_of (per_trace_state dev)) then
        (let per_trace = array_of (per_trace_state dev) ! unat descriptor
         in if \<not> allocated per_trace then Some (ZX_ERR_INVALID_ARGS, No_reply)
            else Some (ZX_OK,
                       Buffer_config_reply
                         \<lparr>cfg_num_chunks = num_chunks per_trace,
                          cfg_chunk_order = chunk_order per_trace,
                          cfg_is_circular = is_circular per_trace,
                          cfg_ctl = ctl per_trace,
                          cfg_cr3_match = cr3_match per_trace,
                          cfg_addr_ranges = addr_ranges per_trace\<rparr>))
      else None)"

text \<open>\<^verbatim>\<open>ipt_get_buffer_info\<close> (lines 841--869).\<close>

definition ipt_get_buffer_info ::
  "ipt_header \<Rightarrow> insntrace_device \<Rightarrow> u32 \<Rightarrow> nat \<Rightarrow> nat \<Rightarrow> (zx_status \<times> ioctl_reply) option" where
  "ipt_get_buffer_info hw dev descriptor cmdlen replymax =
     (if cmdlen \<noteq> sizeof_descriptor hw then Some (ZX_ERR_INVALID_ARGS, No_reply)
      else if replymax < sizeof_buffer_info hw then Some (ZX_ERR_BUFFER_TOO_SMALL, No_reply)
      else if mode dev = IPT_TRACE_CPUS \<and> active dev then Some (ZX_ERR_BAD_STATE, No_reply)
      else if num_traces dev \<le> descriptor then Some (ZX_ERR_INVALID_ARGS, No_reply)
      else if unat descriptor < length (array_of (per_trace_state dev)) then
        (let per_trace = array_of (per_trace_state dev) ! unat descriptor
         in if \<not> allocated per_trace then Some (ZX_ERR_INVALID_ARGS, No_reply)
            else (case compute_capture_size hw per_trace of
                    None \<Rightarrow> None
                  | Some capture_end \<Rightarrow> Some (ZX_OK, Buffer_info_reply capture_end)))
      else None)"

text \<open>\<^verbatim>\<open>ipt_get_chunk_handle\<close> (lines 871--912).\<close>

definition ipt_get_chunk_handle ::
  "ipt_header \<Rightarrow> collaborators \<Rightarrow> insntrace_device \<Rightarrow> ioctl_insntrace_chunk_handle_req \<Rightarrow>
   nat \<Rightarrow> nat \<Rightarrow> (zx_status \<times> ioctl_reply) option" where
  "ipt_get_chunk_handle hw env dev req cmdlen replymax =
     (if cmdlen \<noteq> sizeof_chunk_handle_req hw then Some (ZX_ERR_INVALID_ARGS, No_reply)
      else if replymax < sizeof_handle hw then Some (ZX_ERR_BUFFER_TOO_SMALL, No_reply)
      else if num_traces dev \<le> req_descriptor req then Some (ZX_ERR_INVALID_ARGS, No_reply)
      else if unat (req_descriptor req) < length (array_of (per_trace_state dev)) then
        (let per_trace = array_of (per_trace_state dev) ! unat (req_descriptor req)
         in if \<not> allocated per_trace then Some (ZX_ERR_INVALID_ARGS, No_reply)
            else if num_chunks per_trace \<le> req_chunk_num req
            then Some (ZX_ERR_INVALID_ARGS, No_reply)
            else if unat (req_chunk_num req) < length (array_of (chunks per_trace)) then
              (let vmo = vmo_handle (array_of (chunks per_trace) ! unat (req_chunk_num req));
                   (st, rights) = zx_object_get_info env vmo
               in if st \<noteq> ZX_OK then Some (st, No_reply)
                  else
                    (let (st2, h) = zx_handle_duplicate env vmo (rights AND allowed_rights hw)
                     in if st2 \<noteq> ZX_OK then Some (st2, No_reply)
                        else Some (ZX_OK, Handle_reply h)))
            else None)
      else None)"

text \<open>\<^verbatim>\<open>ipt_free_buffer\<close> (lines 914--922).\<close>

definition ipt_free_buffer ::
  "ipt_header \<Rightarrow> insntrace_device \<Rightarrow> u32 \<Rightarrow> nat \<Rightarrow> (zx_status \<times> insntrace_device) option" where
  "ipt_free_buffer hw dev descriptor cmdlen =
     (if cmdlen \<noteq> sizeof_descriptor hw then Some (ZX_ERR_INVALID_ARGS, dev)
      else x86_pt_free_buffer dev descriptor)"

text \<open>The two loops of \<^verbatim>\<open>ipt_start\<close> (lines 942--959).\<close>

primrec all_allocated_unassigned :: "ipt_per_trace_state list \<Rightarrow> nat list \<Rightarrow> bool option" where
  "all_allocated_unassigned slots [] = Some True"
| "all_allocated_unassigned slots (cpu # rest) =
     (if cpu < length slots then
        (if \<not> allocated (slots ! cpu) then Some False
         else if assigned (slots ! cpu) then Some False
         else all_allocated_unassigned slots rest)
      else None)"

primrec stage_cpus ::
  "ipt_header \<Rightarrow> collaborators \<Rightarrow> nat list \<Rightarrow> insntrace_device \<Rightarrow>
   (zx_status \<times> insntrace_device) option" where
  "stage_cpus hw env [] dev = Some (ZX_OK, dev)"
| "stage_cpus hw env (cpu # rest) dev =
     (case x86_pt_stage_trace_data hw env dev (of_nat cpu) of
        None \<Rightarrow> None
      | Some st \<Rightarrow>
          if st \<noteq> ZX_OK then Some (st, dev)
          else if cpu < length (array_of (per_trace_state dev)) then
            stage_cpus hw env rest
              (dev\<lparr>per_trace_state :=
                     Some ((array_of (per_trace_state dev))
                             [cpu := (array_of (per_trace_state dev) ! cpu)
                                \<lparr>owner := of_nat cpu, assigned := True\<rparr>])\<rparr>)
          else None)"

text \<open>\<^verbatim>\<open>ipt_start\<close> (lines 928--969).\<close>

definition ipt_start ::
  "ipt_header \<Rightarrow> collaborators \<Rightarrow> insntrace_device \<Rightarrow> (zx_status \<times> insntrace_device) option" where
  "ipt_start hw env dev =
     (if active dev then Some (ZX_ERR_BAD_STATE, dev)
      else if mode dev \<noteq> IPT_TRACE_CPUS then Some (ZX_ERR_BAD_STATE, dev)
      else
        case all_allocated_unassigned (array_of (per_trace_state dev))
               [0 ..< unat (num_traces dev)] of
          None \<Rightarrow> None
        | Some False \<Rightarrow> Some (ZX_ERR_BAD_STATE, dev)
        | Some True \<Rightarrow>
            (case stage_cpus hw env [0 ..< unat (num_traces dev)] dev of
               None \<Rightarrow> None
             | Some (st, dev1) \<Rightarrow>
                 if st \<noteq> ZX_OK then Some (st, dev1)
                 else if mtrace_start env \<noteq> ZX_OK then Some (mtrace_start env, dev1)
                 else Some (ZX_OK, dev1\<lparr>active := True\<rparr>)))"

text \<open>The loop of \<^verbatim>\<open>ipt_stop\<close> (lines 992--1004).\<close>

primrec unassign_cpus ::
  "collaborators \<Rightarrow> nat list \<Rightarrow> insntrace_device \<Rightarrow> (zx_status \<times> insntrace_device) option" where
  "unassign_cpus env [] dev = Some (ZX_OK, dev)"
| "unassign_cpus env (cpu # rest) dev =
     (case x86_pt_get_trace_data env dev (of_nat cpu) of
        None \<Rightarrow> None
      | Some (st, dev1) \<Rightarrow>
          if st \<noteq> ZX_OK then Some (st, dev1)
          else if cpu < length (array_of (per_trace_state dev1)) then
            unassign_cpus env rest
              (dev1\<lparr>per_trace_state :=
                      Some ((array_of (per_trace_state dev1))
                              [cpu := (array_of (per_trace_state dev1) ! cpu)
                                 \<lparr>assigned := False, owner := 0\<rparr>])\<rparr>)
          else None)"

text \<open>\<^verbatim>\<open>ipt_stop\<close> (lines 976--1008).\<close>

definition ipt_stop ::
  "collaborators \<Rightarrow> insntrace_device \<Rightarrow> (zx_status \<times> insntrace_device) option" where
  "ipt_stop env dev =
     (if \<not> active dev then Some (ZX_ERR_BAD_STATE, dev)
      else if mtrace_stop env \<noteq> ZX_OK then Some (mtrace_stop env, dev)
      else
        let dev1 = dev\<lparr>active := False\<rparr>
        in if mode dev1 = IPT_TRACE_CPUS
           then unassign_cpus env [0 ..< unat (num_traces dev1)] dev1
           else Some (ZX_OK, dev1))"

section \<open>The ioctl dispatcher\<close>

text \<open>
  A request: the operation code together with the command buffer read as the
  structure that operation's handler copies it into.  The handler looks at the
  structure only after it has compared \<^verbatim>\<open>cmdlen\<close> with the structure's size.
  \<open>IOCTL_INSNTRACE_OTHER\<close> is any other operation code of the family.
\<close>

datatype ioctl_request =
    IOCTL_INSNTRACE_ALLOC_TRACE ioctl_insntrace_trace_config
  | IOCTL_INSNTRACE_FREE_TRACE
  | IOCTL_INSNTRACE_GET_TRACE_CONFIG
  | IOCTL_INSNTRACE_ALLOC_BUFFER ioctl_insntrace_buffer_config
  | IOCTL_INSNTRACE_ASSIGN_THREAD_BUFFER ioctl_insntrace_assign_thread_buffer
  | IOCTL_INSNTRACE_RELEASE_THREAD_BUFFER ioctl_insntrace_assign_thread_buffer
  | IOCTL_INSNTRACE_GET_BUFFER_CONFIG u32
  | IOCTL_INSNTRACE_GET_BUFFER_INFO u32
  | IOCTL_INSNTRACE_GET_CHUNK_HANDLE ioctl_insntrace_chunk_handle_req
  | IOCTL_INSNTRACE_FREE_BUFFER u32
  | IOCTL_INSNTRACE_START
  | IOCTL_INSNTRACE_STOP
  | IOCTL_INSNTRACE_OTHER

text \<open>The test \<^verbatim>\<open>op != IOCTL_INSNTRACE_ALLOC_TRACE\<close> of line 1016.\<close>

definition not_alloc_trace :: "ioctl_request \<Rightarrow> bool" where
  "not_alloc_trace op = (case op of IOCTL_INSNTRACE_ALLOC_TRACE cmd \<Rightarrow> False | _ \<Rightarrow> True)"

text \<open>Lifts a handler that leaves the device alone, or writes no reply.\<close>

definition keep_device ::
  "insntrace_device \<Rightarrow> (zx_status \<times> ioctl_reply) option \<Rightarrow>
   (zx_status \<times> ioctl_reply \<times> insntrace_device) option" where
  "keep_device dev r = map_option (\<lambda>(st, reply). (st, reply, dev)) r"

definition without_reply ::
  "(zx_status \<times> insntrace_device) option \<Rightarrow>
   (zx_status \<times> ioctl_reply \<times> insntrace_device) option" where
  "without_reply r = map_option (\<lambda>(st, dev'). (st, No_reply, dev')) r"

text \<open>
  \<^verbatim>\<open>insntrace_ioctl_worker\<close> (lines 1010--1077): the status, the reply and the device
  after the call; \<open>None\<close> when a handler stops on an assertion or on undefined behaviour.
\<close>

definition insntrace_ioctl_worker ::
  "ipt_header \<Rightarrow> ipt_config \<Rightarrow> collaborators \<Rightarrow> insntrace_device \<Rightarrow> ioctl_request \<Rightarrow>
   nat \<Rightarrow> nat \<Rightarrow> (zx_status \<times> ioctl_reply \<times> insntrace_device) option" where
  "insntrace_ioctl_worker hw cfg env dev op cmdlen replymax =
     (if not_alloc_trace op \<and> per_trace_state dev = None
      then Some (ZX_ERR_BAD_STATE, No_reply, dev)
      else
        case op of
          IOCTL_INSNTRACE_ALLOC_TRACE cmd \<Rightarrow>
            if replymax \<noteq> 0 then Some (ZX_ERR_INVALID_ARGS, No_reply, dev)
            else without_reply (Some (ipt_alloc_trace hw cfg env dev cmd cmdlen))
        | IOCTL_INSNTRACE_FREE_TRACE \<Rightarrow>
            if cmdlen \<noteq> 0 \<or> replymax \<noteq> 0 then Some (ZX_ERR_INVALID_ARGS, No_reply, dev)
            else without_reply (ipt_free_trace env dev)
        | IOCTL_INSNTRACE_GET_TRACE_CONFIG \<Rightarrow>
            if cmdlen \<noteq> 0 then Some (ZX_ERR_INVALID_ARGS, No_reply, dev)
            else keep_device dev (Some (ipt_get_trace_config hw env dev replymax))
        | IOCTL_INSNTRACE_ALLOC_BUFFER cmd \<Rightarrow>
            ipt_alloc_buffer hw cfg env dev cmd cmdlen replymax
        | IOCTL_INSNTRACE_ASSIGN_THREAD_BUFFER cmd \<Rightarrow>
            if replymax \<noteq> 0 then Some (ZX_ERR_INVALID_ARGS, No_reply, dev)
            else Some (ipt_assign_thread_buffer hw dev cmd cmdlen, No_reply, dev)
        | IOCTL_INSNTRACE_RELEASE_THREAD_BUFFER cmd \<Rightarrow>
            if replymax \<noteq> 0 then Some (ZX_ERR_INVALID_ARGS, No_reply, dev)
            else Some (ipt_release_thread_buffer hw dev cmd cmdlen, No_reply, dev)
        | IOCTL_INSNTRACE_GET_BUFFER_CONFIG descriptor \<Rightarrow>
            keep_device dev (ipt_get_buffer_config hw dev descriptor cmdlen replymax)
        | IOCTL_INSNTRACE_GET_BUFFER_INFO descriptor \<Rightarrow>
            keep_device dev (ipt_get_buffer_info hw dev descriptor cmdlen replymax)
        | IOCTL_INSNTRACE_GET_CHUNK_HANDLE req \<Rightarrow>
            keep_device dev (ipt_get_chunk_handle hw env dev req cmdlen replymax)
        | IOCTL_INSNTRACE_FREE_BUFFER descriptor \<Rightarrow>
            if replymax \<noteq> 0 then Some (ZX_ERR_INVALID_ARGS, No_reply, dev)
            else without_reply (ipt_free_buffer hw dev descriptor cmdlen)
        | IOCTL_INSNTRACE_START \<Rightarrow>
            if cmdlen \<noteq> 0 \<or> replymax \<noteq> 0 then Some (ZX_ERR_INVALID_ARGS, No_reply, dev)
            else without_reply (ipt_start hw env dev)
        | IOCTL_INSNTRACE_STOP \<Rightarrow>
            if cmdlen \<noteq> 0 \<or> replymax \<noteq> 0 then Some (ZX_ERR_INVALID_ARGS, No_reply, dev)
            else without_reply (ipt_stop env dev)
        | IOCTL_INSNTRACE_OTHER \<Rightarrow> Some (ZX_ERR_INVALID_ARGS, No_reply, dev))"

section \<open>A sample device\<close>

text \<open>
  The device as \<^verbatim>\<open>ALLOC_TRACE\<close> leaves it on a machine with two cpus, and a request for a
  buffer of \<open>n\<close> chunks of one page each with the control bits \<^verbatim>\<open>TSC_EN | BRANCH_EN\<close>.
\<close>

definition sample_device :: insntrace_device where
  "sample_device =
     \<lparr>opened = True, mode = IPT_TRACE_CPUS, num_traces = 2,
      per_trace_state = Some (replicate 2 (zero_per_trace sample_header)),
      active = False, bti = 7\<rparr>"

definition sample_buffer_config :: "u32 \<Rightarrow> bool \<Rightarrow> ioctl_insntrace_buffer_config" where
  "sample_buffer_config n circular =
     \<lparr>cfg_num_chunks = n, cfg_chunk_order = 0, cfg_is_circular = circular,
      cfg_ctl = 9216, cfg_cr3_match = 0, cfg_addr_ranges = replicate 4 (0, 0)\<rparr>"

text \<open>
  The device before \<^verbatim>\<open>ALLOC_TRACE\<close>, and the registers of a trace that stopped in the
  second table of a five-chunk buffer of the sample platform (whose allocator places the
  tables at \<open>4096\<close>, \<open>8192\<close>, ...): entry 1 of that table, 100 bytes into its chunk.
\<close>

definition fresh_device :: insntrace_device where
  "fresh_device =
     \<lparr>opened = True, mode = IPT_TRACE_CPUS, num_traces = 0,
      per_trace_state = None, active = False, bti = 7\<rparr>"

definition sample_stopped_regs :: zx_x86_pt_regs where
  "sample_stopped_regs =
     \<lparr>regs_ctl = 9216, regs_status = 0, regs_output_base = 8192,
      regs_output_mask_ptrs = 429496729728, regs_cr3_match = 0,
      regs_addr_ranges = replicate 4 (0, 0)\<rparr>"

section \<open>Notions used in the statements\<close>

text \<open>Word \<open>k\<close> of table \<open>t\<close>, and tables that all have \<open>T\<close> words.\<close>

definition word_at :: "io_buffer list \<Rightarrow> nat \<Rightarrow> nat \<Rightarrow> u64" where
  "word_at ts t k = virt (ts ! t) ! k"

definition tables_wf :: "nat \<Rightarrow> io_buffer list \<Rightarrow> bool" where
  "tables_wf T ts = list_all (\<lambda>b. length (virt b) = T) ts"

text \<open>
  Where the END entry of table \<open>t\<close> stands when \<open>n\<close> chunks are laid out in tables of \<open>T\<close>
  words: in the last word of a table that holds \<open>T - 1\<close> data entries, and right after the
  data entries of a last table that holds fewer.
\<close>

definition end_slot :: "nat \<Rightarrow> nat \<Rightarrow> nat \<Rightarrow> nat" where
  "end_slot T n t = (if (t + 1) * (T - 1) \<le> n then T - 1 else n mod (T - 1))"

text \<open>Rounded-up division, and the two counts of invariant I6 as the spec words them.\<close>

definition ceil_div :: "nat \<Rightarrow> nat \<Rightarrow> nat" where
  "ceil_div a b = (a + b - 1) div b"

definition spec_num_end_entries :: "nat \<Rightarrow> nat \<Rightarrow> nat" where
  "spec_num_end_entries T n = ceil_div (n - 1) (T - 1)"

definition spec_num_tables :: "nat \<Rightarrow> nat \<Rightarrow> nat" where
  "spec_num_tables T n = ceil_div (n + spec_num_end_entries T n) T"

text \<open>The number of END entries the code counts: one for each table.\<close>

definition code_num_end_entries :: "nat \<Rightarrow> nat \<Rightarrow> nat" where
  "code_num_end_entries T n = ceil_div n (T - 1)"

text \<open>The size in bytes of a slot's trace buffer: \<open>num_chunks * 2^chunk_order * PAGE_SIZE\<close>.\<close>

definition buffer_bytes :: "ipt_per_trace_state \<Rightarrow> nat" where
  "buffer_bytes per_trace = unat (num_chunks per_trace) * 2 ^ unat (chunk_order per_trace) * 4096"





text \<open>A trace array, when present, has \<^verbatim>\<open>num_traces\<close> slots.\<close>

definition device_wf :: "insntrace_device \<Rightarrow> bool" where
  "device_wf dev =
     (case per_trace_state dev of
        None \<Rightarrow> True
      | Some slots \<Rightarrow> length slots = unat (num_traces dev))"


text \<open>
  The preconditions of the lifecycle table of the spec (section 4.6), one line for
  each operation, each with the requirement that the trace array is present for an
  operation other than \<open>alloc_trace\<close>.  A descriptor names a slot when it is below
  \<^verbatim>\<open>num_traces\<close>.
\<close>

definition slot_is :: "insntrace_device \<Rightarrow> u32 \<Rightarrow> (ipt_per_trace_state \<Rightarrow> bool) \<Rightarrow> bool" where
  "slot_is dev d P =
     (d < num_traces dev \<and> unat d < length (array_of (per_trace_state dev)) \<and>
      P (array_of (per_trace_state dev) ! unat d))"

definition spec_precondition :: "ipt_config \<Rightarrow> insntrace_device \<Rightarrow> ioctl_request \<Rightarrow> bool" where
  "spec_precondition cfg dev op =
     (case op of
        IOCTL_INSNTRACE_ALLOC_TRACE c \<Rightarrow>
          ipt_config_supported cfg \<and> ipt_config_output_topa cfg \<and> per_trace_state dev = None
      | IOCTL_INSNTRACE_FREE_TRACE \<Rightarrow>
          per_trace_state dev \<noteq> None \<and> \<not> active dev \<and>
          list_all (\<lambda>s. \<not> assigned s) (array_of (per_trace_state dev))
      | IOCTL_INSNTRACE_GET_TRACE_CONFIG \<Rightarrow> per_trace_state dev \<noteq> None
      | IOCTL_INSNTRACE_ALLOC_BUFFER c \<Rightarrow> per_trace_state dev \<noteq> None
      | IOCTL_INSNTRACE_ASSIGN_THREAD_BUFFER c \<Rightarrow>
          per_trace_state dev \<noteq> None \<and> mode dev = IPT_TRACE_THREADS
      | IOCTL_INSNTRACE_RELEASE_THREAD_BUFFER c \<Rightarrow>
          per_trace_state dev \<noteq> None \<and> mode dev = IPT_TRACE_THREADS
      | IOCTL_INSNTRACE_GET_BUFFER_CONFIG d \<Rightarrow>
          per_trace_state dev \<noteq> None \<and> slot_is dev d allocated
      | IOCTL_INSNTRACE_GET_BUFFER_INFO d \<Rightarrow>
          per_trace_state dev \<noteq> None \<and> slot_is dev d allocated \<and>
          (mode dev = IPT_TRACE_THREADS \<or> \<not> active dev)
      | IOCTL_INSNTRACE_GET_CHUNK_HANDLE r \<Rightarrow>
          per_trace_state dev \<noteq> None \<and>
          slot_is dev (req_descriptor r) (\<lambda>s. allocated s \<and> req_chunk_num r < num_chunks s)
      | IOCTL_INSNTRACE_FREE_BUFFER d \<Rightarrow>
          per_trace_state dev \<noteq> None \<and> \<not> active dev \<and>
          slot_is dev d (\<lambda>s. allocated s \<and> \<not> assigned s)
      | IOCTL_INSNTRACE_START \<Rightarrow>
          per_trace_state dev \<noteq> None \<and> \<not> active dev \<and> mode dev = IPT_TRACE_CPUS \<and>
          list_all (\<lambda>s. allocated s \<and> \<not> assigned s) (array_of (per_trace_state dev))
      | IOCTL_INSNTRACE_STOP \<Rightarrow> per_trace_state dev \<noteq> None \<and> active dev
      | IOCTL_INSNTRACE_OTHER \<Rightarrow> True)"

section \<open>Properties of the entry count\<close>

lemma topa_entry_count_unat:
  assumes n: "unat (num_chunks pt) \<le> 4096"
    and t2: "2 \<le> unat (IPT_TOPA_MAX_TABLE_ENTRIES hw)"
    and tb: "unat (IPT_TOPA_MAX_TABLE_ENTRIES hw) < 2 ^ 31"
  shows "unat (compute_topa_entry_count hw pt) =
         unat (num_chunks pt) +
         (unat (num_chunks pt) + unat (IPT_TOPA_MAX_TABLE_ENTRIES hw) - 2) div
         (unat (IPT_TOPA_MAX_TABLE_ENTRIES hw) - 1)"
proof -
  define n where "n = unat (num_chunks pt)"
  define T where "T = unat (IPT_TOPA_MAX_TABLE_ENTRIES hw)"
  have a: "unat (num_chunks pt + IPT_TOPA_MAX_TABLE_ENTRIES hw) = n + T"
    unfolding n_def T_def using n tb by (simp add: unat_add_lem [THEN iffD1])
  have le2: "(2::u32) \<le> num_chunks pt + IPT_TOPA_MAX_TABLE_ENTRIES hw"
    using a t2 by (simp add: word_le_nat_alt T_def)
  have b: "unat (num_chunks pt + IPT_TOPA_MAX_TABLE_ENTRIES hw - 2) = n + T - 2"
    using le2 a by (simp add: unat_sub)
  have le1: "(1::u32) \<le> IPT_TOPA_MAX_TABLE_ENTRIES hw"
    using t2 by (simp add: word_le_nat_alt)
  have c: "unat (IPT_TOPA_MAX_TABLE_ENTRIES hw - 1) = T - 1"
    using le1 by (simp add: unat_sub T_def)
  have d: "unat ((num_chunks pt + IPT_TOPA_MAX_TABLE_ENTRIES hw - 2) div
                 (IPT_TOPA_MAX_TABLE_ENTRIES hw - 1)) = (n + T - 2) div (T - 1)"
    by (simp add: unat_div b c)
  have "(n + T - 2) div (T - 1) \<le> n + T - 2"
    by (rule div_le_dividend)
  moreover have "n \<le> 4096" "T < 2147483648"
    using n tb by (simp_all add: n_def T_def)
  ultimately have "n + (n + T - 2) div (T - 1) < 4294967296"
    by linarith
  then have e: "n + (n + T - 2) div (T - 1) < 2 ^ 32"
    by simp
  show ?thesis
    unfolding compute_topa_entry_count_def Let_def
    using e d unfolding n_def [symmetric] T_def [symmetric]
    by (simp add: unat_add_lem [THEN iffD1] n_def)
qed

lemma ceil_div_ge_1:
  fixes n T :: nat
  assumes "1 \<le> n" "2 \<le> T"
  shows "1 \<le> (n + T - 2) div (T - 1)"
proof -
  have "T - 1 \<le> n + T - 2" using assms by simp
  moreover have "0 < T - 1" using assms by simp
  ultimately show ?thesis
    by (metis div_greater_zero_iff less_eq_Suc_le One_nat_def)
qed

text \<open>
  Claim C10.  For a chunk count that passes the range check of \<^verbatim>\<open>x86_pt_alloc_buffer\<close>
  (between 1 and \<^verbatim>\<open>MAX_NUM_CHUNKS\<close> = 4096), on a platform whose tables have at least two
  entries (and fewer than \<open>2^31\<close>), the entry count that \<^verbatim>\<open>compute_topa_entry_count\<close>
  returns is at least \<open>num_chunks + 1\<close>, hence the test \<^verbatim>\<open>entry_count < 2\<close> of
  \<^verbatim>\<open>x86_pt_alloc_buffer1\<close> is false and its \<^verbatim>\<open>ZX_ERR_INVALID_ARGS\<close> branch is not taken.
\<close>

theorem entry_count_at_least_two:
  assumes "1 \<le> unat (num_chunks pt)" and "unat (num_chunks pt) \<le> 4096"
    and "2 \<le> unat (IPT_TOPA_MAX_TABLE_ENTRIES hw)"
    and "unat (IPT_TOPA_MAX_TABLE_ENTRIES hw) < 2 ^ 31"
  shows "unat (num_chunks pt) + 1 \<le> unat (compute_topa_entry_count hw pt) \<and>
         \<not> compute_topa_entry_count hw pt < 2"
proof -
  have "unat (num_chunks pt) + 1 \<le> unat (compute_topa_entry_count hw pt)"
    using assms ceil_div_ge_1 [of "unat (num_chunks pt)" "unat (IPT_TOPA_MAX_TABLE_ENTRIES hw)"]
    by (simp add: topa_entry_count_unat)
  moreover from this assms(1) have "2 \<le> unat (compute_topa_entry_count hw pt)" by simp
  then have "\<not> compute_topa_entry_count hw pt < 2"
    by (simp add: word_less_nat_alt)
  ultimately show ?thesis by simp
qed

theorem entry_count_at_least_two_witness:
  "unat (5 :: u32) + 1 \<le>
     unat (compute_topa_entry_count sample_header ((zero_per_trace sample_header)\<lparr>num_chunks := 5\<rparr>)) \<and>
   \<not> compute_topa_entry_count sample_header ((zero_per_trace sample_header)\<lparr>num_chunks := 5\<rparr>) < 2"
  using entry_count_at_least_two
          [of "(zero_per_trace sample_header)\<lparr>num_chunks := 5\<rparr>" sample_header]
  by (simp add: zero_per_trace_def sample_header_def)

section \<open>Tables and stores\<close>

lemma tables_wf_nth: "tables_wf T ts \<Longrightarrow> t < length ts \<Longrightarrow> length (virt (ts ! t)) = T"
  by (simp add: tables_wf_def list_all_length)

lemma tables_wfI: "(\<And>t. t < length ts \<Longrightarrow> length (virt (ts ! t)) = T) \<Longrightarrow> tables_wf T ts"
  by (simp add: tables_wf_def list_all_length)

lemma table_store_props:
  assumes wf: "tables_wf T ts" and t: "t < length ts" and k: "k < T"
  shows "\<exists>ts'. table_store ts t k v = Some ts' \<and> length ts' = length ts \<and>
           map phys ts' = map phys ts \<and> tables_wf T ts' \<and>
           word_at ts' t k = v \<and>
           (\<forall>t' k'. (t', k') \<noteq> (t, k) \<longrightarrow> word_at ts' t' k' = word_at ts t' k')"
proof -
  let ?ts' = "ts[t := (ts ! t)\<lparr>virt := (virt (ts ! t))[k := v]\<rparr>]"
  have len: "length (virt (ts ! t)) = T" using wf t by (rule tables_wf_nth)
  have 1: "table_store ts t k v = Some ?ts'"
    using t k len by (simp add: table_store_def)
  have 2: "map phys ?ts' = map phys ts"
    using t by (simp add: list_eq_iff_nth_eq nth_list_update)
  have 3: "tables_wf T ?ts'"
    using wf t by (auto intro!: tables_wfI simp: nth_list_update tables_wf_nth)
  have 4: "word_at ?ts' t k = v"
    using t k len by (simp add: word_at_def)
  have 5: "\<forall>t' k'. (t', k') \<noteq> (t, k) \<longrightarrow> word_at ?ts' t' k' = word_at ts t' k'"
    using t by (auto simp: word_at_def nth_list_update)
  show ?thesis using 1 2 3 4 5 by auto
qed

lemma make_topa_fill_append:
  "make_topa_fill hw r cs (xs @ ys) s =
     (case make_topa_fill hw r cs xs s of None \<Rightarrow> None
      | Some s' \<Rightarrow> make_topa_fill hw r cs ys s')"
  by (induction xs arbitrary: s) (auto simp: Let_def split: option.splits)

section \<open>The loops of \<^verbatim>\<open>make_topa\<close>\<close>

lemma pos_inj:
  fixes D :: nat
  assumes "0 < D" "(j div D, j mod D) = (n div D, n mod D)"
  shows "j = n"
proof -
  have "j = j div D * D + j mod D" by simp
  also have "\<dots> = n div D * D + n mod D" using assms(2) by simp
  also have "\<dots> = n" by simp
  finally show ?thesis .
qed

lemma make_topa_fill_inv:
  fixes hw r cs ts
  defines "T \<equiv> unat (IPT_TOPA_MAX_TABLE_ENTRIES hw)"
  assumes T2: "2 \<le> T" and wf: "tables_wf T ts"
  shows "n \<le> length cs \<Longrightarrow> n \<le> length ts * (T - 1) \<Longrightarrow> n < 2 ^ 32 \<Longrightarrow>
     \<exists>s. make_topa_fill hw r cs [0 ..< n]
            \<lparr>fill_topas = ts, curr_table = 0, curr_idx = 0, last_entry = None\<rparr> = Some s \<and>
       unat (curr_table s) = n div (T - 1) \<and> unat (curr_idx s) = n mod (T - 1) \<and>
       last_entry s = (if n = 0 then None else Some ((n - 1) div (T - 1), (n - 1) mod (T - 1))) \<and>
       length (fill_topas s) = length ts \<and> map phys (fill_topas s) = map phys ts \<and>
       tables_wf T (fill_topas s) \<and>
       (\<forall>j<n. word_at (fill_topas s) (j div (T - 1)) (j mod (T - 1)) =
                topa_data_entry hw r (phys (cs ! j))) \<and>
       (\<forall>t k. (\<forall>j<n. (t, k) \<noteq> (j div (T - 1), j mod (T - 1))) \<longrightarrow>
                word_at (fill_topas s) t k = word_at ts t k)"
proof (induction n)
  case 0
  then show ?case using wf by simp
next
  case (Suc n)
  define D where "D = T - 1"
  have D0: "0 < D" using T2 by (simp add: D_def)
  have Tlt: "T < 2 ^ 32" unfolding T_def using unsigned_less [of "IPT_TOPA_MAX_TABLE_ENTRIES hw"] by simp
  from Suc.prems have pre: "n \<le> length cs" "n \<le> length ts * (T - 1)" "n < 2 ^ 32" by simp_all
  from Suc.IH [OF pre] obtain s where
    run: "make_topa_fill hw r cs [0 ..< n]
            \<lparr>fill_topas = ts, curr_table = 0, curr_idx = 0, last_entry = None\<rparr> = Some s"
    and ct: "unat (curr_table s) = n div D" and ci: "unat (curr_idx s) = n mod D"
    and len: "length (fill_topas s) = length ts"
    and ph: "map phys (fill_topas s) = map phys ts"
    and wfs: "tables_wf T (fill_topas s)"
    and dat: "\<forall>j<n. word_at (fill_topas s) (j div D) (j mod D) = topa_data_entry hw r (phys (cs ! j))"
    and oth: "\<forall>t k. (\<forall>j<n. (t, k) \<noteq> (j div D, j mod D)) \<longrightarrow>
                word_at (fill_topas s) t k = word_at ts t k"
    unfolding D_def by blast
  have ncs: "n < length cs" using Suc.prems by simp
  have "n < length ts * D" using Suc.prems by (simp add: D_def)
  then have tlt: "n div D < length (fill_topas s)"
    using len by (simp add: less_mult_imp_div_less)
  have kltD: "n mod D < D" using D0 by simp
  have klt: "n mod D < T" using kltD by (simp add: D_def)
  let ?v = "topa_data_entry hw r (phys (cs ! n))"
  from table_store_props [OF wfs tlt klt, of ?v] obtain ts' where
    st: "table_store (fill_topas s) (n div D) (n mod D) ?v = Some ts'"
    and len': "length ts' = length (fill_topas s)"
    and ph': "map phys ts' = map phys (fill_topas s)"
    and wf': "tables_wf T ts'"
    and new: "word_at ts' (n div D) (n mod D) = ?v"
    and old: "\<forall>t' k'. (t', k') \<noteq> (n div D, n mod D) \<longrightarrow> word_at ts' t' k' = word_at (fill_topas s) t' k'"
    by blast
  have two: "(2::u32) \<le> IPT_TOPA_MAX_TABLE_ENTRIES hw"
    using T2 by (simp add: word_le_nat_alt T_def)
  have usub: "unat (IPT_TOPA_MAX_TABLE_ENTRIES hw - 2) = T - 2"
    using two by (simp add: unat_sub T_def)
  have ar: "\<And>m. m < D \<Longrightarrow> (T - 2 \<le> m) = (Suc m = D)"
    using T2 by (auto simp: D_def)
  have "(IPT_TOPA_MAX_TABLE_ENTRIES hw - 2 \<le> curr_idx s) \<longleftrightarrow> T - 2 \<le> n mod D"
    by (simp add: word_le_nat_alt usub ci)
  then have cond: "(IPT_TOPA_MAX_TABLE_ENTRIES hw - 2 \<le> curr_idx s) \<longleftrightarrow> Suc (n mod D) = D"
    using ar [OF kltD] by simp
  define s' where "s' =
     (if IPT_TOPA_MAX_TABLE_ENTRIES hw - 2 \<le> curr_idx s
      then s\<lparr>fill_topas := ts', last_entry := Some (unat (curr_table s), unat (curr_idx s)),
             curr_idx := 0, curr_table := curr_table s + 1\<rparr>
      else s\<lparr>fill_topas := ts', last_entry := Some (unat (curr_table s), unat (curr_idx s)),
             curr_idx := curr_idx s + 1\<rparr>)"
  have step: "make_topa_fill hw r cs [0 ..< Suc n]
            \<lparr>fill_topas = ts, curr_table = 0, curr_idx = 0, last_entry = None\<rparr> = Some s'"
    using run ncs st by (simp add: make_topa_fill_append ct ci Let_def s'_def)
  have ct1: "unat (curr_table s + 1) = Suc (n div D)"
  proof -
    have "n div D \<le> n" by (rule div_le_dividend)
    moreover have "n < 4294967295" using Suc.prems(3) by simp
    ultimately have "n div D < 4294967295" by linarith
    then have "unat (curr_table s) + unat (1::u32) < 2 ^ LENGTH(32)"
      using ct by simp
    then show ?thesis using ct by (simp add: unat_add_lem [THEN iffD1])
  qed
  have ci1: "unat (curr_idx s + 1) = Suc (n mod D)"
  proof -
    have "T < 4294967296" using Tlt by simp
    then have "n mod D < 4294967295" using klt by linarith
    then have "unat (curr_idx s) + unat (1::u32) < 2 ^ LENGTH(32)"
      using ci by simp
    then show ?thesis using ci by (simp add: unat_add_lem [THEN iffD1])
  qed
  have ct': "unat (curr_table s') = Suc n div D"
    using cond ct ct1 by (simp add: s'_def div_Suc mod_Suc)
  have ci': "unat (curr_idx s') = Suc n mod D"
    using cond ci ci1 by (simp add: s'_def mod_Suc)
  have le': "last_entry s' = Some (n div D, n mod D)"
    by (simp add: s'_def ct ci)
  have ft: "fill_topas s' = ts'" by (simp add: s'_def)
  have dat': "\<forall>j<Suc n. word_at ts' (j div D) (j mod D) = topa_data_entry hw r (phys (cs ! j))"
  proof (intro allI impI)
    fix j assume "j < Suc n"
    show "word_at ts' (j div D) (j mod D) = topa_data_entry hw r (phys (cs ! j))"
    proof (cases "j = n")
      case True
      then show ?thesis using new by simp
    next
      case False
      then have "(j div D, j mod D) \<noteq> (n div D, n mod D)"
        using pos_inj [OF D0] by blast
      moreover have "j < n" using False \<open>j < Suc n\<close> by simp
      ultimately show ?thesis using old dat by simp
    qed
  qed
  have oth': "\<forall>t k. (\<forall>j<Suc n. (t, k) \<noteq> (j div D, j mod D)) \<longrightarrow> word_at ts' t k = word_at ts t k"
  proof (intro allI impI)
    fix t k assume a: "\<forall>j<Suc n. (t, k) \<noteq> (j div D, j mod D)"
    then have "(t, k) \<noteq> (n div D, n mod D)" by blast
    then have "word_at ts' t k = word_at (fill_topas s) t k" using old by blast
    moreover have "\<forall>j<n. (t, k) \<noteq> (j div D, j mod D)" using a by simp
    ultimately show "word_at ts' t k = word_at ts t k" using oth by simp
  qed
  show ?case
    unfolding D_def [symmetric]
    using step ct' ci' le' ft len len' ph ph' wf' dat' oth' by simp
qed

lemma make_topa_ends_append:
  "make_topa_ends hw nt (xs @ ys) ts =
     (case make_topa_ends hw nt xs ts of None \<Rightarrow> None
      | Some ts' \<Rightarrow> make_topa_ends hw nt ys ts')"
  by (induction xs arbitrary: ts) (auto simp: Let_def split: option.splits)

lemma make_topa_ends_inv:
  fixes hw nt ts
  defines "T \<equiv> unat (IPT_TOPA_MAX_TABLE_ENTRIES hw)"
  assumes T1: "1 \<le> T" and wf: "tables_wf T ts" and nt: "unat nt = length ts"
  shows "m \<le> length ts \<Longrightarrow>
     \<exists>ts'. make_topa_ends hw nt [0 ..< m] ts = Some ts' \<and>
       length ts' = length ts \<and> map phys ts' = map phys ts \<and> tables_wf T ts' \<and>
       (\<forall>i<m. word_at ts' i (T - 1) = topa_end_entry hw (phys (ts ! (Suc i mod length ts)))) \<and>
       (\<forall>t k. \<not> (t < m \<and> k = T - 1) \<longrightarrow> word_at ts' t k = word_at ts t k)"
proof (induction m)
  case 0
  then show ?case using wf by simp
next
  case (Suc m)
  then have "m \<le> length ts" by simp
  from Suc.IH [OF this] obtain ts1 where
    run: "make_topa_ends hw nt [0 ..< m] ts = Some ts1"
    and len: "length ts1 = length ts" and ph: "map phys ts1 = map phys ts"
    and wf1: "tables_wf T ts1"
    and ends: "\<forall>i<m. word_at ts1 i (T - 1) = topa_end_entry hw (phys (ts ! (Suc i mod length ts)))"
    and oth: "\<forall>t k. \<not> (t < m \<and> k = T - 1) \<longrightarrow> word_at ts1 t k = word_at ts t k"
    by blast
  have mlt: "m < length ts" using Suc.prems by simp
  have nt1: "(1::u32) \<le> nt" using nt mlt by (simp add: word_le_nat_alt)
  have unt1: "unat (nt - 1) = length ts - 1" using nt1 nt by (simp add: unat_sub)
  have mlt32: "m < 2 ^ 32"
    using mlt nt unsigned_less [of nt, where 'a = nat] by simp
  have um: "unat (of_nat m :: u32) = m"
    using mlt32 by (simp add: unat_of_nat)
  have eqc: "((of_nat m :: u32) = nt - 1) \<longleftrightarrow> m = length ts - 1"
    using um unt1 by (metis word_unat_eq_iff)
  define nx where "nx = (if (of_nat m :: u32) = nt - 1 then 0 else m + 1)"
  have nxmod: "nx = Suc m mod length ts"
  proof (cases "m = length ts - 1")
    case True
    then have "Suc m = length ts" using mlt by simp
    then show ?thesis using True eqc by (simp add: nx_def)
  next
    case False
    then have "Suc m < length ts" using mlt by simp
    then show ?thesis using False eqc by (simp add: nx_def)
  qed
  have "0 < length ts" using mlt by (cases ts) simp_all
  then have "Suc m mod length ts < length ts" by (rule mod_less_divisor)
  then have nxlt: "nx < length ts1" using len by (simp add: nxmod)
  have pheq: "phys (ts1 ! nx) = phys (ts ! nx)"
    using ph nxlt len by (metis nth_map)
  have T1w: "(1::u32) \<le> IPT_TOPA_MAX_TABLE_ENTRIES hw"
    using T1 by (simp add: word_le_nat_alt T_def)
  have uT1: "unat (IPT_TOPA_MAX_TABLE_ENTRIES hw - 1) = T - 1"
    using T1w by (simp add: unat_sub T_def)
  have klt: "T - 1 < T" using T1 by simp
  have mlt1: "m < length ts1" using mlt len by simp
  let ?v = "topa_end_entry hw (phys (ts1 ! nx))"
  from table_store_props [OF wf1 mlt1 klt, of ?v] obtain ts2 where
    st: "table_store ts1 m (T - 1) ?v = Some ts2"
    and len2: "length ts2 = length ts1" and ph2: "map phys ts2 = map phys ts1"
    and wf2: "tables_wf T ts2"
    and new: "word_at ts2 m (T - 1) = ?v"
    and old: "\<forall>t' k'. (t', k') \<noteq> (m, T - 1) \<longrightarrow> word_at ts2 t' k' = word_at ts1 t' k'"
    by blast
  have step: "make_topa_ends hw nt [0 ..< Suc m] ts = Some ts2"
    using run st nxlt by (simp add: make_topa_ends_append Let_def nx_def [symmetric] uT1)
  have ends2: "\<forall>i<Suc m. word_at ts2 i (T - 1) = topa_end_entry hw (phys (ts ! (Suc i mod length ts)))"
  proof (intro allI impI)
    fix i assume "i < Suc m"
    show "word_at ts2 i (T - 1) = topa_end_entry hw (phys (ts ! (Suc i mod length ts)))"
    proof (cases "i = m")
      case True
      then show ?thesis using new pheq nxmod by simp
    next
      case False
      then have "i < m" using \<open>i < Suc m\<close> by simp
      then show ?thesis using old ends False by simp
    qed
  qed
  have oth2: "\<forall>t k. \<not> (t < Suc m \<and> k = T - 1) \<longrightarrow> word_at ts2 t k = word_at ts t k"
  proof (intro allI impI)
    fix t k assume a: "\<not> (t < Suc m \<and> k = T - 1)"
    then have "(t, k) \<noteq> (m, T - 1)" by auto
    then have "word_at ts2 t k = word_at ts1 t k" using old by blast
    moreover have "\<not> (t < m \<and> k = T - 1)" using a by auto
    ultimately show "word_at ts2 t k = word_at ts t k" using oth by simp
  qed
  show ?case using step len len2 ph ph2 wf2 ends2 oth2 by simp
qed

lemma ceil_div_cases:
  assumes "0 < D"
  shows "ceil_div n D = (if n mod D = 0 then n div D else Suc (n div D))"
proof -
  define q where "q = n div D"
  define r where "r = n mod D"
  have n: "n = D * q + r" by (simp add: q_def r_def)
  have r: "r < D" using assms by (simp add: r_def)
  show ?thesis
  proof (cases "r = 0")
    case True
    have "(n + D - 1) div D = q"
    proof (rule div_nat_eqI)
      show "D * q \<le> n + D - 1" using n True assms by simp
      show "n + D - 1 < D * Suc q" using n True assms by simp
    qed
    then show ?thesis using True by (simp add: ceil_div_def q_def r_def)
  next
    case False
    have "(n + D - 1) div D = Suc q"
    proof (rule div_nat_eqI)
      show "D * Suc q \<le> n + D - 1" using n False by simp
      show "n + D - 1 < D * Suc (Suc q)" using n r by simp
    qed
    then show ?thesis using False by (simp add: ceil_div_def q_def r_def)
  qed
qed

lemma table_load_eq:
  "tables_wf T ts \<Longrightarrow> t < length ts \<Longrightarrow> k < T \<Longrightarrow> table_load ts t k = Some (word_at ts t k)"
  by (simp add: table_load_def word_at_def tables_wf_nth)

lemma make_topa_result:
  fixes hw pt cs ts
  defines "T \<equiv> unat (IPT_TOPA_MAX_TABLE_ENTRIES hw)"
  defines "D \<equiv> unat (IPT_TOPA_MAX_TABLE_ENTRIES hw) - 1"
  defines "n \<equiv> unat (num_chunks pt)"
  defines "r \<equiv> (ucast (chunk_order pt) :: u64)"
  assumes T2: "2 \<le> T"
    and cs: "chunks pt = Some cs" and ts: "topas pt = Some ts"
    and wf: "tables_wf T ts"
    and n1: "1 \<le> n" and ncs: "n \<le> length cs"
    and nt: "unat (num_tables pt) = length ts"
    and lts: "length ts = ceil_div n D"
    and mx: "r + of_nat PAGE_SIZE_SHIFT \<le> IPT_TOPA_MAX_SHIFT hw"
    and mn: "IPT_TOPA_MIN_SHIFT hw \<le> r + of_nat PAGE_SIZE_SHIFT"
  shows "\<exists>ts'. make_topa hw pt = Some (pt\<lparr>topas := Some ts'\<rparr>) \<and>
           length ts' = length ts \<and> map phys ts' = map phys ts \<and> tables_wf T ts' \<and>
           (\<forall>j<n. word_at ts' (j div D) (j mod D) =
                    (if j = n - 1 \<and> \<not> is_circular pt
                     then topa_data_entry hw r (phys (cs ! j)) OR IPT_TOPA_ENTRY_STOP hw
                     else topa_data_entry hw r (phys (cs ! j)))) \<and>
           (\<forall>t<length ts. word_at ts' t (end_slot T n t) =
                    topa_end_entry hw (phys (ts ! (Suc t mod length ts))))"
proof -
  have D0: "0 < D" using T2 by (simp add: D_def T_def)
  have DT: "D = T - 1" by (simp add: D_def T_def)
  have cd: "length ts = (if n mod D = 0 then n div D else Suc (n div D))"
    using lts ceil_div_cases [OF D0] by simp
  have nle: "n \<le> length ts * D"
  proof (cases "n mod D = 0")
    case True
    then show ?thesis using cd div_mult_mod_eq [of n D] by simp
  next
    case False
    have "n div D * D + n mod D = n" by simp
    moreover have "n mod D < D" using D0 by simp
    ultimately have "n < n div D * D + D" by linarith
    then show ?thesis using cd False by simp
  qed
  have n32: "n < 2 ^ 32"
    unfolding n_def using unsigned_less [of "num_chunks pt", where 'a = nat] by simp
  from make_topa_fill_inv [of hw ts n cs r, folded T_def, OF T2 wf ncs] nle n32 n1
  obtain s where
    fill: "make_topa_fill hw r cs [0 ..< n]
            \<lparr>fill_topas = ts, curr_table = 0, curr_idx = 0, last_entry = None\<rparr> = Some s"
    and ct: "unat (curr_table s) = n div D" and ci: "unat (curr_idx s) = n mod D"
    and le: "last_entry s = Some ((n - 1) div D, (n - 1) mod D)"
    and len0: "length (fill_topas s) = length ts"
    and ph0: "map phys (fill_topas s) = map phys ts"
    and wf0: "tables_wf T (fill_topas s)"
    and dat0: "\<forall>j<n. word_at (fill_topas s) (j div D) (j mod D) = topa_data_entry hw r (phys (cs ! j))"
    unfolding DT by auto
  have asrt: "curr_table s + 1 = num_tables pt \<or> (curr_table s = num_tables pt \<and> curr_idx s = 0)"
  proof (cases "n mod D = 0")
    case True
    then have "unat (curr_table s) = unat (num_tables pt)" using ct nt cd by simp
    then have "curr_table s = num_tables pt" by (simp add: word_unat_eq_iff)
    moreover have "curr_idx s = 0" using ci True by (simp add: unat_eq_0)
    ultimately show ?thesis by simp
  next
    case False
    have "unat (num_tables pt) < 2 ^ 32"
      using unsigned_less [of "num_tables pt", where 'a = nat] by simp
    then have "unat (curr_table s) + unat (1::u32) < 2 ^ LENGTH(32)"
      using ct nt cd False by simp
    then have "unat (curr_table s + 1) = Suc (n div D)"
      using ct by (simp add: unat_add_lem [THEN iffD1])
    then have "unat (curr_table s + 1) = unat (num_tables pt)" using nt cd False by simp
    then show ?thesis by (simp add: word_unat_eq_iff)
  qed
  have T1: "1 \<le> T" using T2 by simp
  have nt0: "unat (num_tables pt) = length (fill_topas s)" using nt len0 by simp
  have mle: "n div D \<le> length (fill_topas s)" using cd len0 by (simp split: if_splits)
  from make_topa_ends_inv [of hw "fill_topas s" "num_tables pt" "n div D", folded T_def,
      OF T1 wf0 nt0 mle]
  obtain ts1 where
    ends: "make_topa_ends hw (num_tables pt) [0 ..< n div D] (fill_topas s) = Some ts1"
    and len1: "length ts1 = length ts" and ph1: "map phys ts1 = map phys ts"
    and wf1: "tables_wf T ts1"
    and end1: "\<forall>i<n div D. word_at ts1 i (T - 1) =
                 topa_end_entry hw (phys (fill_topas s ! (Suc i mod length ts)))"
    and oth1: "\<forall>t k. \<not> (t < n div D \<and> k = T - 1) \<longrightarrow> word_at ts1 t k = word_at (fill_topas s) t k"
    using len0 ph0 by auto
  have lt0: "0 < length ts" using cd n1 D0
    by (metis One_nat_def Suc_le_lessD div_greater_zero_iff gr0I mod_less_divisor
        mod_self not_less zero_less_Suc mod_less)
  have ph: "\<And>ta i. length ta = length ts \<Longrightarrow> map phys ta = map phys ts \<Longrightarrow> i < length ts \<Longrightarrow>
              phys (ta ! i) = phys (ts ! i)"
    by (metis nth_map)
  have kD: "n mod D < D" using D0 by simp
  have condp: "(curr_table s < num_tables pt) \<longleftrightarrow> n mod D \<noteq> 0"
    using ct nt cd by (auto simp: word_less_nat_alt)
  define ts2 where "ts2 =
     (if n mod D \<noteq> 0
      then ts1[n div D := (ts1 ! (n div D))\<lparr>virt := (virt (ts1 ! (n div D)))
                 [n mod D := topa_end_entry hw (phys (ts1 ! 0))]\<rparr>]
      else ts1)"
  have partT: "n mod D \<noteq> 0 \<Longrightarrow> ts1 \<noteq> [] \<and>
                table_store ts1 (n div D) (n mod D) (topa_end_entry hw (phys (ts1 ! 0))) = Some ts2"
  proof -
    assume nz: "n mod D \<noteq> 0"
    have tl: "n div D < length ts1" using cd nz len1 by simp
    have kl: "n mod D < T" using kD DT by simp
    have "ts1 \<noteq> []" using tl by auto
    then show ?thesis using tl kl wf1 nz by (simp add: table_store_def ts2_def tables_wf_nth)
  qed
  have part: "length ts2 = length ts \<and> map phys ts2 = map phys ts \<and> tables_wf T ts2 \<and>
            (n mod D \<noteq> 0 \<longrightarrow> word_at ts2 (n div D) (n mod D) = topa_end_entry hw (phys (ts ! 0))) \<and>
            (\<forall>t k. (t, k) \<noteq> (n div D, n mod D) \<longrightarrow> word_at ts2 t k = word_at ts1 t k)"
  proof (cases "n mod D = 0")
    case True
    then show ?thesis using len1 ph1 wf1 by (simp add: ts2_def)
  next
    case False
    have tl: "n div D < length ts1" using cd False len1 by simp
    have kl: "n mod D < T" using kD DT by simp
    from table_store_props [OF wf1 tl kl, of "topa_end_entry hw (phys (ts1 ! 0))"]
    obtain tsx where
      "table_store ts1 (n div D) (n mod D) (topa_end_entry hw (phys (ts1 ! 0))) = Some tsx"
      "length tsx = length ts1" "map phys tsx = map phys ts1" "tables_wf T tsx"
      "word_at tsx (n div D) (n mod D) = topa_end_entry hw (phys (ts1 ! 0))"
      "\<forall>t' k'. (t', k') \<noteq> (n div D, n mod D) \<longrightarrow> word_at tsx t' k' = word_at ts1 t' k'"
      by blast
    moreover have "tsx = ts2"
      using calculation(1) partT [OF False] by simp
    moreover have "phys (ts1 ! 0) = phys (ts ! 0)" using ph [OF len1 ph1 lt0] .
    ultimately show ?thesis using False len1 ph1 by simp
  qed
  define tl where "tl = (n - 1) div D"
  define kl where "kl = (n - 1) mod D"
  have tll: "tl < length ts"
  proof -
    have "n - 1 < length ts * D" using nle n1 by simp
    then show ?thesis by (simp add: tl_def less_mult_imp_div_less)
  qed
  have kll: "kl < D" using D0 by (simp add: kl_def)
  have kllT: "kl < T" using kll DT by simp
  have len2: "length ts2 = length ts" and ph2: "map phys ts2 = map phys ts"
    and wf2: "tables_wf T ts2" using part by simp_all
  have tll2: "tl < length ts2" using tll len2 by simp
  have ld: "table_load ts2 tl kl = Some (word_at ts2 tl kl)"
    using table_load_eq [OF wf2 tll2 kllT] .
  from table_store_props [OF wf2 tll2 kllT, of "word_at ts2 tl kl OR IPT_TOPA_ENTRY_STOP hw"]
  obtain ts3 where
    sto: "table_store ts2 tl kl (word_at ts2 tl kl OR IPT_TOPA_ENTRY_STOP hw) = Some ts3"
    and len3: "length ts3 = length ts" and ph3: "map phys ts3 = map phys ts"
    and wf3: "tables_wf T ts3"
    and new3: "word_at ts3 tl kl = word_at ts2 tl kl OR IPT_TOPA_ENTRY_STOP hw"
    and old3: "\<forall>t' k'. (t', k') \<noteq> (tl, kl) \<longrightarrow> word_at ts3 t' k' = word_at ts2 t' k'"
    using len2 ph2 by auto
  define tsF where "tsF = (if is_circular pt then ts2 else ts3)"
  have res: "make_topa hw pt = Some (pt\<lparr>topas := Some tsF\<rparr>)"
  proof (cases "n mod D = 0")
    case True
    then have "ts2 = ts1" by (simp add: ts2_def)
    then show ?thesis
      using mx mn cs ts fill asrt ends le ld sto condp True
      unfolding make_topa_def Let_def tsF_def r_def [symmetric] n_def [symmetric] tl_def kl_def
      by (simp add: ct)
  next
    case False
    then show ?thesis
      using mx mn cs ts fill asrt ends le ld sto condp partT [OF False]
      unfolding make_topa_def Let_def tsF_def r_def [symmetric] n_def [symmetric] tl_def kl_def
      by (simp add: ct ci)
  qed
  have lenF: "length tsF = length ts" and phF: "map phys tsF = map phys ts"
    and wfF: "tables_wf T tsF"
    using len2 len3 ph2 ph3 wf2 wf3 by (simp_all add: tsF_def)
  \<comment> \<open>the data entries\<close>
  have dat2: "\<forall>j<n. word_at ts2 (j div D) (j mod D) = topa_data_entry hw r (phys (cs ! j))"
  proof (intro allI impI)
    fix j assume j: "j < n"
    have "j mod D < D" using D0 by simp
    then have "j mod D \<noteq> T - 1" using DT by simp
    then have a: "word_at ts1 (j div D) (j mod D) = word_at (fill_topas s) (j div D) (j mod D)"
      using oth1 by simp
    have "(j div D, j mod D) \<noteq> (n div D, n mod D)"
      using pos_inj [OF D0, of j n] j by auto
    then have "word_at ts2 (j div D) (j mod D) = word_at ts1 (j div D) (j mod D)"
      using part by blast
    then show "word_at ts2 (j div D) (j mod D) = topa_data_entry hw r (phys (cs ! j))"
      using a dat0 j by simp
  qed
  have datF: "\<forall>j<n. word_at tsF (j div D) (j mod D) =
                    (if j = n - 1 \<and> \<not> is_circular pt
                     then topa_data_entry hw r (phys (cs ! j)) OR IPT_TOPA_ENTRY_STOP hw
                     else topa_data_entry hw r (phys (cs ! j)))"
  proof (intro allI impI)
    fix j assume j: "j < n"
    show "word_at tsF (j div D) (j mod D) =
                    (if j = n - 1 \<and> \<not> is_circular pt
                     then topa_data_entry hw r (phys (cs ! j)) OR IPT_TOPA_ENTRY_STOP hw
                     else topa_data_entry hw r (phys (cs ! j)))"
    proof (cases "is_circular pt")
      case True
      then show ?thesis using dat2 j by (simp add: tsF_def)
    next
      case False
      show ?thesis
      proof (cases "j = n - 1")
        case True
        then show ?thesis using new3 dat2 j False by (simp add: tsF_def tl_def kl_def)
      next
        case nj: False
        have "(j div D, j mod D) \<noteq> (tl, kl)"
          unfolding tl_def kl_def using pos_inj [OF D0, of j "n - 1"] nj by auto
        then show ?thesis using old3 dat2 j False nj by (simp add: tsF_def)
      qed
    qed
  qed
  \<comment> \<open>the END entries\<close>
  have endF: "\<forall>t<length ts. word_at tsF t (end_slot T n t) =
                    topa_end_entry hw (phys (ts ! (Suc t mod length ts)))"
  proof (intro allI impI)
    fix t assume t: "t < length ts"
    have nstop: "\<And>k. (t, k) \<noteq> (tl, kl) \<Longrightarrow> word_at tsF t k = word_at ts2 t k"
      using old3 by (simp add: tsF_def)
    have es_def: "end_slot T n t = (if Suc t * D \<le> n then T - 1 else n mod D)"
      unfolding end_slot_def DT by simp
    show "word_at tsF t (end_slot T n t) = topa_end_entry hw (phys (ts ! (Suc t mod length ts)))"
    proof (cases "Suc t * D \<le> n")
      case True
      then have tq: "t < n div D"
        using D0 by (simp add: less_eq_div_iff_mult_less_eq Suc_le_eq [symmetric])
      have es: "end_slot T n t = T - 1" using True es_def by simp
      have "(t, T - 1) \<noteq> (tl, kl)" using kll DT by auto
      then have "word_at tsF t (T - 1) = word_at ts2 t (T - 1)" using nstop by simp
      also have "(t, T - 1) \<noteq> (n div D, n mod D)" using kD DT by auto
      then have "word_at ts2 t (T - 1) = word_at ts1 t (T - 1)" using part by blast
      also have "\<dots> = topa_end_entry hw (phys (fill_topas s ! (Suc t mod length ts)))"
        using end1 tq by simp
      also have "Suc t mod length ts < length ts" using lt0 by simp
      then have "phys (fill_topas s ! (Suc t mod length ts)) = phys (ts ! (Suc t mod length ts))"
        using ph [OF len0 ph0] by simp
      finally show ?thesis using es by simp
    next
      case False
      then have ntq: "\<not> t < n div D"
        using D0 by (simp add: less_eq_div_iff_mult_less_eq Suc_le_eq [symmetric])
      then have nz: "n mod D \<noteq> 0" and teq: "t = n div D" and lS: "length ts = Suc t"
        using t cd by (auto split: if_splits)
      have es: "end_slot T n t = n mod D" using False es_def by simp
      have "n - 1 \<noteq> n" using n1 by simp
      then have "(t, n mod D) \<noteq> (tl, kl)"
        unfolding tl_def kl_def teq using pos_inj [OF D0, of "n - 1" n] by auto
      then have "word_at tsF t (n mod D) = word_at ts2 t (n mod D)" using nstop by simp
      also have "\<dots> = topa_end_entry hw (phys (ts ! 0))" using part nz teq by simp
      finally show ?thesis using es lS by simp
    qed
  qed
  show ?thesis using res lenF phF wfF datF endF by blast
qed

section \<open>Rounded-up division and the table count\<close>

lemma ceil_div_le_iff:
  assumes "0 < b"
  shows "(ceil_div a b \<le> c) = (a \<le> c * b)"
proof -
  have "(ceil_div a b \<le> c) = ((a + b - 1) div b < Suc c)"
    by (simp add: ceil_div_def less_Suc_eq_le)
  also have "\<dots> = (a + b - 1 < Suc c * b)"
    using assms by (simp only: div_less_iff_less_mult)
  also have "\<dots> = (a \<le> c * b)"
    using assms by auto
  finally show ?thesis .
qed

lemma ceil_div_eqI:
  assumes b: "0 < b" and up: "a \<le> c * b" and lo: "c = 0 \<or> (c - 1) * b < a"
  shows "ceil_div a b = c"
proof (rule antisym)
  show "ceil_div a b \<le> c" using up by (simp add: ceil_div_le_iff [OF b])
  show "c \<le> ceil_div a b"
  proof (rule ccontr)
    assume "\<not> c \<le> ceil_div a b"
    then have "ceil_div a b \<le> c - 1" and c0: "c \<noteq> 0" by simp_all
    then have "a \<le> (c - 1) * b" by (simp add: ceil_div_le_iff [OF b])
    then show False using lo c0 by simp
  qed
qed

lemma ceil_div_upper: "0 < b \<Longrightarrow> a \<le> ceil_div a b * b"
  using ceil_div_le_iff [of b a "ceil_div a b"] by simp

lemma ceil_div_lower: "0 < b \<Longrightarrow> 0 < a \<Longrightarrow> (ceil_div a b - 1) * b < a"
proof -
  assume b: "0 < b" and a: "0 < a"
  have "\<not> ceil_div a b \<le> ceil_div a b - 1 \<or> ceil_div a b = 0" by auto
  moreover have "ceil_div a b \<noteq> 0"
    using ceil_div_le_iff [OF b, of a 0] a by simp
  ultimately have "\<not> a \<le> (ceil_div a b - 1) * b"
    using ceil_div_le_iff [OF b, of a "ceil_div a b - 1"] by simp
  then show ?thesis by simp
qed

lemma ceil_div_pos: "0 < b \<Longrightarrow> 0 < a \<Longrightarrow> 0 < ceil_div a b"
  using ceil_div_le_iff [of b a 0] by (cases "ceil_div a b") simp_all

text \<open>One END entry for each table of \<open>T - 1\<close> data entries fills exactly the tables.\<close>

lemma tables_of_code_count:
  assumes T: "2 \<le> T" and n: "1 \<le> n"
  shows "ceil_div (n + ceil_div n (T - 1)) T = ceil_div n (T - 1)"
proof -
  define D where "D = T - 1"
  define c where "c = ceil_div n D"
  have D0: "0 < D" and TD: "T = Suc D" using T by (simp_all add: D_def)
  have c0: "0 < c" using ceil_div_pos [OF D0] n by (simp add: c_def)
  have up: "n \<le> c * D" using ceil_div_upper [OF D0] by (simp add: c_def)
  have lo: "(c - 1) * D < n" using ceil_div_lower [OF D0] n by (simp add: c_def)
  have "ceil_div (n + c) T = c"
  proof (rule ceil_div_eqI)
    show "0 < T" using T by simp
    show "n + c \<le> c * T" using up by (simp add: TD)
    have "(c - 1) * T = (c - 1) * D + (c - 1)" by (simp add: TD)
    then show "c = 0 \<or> (c - 1) * T < n + c" using lo c0 by simp
  qed
  then show ?thesis by (simp add: c_def D_def)
qed

text \<open>The spec's count of END entries gives the same number of tables.\<close>

lemma tables_of_spec_count:
  assumes T: "2 \<le> T" and n: "1 \<le> n"
  shows "spec_num_tables T n = ceil_div n (T - 1)"
proof -
  define D where "D = T - 1"
  define c where "c = ceil_div n D"
  define e where "e = ceil_div (n - 1) D"
  have D0: "0 < D" and TD: "T = Suc D" using T by (simp_all add: D_def)
  have c0: "0 < c" using ceil_div_pos [OF D0] n by (simp add: c_def)
  have up: "n \<le> c * D" using ceil_div_upper [OF D0] by (simp add: c_def)
  have lo: "(c - 1) * D < n" using ceil_div_lower [OF D0] n by (simp add: c_def)
  have ec: "e \<le> c"
    using up by (simp add: e_def ceil_div_le_iff [OF D0])
  have ce: "c - 1 \<le> e"
  proof (rule ccontr)
    assume "\<not> c - 1 \<le> e"
    then have "e \<le> c - 2" by simp
    then have "n - 1 \<le> (c - 2) * D" by (simp add: e_def ceil_div_le_iff [OF D0])
    moreover have "(c - 1) * D = (c - 2) * D + D \<or> c = 1"
      using c0 by (cases c) (auto simp: algebra_simps numeral_2_eq_2 split: nat.splits)
    ultimately show False using lo D0 \<open>\<not> c - 1 \<le> e\<close> by auto
  qed
  have "ceil_div (n + e) T = c"
  proof (rule ceil_div_eqI)
    show "0 < T" using T by simp
    have "n + e \<le> c * D + c" using up ec by simp
    then show "n + e \<le> c * T" by (simp add: TD)
    have "(c - 1) * T = (c - 1) * D + (c - 1)" by (simp add: TD)
    then show "c = 0 \<or> (c - 1) * T < n + e" using lo ce by simp
  qed
  then show ?thesis by (simp add: spec_num_tables_def spec_num_end_entries_def c_def e_def D_def)
qed

section \<open>A successful allocation\<close>

lemma alloc_chunks_append:
  "alloc_chunks env order (xs @ ys) pt =
     (let (st, pt1) = alloc_chunks env order xs pt
      in if st = ZX_OK then alloc_chunks env order ys pt1 else (st, pt1))"
  by (induction xs arbitrary: pt) (auto simp: Let_def split: prod.splits)

lemma alloc_chunks_ok:
  "chunks pt = Some cs0 \<Longrightarrow> n \<le> length cs0 \<Longrightarrow>
   alloc_chunks env order [0 ..< n] pt = (ZX_OK, pt') \<Longrightarrow>
   \<exists>cs'. pt' = pt\<lparr>chunks := Some cs', num_chunks := num_chunks pt + of_nat n\<rparr> \<and>
         length cs' = length cs0 \<and>
         (\<forall>i<n. phys (cs' ! i) = fst (snd (io_buffer_init_aligned env i)))"
proof (induction n arbitrary: pt')
  case 0
  then show ?case by (intro exI [of _ cs0]) simp
next
  case (Suc n)
  obtain st1 pt1 where r1: "alloc_chunks env order [0 ..< n] pt = (st1, pt1)"
    by (cases "alloc_chunks env order [0 ..< n] pt") 
  have st1: "st1 = ZX_OK" and r2: "alloc_chunks env order [n] pt1 = (ZX_OK, pt')"
    using Suc.prems(3) r1 by (auto simp: alloc_chunks_append split: if_splits)
  have "n \<le> length cs0" using Suc.prems(2) by simp
  from Suc.IH [OF Suc.prems(1) this r1 [unfolded st1]] obtain cs1 where
    pt1: "pt1 = pt\<lparr>chunks := Some cs1, num_chunks := num_chunks pt + of_nat n\<rparr>"
    and len1: "length cs1 = length cs0"
    and ph1: "\<forall>i<n. phys (cs1 ! i) = fst (snd (io_buffer_init_aligned env i))"
    by blast
  obtain st pa h where io: "io_buffer_init_aligned env n = (st, pa, h)"
    by (cases "io_buffer_init_aligned env n")
  let ?cs = "cs1[n := \<lparr>phys = pa, virt = [], vmo_handle = h\<rparr>]"
  have pt': "pt' = pt1\<lparr>chunks := Some ?cs, num_chunks := num_chunks pt1 + 1\<rparr>"
    using r2 io pt1 by (auto simp: Let_def split: if_splits)
  have nlt: "n < length cs1" using Suc.prems(2) len1 by simp
  have "\<forall>i<Suc n. phys (?cs ! i) = fst (snd (io_buffer_init_aligned env i))"
    using ph1 nlt io by (auto simp: nth_list_update less_Suc_eq)
  moreover have "pt' = pt\<lparr>chunks := Some ?cs, num_chunks := num_chunks pt + of_nat (Suc n)\<rparr>"
    using pt' pt1 by (simp add: add.assoc)
  ultimately show ?case using len1 by (intro exI [of _ ?cs]) simp
qed

lemma alloc_tables_append:
  "alloc_tables hw env (xs @ ys) pt =
     (let (st, pt1) = alloc_tables hw env xs pt
      in if st = ZX_OK then alloc_tables hw env ys pt1 else (st, pt1))"
  by (induction xs arbitrary: pt) (auto simp: Let_def split: prod.splits)

lemma alloc_tables_ok:
  "topas pt = Some ts0 \<Longrightarrow> m \<le> length ts0 \<Longrightarrow>
   alloc_tables hw env [0 ..< m] pt = (ZX_OK, pt') \<Longrightarrow>
   \<exists>ts'. pt' = pt\<lparr>topas := Some ts', num_tables := num_tables pt + of_nat m\<rparr> \<and>
         length ts' = length ts0 \<and>
         (\<forall>i<m. length (virt (ts' ! i)) = unat (IPT_TOPA_MAX_TABLE_ENTRIES hw) \<and>
                 phys (ts' ! i) = fst (snd (io_buffer_init env i)))"
proof (induction m arbitrary: pt')
  case 0
  then show ?case by (intro exI [of _ ts0]) simp
next
  case (Suc m)
  obtain st1 pt1 where r1: "alloc_tables hw env [0 ..< m] pt = (st1, pt1)"
    by (cases "alloc_tables hw env [0 ..< m] pt") 
  have st1: "st1 = ZX_OK" and r2: "alloc_tables hw env [m] pt1 = (ZX_OK, pt')"
    using Suc.prems(3) r1 by (auto simp: alloc_tables_append split: if_splits)
  have "m \<le> length ts0" using Suc.prems(2) by simp
  from Suc.IH [OF Suc.prems(1) this r1 [unfolded st1]] obtain ts1 where
    pt1: "pt1 = pt\<lparr>topas := Some ts1, num_tables := num_tables pt + of_nat m\<rparr>"
    and len1: "length ts1 = length ts0"
    and ph1: "\<forall>i<m. length (virt (ts1 ! i)) = unat (IPT_TOPA_MAX_TABLE_ENTRIES hw) \<and>
                 phys (ts1 ! i) = fst (snd (io_buffer_init env i))"
    by blast
  obtain st pa h contents where io: "io_buffer_init env m = (st, pa, h, contents)"
    by (cases "io_buffer_init env m")
  let ?ts = "ts1[m := \<lparr>phys = pa,
                        virt = map contents [0 ..< unat (IPT_TOPA_MAX_TABLE_ENTRIES hw)],
                        vmo_handle = h\<rparr>]"
  have pt': "pt' = pt1\<lparr>topas := Some ?ts, num_tables := num_tables pt1 + 1\<rparr>"
    using r2 io pt1 by (auto simp: Let_def split: if_splits)
  have mlt: "m < length ts1" using Suc.prems(2) len1 by simp
  have "\<forall>i<Suc m. length (virt (?ts ! i)) = unat (IPT_TOPA_MAX_TABLE_ENTRIES hw) \<and>
                 phys (?ts ! i) = fst (snd (io_buffer_init env i))"
    using ph1 mlt io by (auto simp: nth_list_update less_Suc_eq)
  moreover have "pt' = pt\<lparr>topas := Some ?ts, num_tables := num_tables pt + of_nat (Suc m)\<rparr>"
    using pt' pt1 by (simp add: add.assoc)
  ultimately show ?case using len1 by (intro exI [of _ ?ts]) simp
qed

lemma make_topa_shifts:
  assumes "make_topa hw pt = Some pt'"
  shows "(ucast (chunk_order pt) :: u64) + of_nat PAGE_SIZE_SHIFT \<le> IPT_TOPA_MAX_SHIFT hw \<and>
         IPT_TOPA_MIN_SHIFT hw \<le> (ucast (chunk_order pt) :: u64) + of_nat PAGE_SIZE_SHIFT"
  using assms unfolding make_topa_def Let_def by (simp split: if_splits)

lemma alloc_buffer1_success:
  fixes hw cfg env num order circ pt
  defines "T \<equiv> unat (IPT_TOPA_MAX_TABLE_ENTRIES hw)"
  defines "n \<equiv> unat num"
  assumes ok: "x86_pt_alloc_buffer1 hw cfg env num order circ = Some (ZX_OK, pt)"
    and T2: "2 \<le> T" and Tb: "T < 2 ^ 31" and n1: "1 \<le> n" and nb: "n \<le> 4096"
  shows "num_chunks pt = num \<and> chunk_order pt = order \<and> is_circular pt = circ \<and>
         \<not> allocated pt \<and> \<not> assigned pt \<and>
         unat (num_tables pt) = ceil_div n (T - 1) \<and>
         (\<exists>cs ts. chunks pt = Some cs \<and> length cs = n \<and>
            (\<forall>i<n. phys (cs ! i) = fst (snd (io_buffer_init_aligned env i))) \<and>
            topas pt = Some ts \<and> length ts = ceil_div n (T - 1) \<and> tables_wf T ts \<and>
            (\<forall>t<length ts. phys (ts ! t) = fst (snd (io_buffer_init env t))) \<and>
            (\<forall>j<n. word_at ts (j div (T - 1)) (j mod (T - 1)) =
                     (if j = n - 1 \<and> \<not> circ
                      then topa_data_entry hw (ucast order) (phys (cs ! j)) OR IPT_TOPA_ENTRY_STOP hw
                      else topa_data_entry hw (ucast order) (phys (cs ! j)))) \<and>
            (\<forall>t<length ts. word_at ts t (end_slot T n t) =
                     topa_end_entry hw (phys (ts ! (Suc t mod length ts)))))"
proof -
  define pt0 where "pt0 = (zero_per_trace hw)\<lparr>chunks := Some (replicate n zero_io_buffer)\<rparr>"
  obtain st1 pt1 where a1: "alloc_chunks env order [0 ..< n] pt0 = (st1, pt1)"
    by (cases "alloc_chunks env order [0 ..< n] pt0")
  define pt2 where "pt2 = pt1\<lparr>chunk_order := order, is_circular := circ\<rparr>"
  define ec where "ec = compute_topa_entry_count hw pt2"
  define tc where "tc = (ec + IPT_TOPA_MAX_TABLE_ENTRIES hw - 1) div IPT_TOPA_MAX_TABLE_ENTRIES hw"
  define pt3 where "pt3 = pt2\<lparr>topas := Some (replicate (unat tc) zero_io_buffer)\<rparr>"
  obtain st4 pt4 where a4: "alloc_tables hw env [0 ..< unat tc] pt3 = (st4, pt4)"
    by (cases "alloc_tables hw env [0 ..< unat tc] pt3")
  have unf: "st1 = ZX_OK \<and> num_chunks pt1 = num \<and> st4 = ZX_OK \<and> num_tables pt4 = tc \<and>
             make_topa hw pt4 = Some pt"
    using ok a1 a4
    unfolding x86_pt_alloc_buffer1_def Let_def pt0_def [symmetric] n_def [symmetric]
    by (simp add: pt2_def [symmetric] ec_def [symmetric] tc_def [symmetric] pt3_def [symmetric]
          split: if_splits option.splits)
  then have st1: "st1 = ZX_OK" and nc: "num_chunks pt1 = num" and st4: "st4 = ZX_OK"
    and ntc: "num_tables pt4 = tc" and mk: "make_topa hw pt4 = Some pt" by simp_all
  have c0: "chunks pt0 = Some (replicate n zero_io_buffer)" by (simp add: pt0_def)
  from alloc_chunks_ok [OF c0 _ a1 [unfolded st1]] obtain cs where
    pt1: "pt1 = pt0\<lparr>chunks := Some cs, num_chunks := num_chunks pt0 + of_nat n\<rparr>"
    and lcs: "length cs = n"
    and phcs: "\<forall>i<n. phys (cs ! i) = fst (snd (io_buffer_init_aligned env i))"
    by auto
  have nc2: "unat (num_chunks pt2) = n" using nc by (simp add: pt2_def n_def)
  have ecu: "unat ec = n + (n + T - 2) div (T - 1)"
    unfolding ec_def using topa_entry_count_unat [of pt2 hw] nc2 nb T2 Tb by (simp add: T_def)
  have "n + (T - 1) - 1 = n + T - 2" using T2 by simp
  then have cdn: "(n + T - 2) div (T - 1) = ceil_div n (T - 1)"
    unfolding ceil_div_def by simp
  have D0: "0 < T - 1" using T2 by linarith
  have "1 \<le> T - 1" using T2 by linarith
  then have "n * 1 \<le> n * (T - 1)" by (rule mult_le_mono2)
  then have "n \<le> n * (T - 1)" by (simp only: mult_1_right)
  then have cle: "ceil_div n (T - 1) \<le> n"
    using ceil_div_le_iff [OF D0, of n n] by simp
  have T1w: "(1::u32) \<le> IPT_TOPA_MAX_TABLE_ENTRIES hw"
    using T2 by (simp add: word_le_nat_alt T_def)
  have "unat ec \<le> 8192" using ecu cdn cle nb by linarith
  moreover have "T < 2147483648" using Tb by simp
  ultimately have "unat ec + T < 4294967296" by linarith
  then have "unat ec + unat (IPT_TOPA_MAX_TABLE_ENTRIES hw) < 2 ^ LENGTH(32)" by (simp add: T_def)
  then have u1: "unat (ec + IPT_TOPA_MAX_TABLE_ENTRIES hw) = unat ec + T"
    by (simp add: unat_add_lem [THEN iffD1] T_def)
  have "(1::u32) \<le> ec + IPT_TOPA_MAX_TABLE_ENTRIES hw"
    using u1 T2 by (simp add: word_le_nat_alt)
  then have u2: "unat (ec + IPT_TOPA_MAX_TABLE_ENTRIES hw - 1) = unat ec + T - 1"
    using u1 by (simp add: unat_sub)
  have ecu': "unat ec = n + ceil_div n (T - 1)" using ecu cdn by simp
  have "unat tc = (unat ec + T - 1) div T"
    unfolding tc_def by (simp add: unat_div u2 T_def)
  then have tcu: "unat tc = ceil_div (n + ceil_div n (T - 1)) T"
    unfolding ceil_div_def [of "n + ceil_div n (T - 1)" T] ecu' by simp
  have tcn: "unat tc = ceil_div n (T - 1)"
    using tcu tables_of_code_count [OF T2 n1] by simp
  have t3: "topas pt3 = Some (replicate (unat tc) zero_io_buffer)" by (simp add: pt3_def)
  from alloc_tables_ok [OF t3 _ a4 [unfolded st4]] obtain ts0 where
    pt4: "pt4 = pt3\<lparr>topas := Some ts0, num_tables := num_tables pt3 + of_nat (unat tc)\<rparr>"
    and lts0: "length ts0 = unat tc"
    and pts0: "\<forall>i<unat tc. length (virt (ts0 ! i)) = T \<and>
                 phys (ts0 ! i) = fst (snd (io_buffer_init env i))"
    by (auto simp: T_def)
  have wf0: "tables_wf T ts0" using pts0 lts0 by (auto intro: tables_wfI)
  have f4: "chunks pt4 = Some cs" "topas pt4 = Some ts0" "unat (num_chunks pt4) = n"
    "chunk_order pt4 = order" "is_circular pt4 = circ" "\<not> allocated pt4" "\<not> assigned pt4"
    "num_chunks pt4 = num"
    using nc by (simp_all add: pt4 pt3_def pt2_def pt1 pt0_def zero_per_trace_def n_def)
  have nt4: "unat (num_tables pt4) = length ts0" using ntc lts0 by simp
  have l0: "length ts0 = ceil_div (unat (num_chunks pt4)) (unat (IPT_TOPA_MAX_TABLE_ENTRIES hw) - 1)"
    using lts0 tcn f4(3) by (simp add: T_def)
  note sh = make_topa_shifts [OF mk]
  from make_topa_result [of hw pt4 cs ts0, folded T_def, OF T2 f4(1) f4(2) wf0]
       f4(3) n1 lcs nt4 l0 sh
  obtain ts' where
    res: "make_topa hw pt4 = Some (pt4\<lparr>topas := Some ts'\<rparr>)"
    and len': "length ts' = length ts0" and ph': "map phys ts' = map phys ts0"
    and wf': "tables_wf T ts'"
    and dat: "\<forall>j<n. word_at ts' (j div (T - 1)) (j mod (T - 1)) =
                    (if j = n - 1 \<and> \<not> is_circular pt4
                     then topa_data_entry hw (ucast (chunk_order pt4)) (phys (cs ! j)) OR
                          IPT_TOPA_ENTRY_STOP hw
                     else topa_data_entry hw (ucast (chunk_order pt4)) (phys (cs ! j)))"
    and en: "\<forall>t<length ts0. word_at ts' t (end_slot T n t) =
                    topa_end_entry hw (phys (ts0 ! (Suc t mod length ts0)))"
    by (auto simp: T_def)
  have pt: "pt = pt4\<lparr>topas := Some ts'\<rparr>" using res mk by simp
  have pheq: "\<And>i. i < length ts0 \<Longrightarrow> phys (ts' ! i) = phys (ts0 ! i)"
    using ph' len' by (metis nth_map)
  have lpos: "0 < length ts0" using lts0 tcn ceil_div_pos [of "T - 1" n] T2 n1 by simp
  have en': "\<forall>t<length ts'. word_at ts' t (end_slot T n t) =
                    topa_end_entry hw (phys (ts' ! (Suc t mod length ts')))"
  proof (intro allI impI)
    fix t assume "t < length ts'"
    then have t: "t < length ts0" using len' by simp
    have "Suc t mod length ts0 < length ts0" using lpos by simp
    then show "word_at ts' t (end_slot T n t) = topa_end_entry hw (phys (ts' ! (Suc t mod length ts')))"
      using en t pheq len' by simp
  qed
  have php: "\<forall>t<length ts'. phys (ts' ! t) = fst (snd (io_buffer_init env t))"
    using pheq pts0 lts0 len' by simp
  show ?thesis
    using f4 ntc tcn lcs phcs len' lts0 wf' php dat en' pt
    by (intro conjI exI [of _ cs] exI [of _ ts']) simp_all
qed

section \<open>Evaluation on the sample platform\<close>

lemmas sample_defs =
  sample_header_def sample_config_def sample_collaborators_def sample_regs_def
  sample_device_def sample_buffer_config_def

lemmas alloc_defs =
  x86_pt_alloc_buffer_def x86_pt_alloc_buffer1_def x86_pt_free_buffer1_def
  validate_ctl_def settable_ctl_mask_def ctl_subfield_def subfield_rejected_def
  compute_topa_entry_count_def make_topa_def table_store_def table_load_def
  topa_data_entry_def topa_end_entry_def zero_per_trace_def zero_io_buffer_def array_of_def
  MAX_NUM_CHUNKS_def MAX_CHUNK_ORDER_def MAX_PER_TRACE_SPACE_def PAGE_SIZE_def PAGE_SIZE_SHIFT_def

lemmas eval_defs = alloc_defs sample_defs Let_def upt_rec word_le_nat_alt word_less_nat_alt

lemma sample_T:
  "2 \<le> unat (IPT_TOPA_MAX_TABLE_ENTRIES sample_header)"
  "unat (IPT_TOPA_MAX_TABLE_ENTRIES sample_header) < 2 ^ 31"
  "unat (IPT_TOPA_MAX_TABLE_ENTRIES sample_header) = 4"
  by (simp_all add: sample_header_def)

text \<open>Five chunks on the sample platform: two tables, the second one partly filled.\<close>

lemma sample_alloc_5:
  "\<exists>dev'. x86_pt_alloc_buffer sample_header sample_config sample_collaborators sample_device
            (sample_buffer_config 5 False) = Some (ZX_OK, Some 0, dev') \<and>
          unat (num_chunks (array_of (per_trace_state dev') ! 0)) = 5 \<and>
          unat (num_tables (array_of (per_trace_state dev') ! 0)) = 2"
  by (simp add: eval_defs)

lemma and_16_iff: "(x AND 16 = 0) = (\<not> bit x 4)" for x :: u64
  using and_exp_eq_0_iff_not_bit [of x 4] by simp

lemma sample_data_entry_stop_clear: "((pa AND NOT 4095) OR push_bit 6 (s - 12)) AND 16 = (0::u64)"
proof -
  have m12: "(4095::u64) = mask 12" by (simp add: mask_eq_exp_minus_1)
  show ?thesis
    unfolding and_16_iff m12
    by (simp add: bit_or_iff bit_and_iff bit_not_iff bit_mask_iff bit_push_bit_iff)
qed

lemma sample_end_entry_stop_clear: "((pa AND NOT 4095) OR 1) AND 16 = (0::u64)"
proof -
  have m12: "(4095::u64) = mask 12" by (simp add: mask_eq_exp_minus_1)
  show ?thesis
    unfolding and_16_iff m12
    by (simp add: bit_or_iff bit_and_iff bit_not_iff bit_mask_iff bit_1_iff)
qed

lemma sample_stop_clear:
  "IPT_TOPA_ENTRY_STOP sample_header \<noteq> 0"
  "\<forall>pa s. (IPT_TOPA_ENTRY_PHYS_ADDR sample_header pa OR IPT_TOPA_ENTRY_SIZE sample_header s) AND
          IPT_TOPA_ENTRY_STOP sample_header = 0"
  "\<forall>pa. (IPT_TOPA_ENTRY_PHYS_ADDR sample_header pa OR IPT_TOPA_ENTRY_END sample_header) AND
        IPT_TOPA_ENTRY_STOP sample_header = 0"
  using sample_data_entry_stop_clear sample_end_entry_stop_clear
  by (simp_all add: sample_header_def)

section \<open>The slot that \<^verbatim>\<open>x86_pt_alloc_buffer\<close> fills\<close>

lemma find_unallocated_Some:
  "find_unallocated slots xs = Some (Some d) \<Longrightarrow>
   d \<in> set xs \<and> d < length slots \<and> \<not> allocated (slots ! d)"
  by (induction xs) (auto split: if_splits)

lemma alloc_buffer_success:
  assumes ok: "x86_pt_alloc_buffer hw cfg env dev config = Some (ZX_OK, dd, dev')"
  shows "\<exists>descriptor pt.
           descriptor < unat (num_traces dev) \<and>
           descriptor < length (array_of (per_trace_state dev)) \<and>
           \<not> allocated (array_of (per_trace_state dev) ! descriptor) \<and>
           x86_pt_alloc_buffer1 hw cfg env (cfg_num_chunks config) (cfg_chunk_order config)
              (cfg_is_circular config) = Some (ZX_OK, pt) \<and>
           1 \<le> unat (cfg_num_chunks config) \<and> unat (cfg_num_chunks config) \<le> 4096 \<and>
           unat (cfg_chunk_order config) \<le> 8 \<and>
           validate_ctl hw cfg (cfg_ctl config) = Some ZX_OK \<and>
           array_of (topas pt) \<noteq> [] \<and>
           dd = Some (of_nat descriptor) \<and>
           dev' = dev\<lparr>per_trace_state :=
                        Some ((array_of (per_trace_state dev))
                          [descriptor := pt
                             \<lparr>ctl := cfg_ctl config, status := 0,
                              output_base := phys (array_of (topas pt) ! 0),
                              output_mask_ptrs := 0,
                              cr3_match := cfg_cr3_match config,
                              addr_ranges := cfg_addr_ranges config,
                              allocated := True\<rparr>])\<rparr>"
proof -
  have n0: "cfg_num_chunks config \<noteq> 0" and n1: "\<not> MAX_NUM_CHUNKS < cfg_num_chunks config"
    and o1: "\<not> MAX_CHUNK_ORDER < cfg_chunk_order config"
    using ok unfolding x86_pt_alloc_buffer_def by (auto split: if_splits)
  have v: "validate_ctl hw cfg (cfg_ctl config) = Some ZX_OK"
    using ok n0 n1 o1 unfolding x86_pt_alloc_buffer_def Let_def
    by (auto split: if_splits option.splits)
  obtain descriptor where f: "find_unallocated (array_of (per_trace_state dev))
                           [0 ..< unat (num_traces dev)] = Some (Some descriptor)"
    using ok n0 n1 o1 v unfolding x86_pt_alloc_buffer_def Let_def
    by (auto split: if_splits option.splits)
  obtain pt where a: "x86_pt_alloc_buffer1 hw cfg env (cfg_num_chunks config)
          (cfg_chunk_order config) (cfg_is_circular config) = Some (ZX_OK, pt)"
    and rest: "array_of (topas pt) \<noteq> [] \<and> dd = Some (of_nat descriptor) \<and>
           dev' = dev\<lparr>per_trace_state :=
                        Some ((array_of (per_trace_state dev))
                          [descriptor := pt
                             \<lparr>ctl := cfg_ctl config, status := 0,
                              output_base := phys (array_of (topas pt) ! 0),
                              output_mask_ptrs := 0,
                              cr3_match := cfg_cr3_match config,
                              addr_ranges := cfg_addr_ranges config,
                              allocated := True\<rparr>])\<rparr>"
    using ok n0 n1 o1 v f unfolding x86_pt_alloc_buffer_def Let_def
    by (auto split: if_splits option.splits)
  have u1: "1 \<le> unat (cfg_num_chunks config)"
    using n0 by (simp add: unat_gt_0 Suc_le_eq)
  have u2: "unat (cfg_num_chunks config) \<le> 4096"
    using n1 by (simp add: MAX_NUM_CHUNKS_def word_less_nat_alt)
  have u3: "unat (cfg_chunk_order config) \<le> 8"
    using o1 by (simp add: MAX_CHUNK_ORDER_def word_less_nat_alt)
  from find_unallocated_Some [OF f] show ?thesis
    using a rest v u1 u2 u3 by auto
qed

lemma alloc_buffer_slot:
  fixes hw cfg env dev config d dev'
  defines "slot \<equiv> array_of (per_trace_state dev') ! unat d"
  defines "T \<equiv> unat (IPT_TOPA_MAX_TABLE_ENTRIES hw)"
  defines "n \<equiv> unat (cfg_num_chunks config)"
  assumes ok: "x86_pt_alloc_buffer hw cfg env dev config = Some (ZX_OK, Some d, dev')"
    and T2: "2 \<le> T" and Tb: "T < 2 ^ 31"
  shows "allocated slot \<and> num_chunks slot = cfg_num_chunks config \<and>
         chunk_order slot = cfg_chunk_order config \<and>
         is_circular slot = cfg_is_circular config \<and>
         1 \<le> n \<and> n \<le> 4096 \<and> unat (cfg_chunk_order config) \<le> 8 \<and>
         unat (num_tables slot) = ceil_div n (T - 1) \<and>
         chunks slot = Some (array_of (chunks slot)) \<and> length (array_of (chunks slot)) = n \<and>
         (\<forall>i<n. phys (array_of (chunks slot) ! i) = fst (snd (io_buffer_init_aligned env i))) \<and>
         topas slot = Some (array_of (topas slot)) \<and>
         length (array_of (topas slot)) = ceil_div n (T - 1) \<and>
         tables_wf T (array_of (topas slot)) \<and>
         output_base slot = phys (array_of (topas slot) ! 0) \<and> output_mask_ptrs slot = 0 \<and>
         (\<forall>t<length (array_of (topas slot)).
            phys (array_of (topas slot) ! t) = fst (snd (io_buffer_init env t))) \<and>
         (\<forall>j<n. word_at (array_of (topas slot)) (j div (T - 1)) (j mod (T - 1)) =
                  (if j = n - 1 \<and> \<not> cfg_is_circular config
                   then topa_data_entry hw (ucast (cfg_chunk_order config))
                          (phys (array_of (chunks slot) ! j)) OR IPT_TOPA_ENTRY_STOP hw
                   else topa_data_entry hw (ucast (cfg_chunk_order config))
                          (phys (array_of (chunks slot) ! j)))) \<and>
         (\<forall>t<length (array_of (topas slot)).
            word_at (array_of (topas slot)) t (end_slot T n t) =
            topa_end_entry hw (phys (array_of (topas slot) ! (Suc t mod length (array_of (topas slot))))))"
proof -
  from alloc_buffer_success [OF ok] obtain descriptor pt where
    dl: "descriptor < unat (num_traces dev)"
    and dlen: "descriptor < length (array_of (per_trace_state dev))"
    and a1: "x86_pt_alloc_buffer1 hw cfg env (cfg_num_chunks config) (cfg_chunk_order config)
              (cfg_is_circular config) = Some (ZX_OK, pt)"
    and n1: "1 \<le> n" and nb: "n \<le> 4096" and ob: "unat (cfg_chunk_order config) \<le> 8"
    and d: "d = of_nat descriptor"
    and dev': "dev' = dev\<lparr>per_trace_state :=
                        Some ((array_of (per_trace_state dev))
                          [descriptor := pt
                             \<lparr>ctl := cfg_ctl config, status := 0,
                              output_base := phys (array_of (topas pt) ! 0),
                              output_mask_ptrs := 0,
                              cr3_match := cfg_cr3_match config,
                              addr_ranges := cfg_addr_ranges config,
                              allocated := True\<rparr>])\<rparr>"
    unfolding n_def by auto
  have "unat (num_traces dev) < 2 ^ 32"
    using unsigned_less [of "num_traces dev", where 'a = nat] by simp
  then have "descriptor < 2 ^ 32" using dl by simp
  then have ud: "unat d = descriptor" by (simp add: d unat_of_nat)
  have slot: "slot = pt\<lparr>ctl := cfg_ctl config, status := 0,
                              output_base := phys (array_of (topas pt) ! 0),
                              output_mask_ptrs := 0,
                              cr3_match := cfg_cr3_match config,
                              addr_ranges := cfg_addr_ranges config,
                              allocated := True\<rparr>"
    using dlen by (simp add: slot_def dev' ud array_of_def)
  note s = alloc_buffer1_success [OF a1, folded T_def n_def, OF T2 Tb n1 nb]
  from s obtain cs ts where
    c: "chunks pt = Some cs" "length cs = n"
       "\<forall>i<n. phys (cs ! i) = fst (snd (io_buffer_init_aligned env i))"
       "topas pt = Some ts" "length ts = ceil_div n (T - 1)" "tables_wf T ts"
       "\<forall>t<length ts. phys (ts ! t) = fst (snd (io_buffer_init env t))"
       "\<forall>j<n. word_at ts (j div (T - 1)) (j mod (T - 1)) =
                     (if j = n - 1 \<and> \<not> cfg_is_circular config
                      then topa_data_entry hw (ucast (cfg_chunk_order config)) (phys (cs ! j)) OR
                           IPT_TOPA_ENTRY_STOP hw
                      else topa_data_entry hw (ucast (cfg_chunk_order config)) (phys (cs ! j)))"
       "\<forall>t<length ts. word_at ts t (end_slot T n t) =
                     topa_end_entry hw (phys (ts ! (Suc t mod length ts)))"
    by blast
  have cs': "array_of (chunks slot) = cs" and ts': "array_of (topas slot) = ts"
    using c by (simp_all add: slot array_of_def)
  show ?thesis
    unfolding cs' ts'
    using s c n1 nb ob
    by (intro conjI) (simp_all add: slot array_of_def)
qed

section \<open>The number of tables\<close>

text \<open>
  Claim C1, as the code has it.  On a platform whose tables have at least two entries
  (and fewer than \<open>2^31\<close>): after a successful \<^verbatim>\<open>x86_pt_alloc_buffer\<close> the request had
  between 1 and \<^verbatim>\<open>MAX_NUM_CHUNKS\<close> chunks and the slot's \<^verbatim>\<open>num_tables\<close> is
  \<open>ceil((num_chunks + num_end_entries) / TABLE_ENTRIES)\<close>, both for the spec's
  \<open>num_end_entries = ceil((num_chunks - 1) / (TABLE_ENTRIES - 1))\<close> and for the count the code
  uses, \<open>ceil(num_chunks / (TABLE_ENTRIES - 1))\<close>, one END entry for each table; the entry
  count that \<^verbatim>\<open>compute_topa_entry_count\<close> returns is the latter sum and is at least 2.  A
  request whose entry count, counted as the code does, is below 2 is rejected with
  \<^verbatim>\<open>ZX_ERR_INVALID_ARGS\<close>.
\<close>

theorem alloc_buffer_table_count:
  assumes T2: "2 \<le> unat (IPT_TOPA_MAX_TABLE_ENTRIES hw)"
    and Tb: "unat (IPT_TOPA_MAX_TABLE_ENTRIES hw) < 2 ^ 31"
  shows "(x86_pt_alloc_buffer hw cfg env dev config = Some (ZX_OK, Some d, dev') \<longrightarrow>
            (let slot = array_of (per_trace_state dev') ! unat d;
                 n = unat (cfg_num_chunks config);
                 T = unat (IPT_TOPA_MAX_TABLE_ENTRIES hw)
             in num_chunks slot = cfg_num_chunks config \<and> 1 \<le> n \<and> n \<le> 4096 \<and>
                unat (num_tables slot) = spec_num_tables T n \<and>
                unat (num_tables slot) = ceil_div (n + code_num_end_entries T n) T \<and>
                unat (compute_topa_entry_count hw slot) = n + code_num_end_entries T n \<and>
                2 \<le> n + code_num_end_entries T n)) \<and>
         (unat (cfg_num_chunks config) +
            code_num_end_entries (unat (IPT_TOPA_MAX_TABLE_ENTRIES hw))
              (unat (cfg_num_chunks config)) < 2 \<longrightarrow>
          x86_pt_alloc_buffer hw cfg env dev config = Some (ZX_ERR_INVALID_ARGS, None, dev))"
proof (intro conjI impI)
  define T where "T = unat (IPT_TOPA_MAX_TABLE_ENTRIES hw)"
  define n where "n = unat (cfg_num_chunks config)"
  have D0: "0 < T - 1" using T2 unfolding T_def by linarith
  {
    assume ok: "x86_pt_alloc_buffer hw cfg env dev config = Some (ZX_OK, Some d, dev')"
    define slot where "slot = array_of (per_trace_state dev') ! unat d"
    note s = alloc_buffer_slot [OF ok T2 Tb, folded slot_def T_def n_def]
    then have nc: "num_chunks slot = cfg_num_chunks config" and n1: "1 \<le> n" and nb: "n \<le> 4096"
      and nt: "unat (num_tables slot) = ceil_div n (T - 1)" by simp_all
    have ncu: "unat (num_chunks slot) = n" using nc by (simp add: n_def)
    have a: "unat (num_tables slot) = spec_num_tables T n"
      using nt tables_of_spec_count [of T n] T2 n1 by (simp add: T_def)
    have b: "unat (num_tables slot) = ceil_div (n + code_num_end_entries T n) T"
      using nt tables_of_code_count [of T n] T2 n1 by (simp add: T_def code_num_end_entries_def)
    have "n + (T - 1) - 1 = n + T - 2" using T2 unfolding T_def by linarith
    then have cdn: "(n + T - 2) div (T - 1) = ceil_div n (T - 1)"
      unfolding ceil_div_def by simp
    have c: "unat (compute_topa_entry_count hw slot) = n + code_num_end_entries T n"
      using topa_entry_count_unat [of slot hw] ncu nb T2 Tb cdn
      by (simp add: T_def code_num_end_entries_def)
    have e: "2 \<le> n + code_num_end_entries T n"
      using ceil_div_pos [OF D0, of n] n1 by (simp add: code_num_end_entries_def)
    show "let slot = array_of (per_trace_state dev') ! unat d;
                 n = unat (cfg_num_chunks config);
                 T = unat (IPT_TOPA_MAX_TABLE_ENTRIES hw)
             in num_chunks slot = cfg_num_chunks config \<and> 1 \<le> n \<and> n \<le> 4096 \<and>
                unat (num_tables slot) = spec_num_tables T n \<and>
                unat (num_tables slot) = ceil_div (n + code_num_end_entries T n) T \<and>
                unat (compute_topa_entry_count hw slot) = n + code_num_end_entries T n \<and>
                2 \<le> n + code_num_end_entries T n"
      unfolding Let_def slot_def [symmetric] T_def [symmetric] n_def [symmetric]
      using nc n1 nb a b c e by simp
  }
  {
    assume "unat (cfg_num_chunks config) +
            code_num_end_entries (unat (IPT_TOPA_MAX_TABLE_ENTRIES hw))
              (unat (cfg_num_chunks config)) < 2"
    then have lt: "n + ceil_div n (T - 1) < 2"
      by (simp add: n_def T_def code_num_end_entries_def)
    have "n = 0"
    proof (rule ccontr)
      assume "n \<noteq> 0"
      then have "0 < n" by simp
      then have "0 < ceil_div n (T - 1)" using ceil_div_pos [OF D0] by simp
      then show False using lt \<open>0 < n\<close> by simp
    qed
    then have "cfg_num_chunks config = 0" by (simp add: n_def unat_eq_0)
    then show "x86_pt_alloc_buffer hw cfg env dev config = Some (ZX_ERR_INVALID_ARGS, None, dev)"
      by (simp add: x86_pt_alloc_buffer_def)
  }
qed


theorem alloc_buffer_table_count_witness:
  "\<exists>dev'. x86_pt_alloc_buffer sample_header sample_config sample_collaborators sample_device
            (sample_buffer_config 5 False) = Some (ZX_OK, Some 0, dev') \<and>
          unat (num_tables (array_of (per_trace_state dev') ! unat (0 :: u32))) =
            spec_num_tables 4 5 \<and>
          unat (compute_topa_entry_count sample_header
                  (array_of (per_trace_state dev') ! unat (0 :: u32))) = 5 + code_num_end_entries 4 5"
proof -
  from sample_alloc_5 obtain dev' where
    ok: "x86_pt_alloc_buffer sample_header sample_config sample_collaborators sample_device
            (sample_buffer_config 5 False) = Some (ZX_OK, Some 0, dev')" by blast
  from alloc_buffer_table_count [OF sample_T(1) sample_T(2), of sample_config
      sample_collaborators sample_device "sample_buffer_config 5 False" 0 dev'] ok
  have "unat (num_tables (array_of (per_trace_state dev') ! unat (0 :: u32))) =
            spec_num_tables 4 5 \<and>
        unat (compute_topa_entry_count sample_header
                  (array_of (per_trace_state dev') ! unat (0 :: u32))) = 5 + code_num_end_entries 4 5"
    by (simp add: Let_def sample_T(3) sample_buffer_config_def)
  with ok show ?thesis by blast
qed

text \<open>
  The claim as the spec words it fails for a request of one chunk: the spec's entry
  count is \<open>1 + ceil(0 / (TABLE_ENTRIES - 1)) = 1\<close>, below 2, and the request is accepted.
\<close>

theorem one_chunk_request_is_accepted:
  "map_option fst (x86_pt_alloc_buffer sample_header sample_config sample_collaborators
                     sample_device (sample_buffer_config 1 False)) = Some ZX_OK \<and>
   unat (cfg_num_chunks (sample_buffer_config 1 False)) +
     spec_num_end_entries (unat (IPT_TOPA_MAX_TABLE_ENTRIES sample_header))
       (unat (cfg_num_chunks (sample_buffer_config 1 False))) < 2"
  by (simp add: eval_defs spec_num_end_entries_def ceil_div_def)


section \<open>The END entries\<close>






section \<open>The STOP bit\<close>

text \<open>
  Claim C6.  On a platform whose STOP bit is not zero and is set neither by the
  address and size macros of a data entry nor by an END entry: after a successful
  \<^verbatim>\<open>x86_pt_alloc_buffer\<close>, data entry \<open>j\<close> (word \<open>j mod (TABLE_ENTRIES - 1)\<close> of table
  \<open>j div (TABLE_ENTRIES - 1)\<close>) has the STOP bit set if and only if it is the last data
  entry and the request was not circular, and no END entry has the STOP bit set.
\<close>

theorem stop_bit_only_on_last_data_entry:
  assumes ok: "x86_pt_alloc_buffer hw cfg env dev config = Some (ZX_OK, Some d, dev')"
    and T2: "2 \<le> unat (IPT_TOPA_MAX_TABLE_ENTRIES hw)"
    and Tb: "unat (IPT_TOPA_MAX_TABLE_ENTRIES hw) < 2 ^ 31"
    and stop: "IPT_TOPA_ENTRY_STOP hw \<noteq> 0"
    and data_clear: "\<forall>pa s. (IPT_TOPA_ENTRY_PHYS_ADDR hw pa OR IPT_TOPA_ENTRY_SIZE hw s) AND
                            IPT_TOPA_ENTRY_STOP hw = 0"
    and end_clear: "\<forall>pa. (IPT_TOPA_ENTRY_PHYS_ADDR hw pa OR IPT_TOPA_ENTRY_END hw) AND
                          IPT_TOPA_ENTRY_STOP hw = 0"
  shows "let slot = array_of (per_trace_state dev') ! unat d;
             T = unat (IPT_TOPA_MAX_TABLE_ENTRIES hw);
             n = unat (num_chunks slot);
             ts = array_of (topas slot)
         in (\<forall>j<n. (word_at ts (j div (T - 1)) (j mod (T - 1)) AND IPT_TOPA_ENTRY_STOP hw \<noteq> 0) =
                     (j = n - 1 \<and> \<not> cfg_is_circular config)) \<and>
            (\<forall>i < unat (num_tables slot).
               word_at ts i (if (i + 1) * (T - 1) \<le> n then T - 1 else n mod (T - 1)) AND
               IPT_TOPA_ENTRY_STOP hw = 0)"
proof -
  define slot where "slot = array_of (per_trace_state dev') ! unat d"
  define T where "T = unat (IPT_TOPA_MAX_TABLE_ENTRIES hw)"
  define n where "n = unat (cfg_num_chunks config)"
  define ts where "ts = array_of (topas slot)"
  define cs where "cs = array_of (chunks slot)"
  note s = alloc_buffer_slot [OF ok T2 Tb, folded slot_def T_def n_def, folded ts_def cs_def]
  then have nc: "num_chunks slot = cfg_num_chunks config"
    and nt: "unat (num_tables slot) = ceil_div n (T - 1)"
    and lts: "length ts = ceil_div n (T - 1)"
    and dat: "\<forall>j<n. word_at ts (j div (T - 1)) (j mod (T - 1)) =
                     (if j = n - 1 \<and> \<not> cfg_is_circular config
                      then topa_data_entry hw (ucast (cfg_chunk_order config)) (phys (cs ! j)) OR
                           IPT_TOPA_ENTRY_STOP hw
                      else topa_data_entry hw (ucast (cfg_chunk_order config)) (phys (cs ! j)))"
    and en: "\<forall>t<length ts. word_at ts t (end_slot T n t) =
                     topa_end_entry hw (phys (ts ! (Suc t mod length ts)))"
    by simp_all
  have ncu: "unat (num_chunks slot) = n" using nc by (simp add: n_def)
  have dc: "\<And>r pa. topa_data_entry hw r pa AND IPT_TOPA_ENTRY_STOP hw = 0"
    using data_clear by (simp add: topa_data_entry_def)
  have ds: "\<And>r pa. (topa_data_entry hw r pa OR IPT_TOPA_ENTRY_STOP hw) AND IPT_TOPA_ENTRY_STOP hw \<noteq> 0"
    using dc stop by (simp add: bit.conj_disj_distrib2)
  have ecl: "\<And>pa. topa_end_entry hw pa AND IPT_TOPA_ENTRY_STOP hw = 0"
    using end_clear by (simp add: topa_end_entry_def)
  have A: "\<forall>j<n. (word_at ts (j div (T - 1)) (j mod (T - 1)) AND IPT_TOPA_ENTRY_STOP hw \<noteq> 0) =
                     (j = n - 1 \<and> \<not> cfg_is_circular config)"
    using dat dc ds by simp
  have B: "\<forall>i < length ts. word_at ts i (end_slot T n i) AND IPT_TOPA_ENTRY_STOP hw = 0"
    using en ecl by simp
  show ?thesis
    unfolding Let_def slot_def [symmetric] T_def [symmetric] ncu ts_def [symmetric]
    using nt lts A B by (simp add: end_slot_def)
qed


theorem stop_bit_only_on_last_data_entry_witness:
  "\<exists>dev'. x86_pt_alloc_buffer sample_header sample_config sample_collaborators sample_device
            (sample_buffer_config 5 False) = Some (ZX_OK, Some 0, dev') \<and>
     (let ts = array_of (topas (array_of (per_trace_state dev') ! unat (0 :: u32)))
      in word_at ts 1 1 AND IPT_TOPA_ENTRY_STOP sample_header \<noteq> 0 \<and>
         word_at ts 0 0 AND IPT_TOPA_ENTRY_STOP sample_header = 0 \<and>
         word_at ts 1 0 AND IPT_TOPA_ENTRY_STOP sample_header = 0 \<and>
         word_at ts 0 3 AND IPT_TOPA_ENTRY_STOP sample_header = 0 \<and>
         word_at ts 1 2 AND IPT_TOPA_ENTRY_STOP sample_header = 0)"
proof -
  from sample_alloc_5 obtain dev' where
    ok: "x86_pt_alloc_buffer sample_header sample_config sample_collaborators sample_device
            (sample_buffer_config 5 False) = Some (ZX_OK, Some 0, dev')"
    and nc: "unat (num_chunks (array_of (per_trace_state dev') ! 0)) = 5"
    and nt: "unat (num_tables (array_of (per_trace_state dev') ! 0)) = 2" by blast
  note th = stop_bit_only_on_last_data_entry [OF ok sample_T(1) sample_T(2) sample_stop_clear,
      unfolded Let_def]
  note th1 = th [THEN conjunct1, rule_format]
  note th2 = th [THEN conjunct2, rule_format]
  show ?thesis
    using ok th1 [of 4] th1 [of 0] th1 [of 3] th2 [of 0] th2 [of 1] nc nt
    by (intro exI [of _ dev']) (simp add: Let_def sample_T(3) sample_buffer_config_def)
qed

section \<open>Validation of the control bits\<close>

lemma subfield_rejected_eq:
  "unat v < 31 \<Longrightarrow>
   subfield_rejected v m = Some (v \<noteq> 0 \<and> push_bit (unat v) (1 :: u32) AND m = 0)"
  by (simp add: subfield_rejected_def)

lemma alloc_buffer_validation:
  "validate_ctl hw cfg (cfg_ctl config) = Some ZX_ERR_INVALID_ARGS \<Longrightarrow>
   x86_pt_alloc_buffer hw cfg env dev config = Some (ZX_ERR_INVALID_ARGS, None, dev)"
  by (simp add: x86_pt_alloc_buffer_def Let_def)

text \<open>
  Claim C8.  \<^verbatim>\<open>x86_pt_alloc_buffer\<close> returns \<^verbatim>\<open>ZX_ERR_INVALID_ARGS\<close>, leaving the device
  as it was, whenever the requested \<^verbatim>\<open>ctl\<close> has a bit outside the settable mask.  When the
  three sub-fields \<^verbatim>\<open>mtc_freq\<close>, \<^verbatim>\<open>cyc_thresh\<close> and \<^verbatim>\<open>psb_freq\<close> are below 31, so that
  \<^verbatim>\<open>1 << value\<close> is defined, it also does so whenever a nonzero sub-field's \<^verbatim>\<open>1 << value\<close>
  bit is absent from the corresponding hardware mask; a \<^verbatim>\<open>ctl\<close> with all bits inside the
  settable mask and all nonzero sub-fields present in their masks passes the validation;
  and the validation rejects for no other reason.
\<close>

theorem ctl_validation:
  fixes hw cfg env dev config
  defines "c \<equiv> cfg_ctl config"
  defines "mtc_freq \<equiv> ctl_subfield c (IPT_CTL_MTC_FREQ_MASK hw) (IPT_CTL_MTC_FREQ_SHIFT hw)"
  defines "cyc_thresh \<equiv> ctl_subfield c (IPT_CTL_CYC_THRESH_MASK hw) (IPT_CTL_CYC_THRESH_SHIFT hw)"
  defines "psb_freq \<equiv> ctl_subfield c (IPT_CTL_PSB_FREQ_MASK hw) (IPT_CTL_PSB_FREQ_SHIFT hw)"
  defines "outside \<equiv> c AND NOT (settable_ctl_mask hw cfg) \<noteq> 0"
  defines "absent \<equiv>
     (mtc_freq \<noteq> 0 \<and> push_bit (unat mtc_freq) (1 :: u32) AND ipt_config_mtc_freq_mask cfg = 0) \<or>
     (cyc_thresh \<noteq> 0 \<and> push_bit (unat cyc_thresh) (1 :: u32) AND ipt_config_cyc_thresh_mask cfg = 0) \<or>
     (psb_freq \<noteq> 0 \<and> push_bit (unat psb_freq) (1 :: u32) AND ipt_config_psb_freq_mask cfg = 0)"
  shows "(outside \<longrightarrow>
            x86_pt_alloc_buffer hw cfg env dev config = Some (ZX_ERR_INVALID_ARGS, None, dev)) \<and>
         (unat mtc_freq < 31 \<and> unat cyc_thresh < 31 \<and> unat psb_freq < 31 \<longrightarrow>
            (absent \<longrightarrow>
               x86_pt_alloc_buffer hw cfg env dev config = Some (ZX_ERR_INVALID_ARGS, None, dev)) \<and>
            (\<not> outside \<and> \<not> absent \<longrightarrow> validate_ctl hw cfg c = Some ZX_OK) \<and>
            (validate_ctl hw cfg c = Some ZX_ERR_INVALID_ARGS \<longleftrightarrow> outside \<or> absent))"
proof (intro conjI impI)
  assume outside
  then have "validate_ctl hw cfg (cfg_ctl config) = Some ZX_ERR_INVALID_ARGS"
    by (simp add: validate_ctl_def outside_def c_def)
  then show "x86_pt_alloc_buffer hw cfg env dev config = Some (ZX_ERR_INVALID_ARGS, None, dev)"
    by (rule alloc_buffer_validation)
next
  assume w: "unat mtc_freq < 31 \<and> unat cyc_thresh < 31 \<and> unat psb_freq < 31"
  define b1 where "b1 =
     (mtc_freq \<noteq> 0 \<and> push_bit (unat mtc_freq) (1 :: u32) AND ipt_config_mtc_freq_mask cfg = 0)"
  define b2 where "b2 =
     (cyc_thresh \<noteq> 0 \<and> push_bit (unat cyc_thresh) (1 :: u32) AND ipt_config_cyc_thresh_mask cfg = 0)"
  define b3 where "b3 =
     (psb_freq \<noteq> 0 \<and> push_bit (unat psb_freq) (1 :: u32) AND ipt_config_psb_freq_mask cfg = 0)"
  have r1: "subfield_rejected mtc_freq (ipt_config_mtc_freq_mask cfg) = Some b1"
    unfolding b1_def using w by (intro subfield_rejected_eq) simp
  have r2: "subfield_rejected cyc_thresh (ipt_config_cyc_thresh_mask cfg) = Some b2"
    unfolding b2_def using w by (intro subfield_rejected_eq) simp
  have r3: "subfield_rejected psb_freq (ipt_config_psb_freq_mask cfg) = Some b3"
    unfolding b3_def using w by (intro subfield_rejected_eq) simp
  have ab: "absent = (b1 \<or> b2 \<or> b3)"
    unfolding absent_def b1_def b2_def b3_def ..
  have v: "validate_ctl hw cfg c =
             (if outside \<or> absent then Some ZX_ERR_INVALID_ARGS else Some ZX_OK)"
    unfolding validate_ctl_def mtc_freq_def [symmetric] cyc_thresh_def [symmetric]
      psb_freq_def [symmetric] outside_def [symmetric] ab r1 r2 r3
    by (cases b1; cases b2; cases b3) simp_all
  {
    assume absent
    then have "validate_ctl hw cfg (cfg_ctl config) = Some ZX_ERR_INVALID_ARGS"
      using v by (simp add: c_def)
    then show "x86_pt_alloc_buffer hw cfg env dev config = Some (ZX_ERR_INVALID_ARGS, None, dev)"
      by (rule alloc_buffer_validation)
  }
  {
    assume "\<not> outside \<and> \<not> absent"
    then show "validate_ctl hw cfg c = Some ZX_OK" using v by simp
  }
  show "validate_ctl hw cfg c = Some ZX_ERR_INVALID_ARGS \<longleftrightarrow> outside \<or> absent"
    using v by simp
qed

theorem ctl_validation_witness:
  "x86_pt_alloc_buffer sample_header sample_config sample_collaborators sample_device
     ((sample_buffer_config 1 False)\<lparr>cfg_ctl := 4096\<rparr>) =
     Some (ZX_ERR_INVALID_ARGS, None, sample_device) \<and>
   x86_pt_alloc_buffer sample_header sample_config sample_collaborators sample_device
     ((sample_buffer_config 1 False)\<lparr>cfg_ctl := 16896\<rparr>) =
     Some (ZX_ERR_INVALID_ARGS, None, sample_device) \<and>
   validate_ctl sample_header sample_config 49664 = Some ZX_OK"
proof -
  note th = ctl_validation [of _ sample_header sample_config sample_collaborators sample_device]
  have a: "x86_pt_alloc_buffer sample_header sample_config sample_collaborators sample_device
     ((sample_buffer_config 1 False)\<lparr>cfg_ctl := 4096\<rparr>) =
     Some (ZX_ERR_INVALID_ARGS, None, sample_device)"
    using th [of "(sample_buffer_config 1 False)\<lparr>cfg_ctl := 4096\<rparr>", THEN conjunct1]
    by (simp add: sample_defs settable_ctl_mask_def word_le_nat_alt)
  have b: "x86_pt_alloc_buffer sample_header sample_config sample_collaborators sample_device
     ((sample_buffer_config 1 False)\<lparr>cfg_ctl := 16896\<rparr>) =
     Some (ZX_ERR_INVALID_ARGS, None, sample_device)"
    using th [of "(sample_buffer_config 1 False)\<lparr>cfg_ctl := 16896\<rparr>", THEN conjunct2]
    by (simp add: sample_defs settable_ctl_mask_def ctl_subfield_def word_le_nat_alt)
  have c: "validate_ctl sample_header sample_config 49664 = Some ZX_OK"
    using th [of "(sample_buffer_config 1 False)\<lparr>cfg_ctl := 49664\<rparr>", THEN conjunct2]
    by (simp add: sample_defs settable_ctl_mask_def ctl_subfield_def word_le_nat_alt)
  show ?thesis using a b c by simp
qed

section \<open>The capture size\<close>

lemma capture_entries_append:
  "capture_entries hw topa b i off (xs @ ys) tot =
     (case capture_entries hw topa b i off xs tot of
        None \<Rightarrow> None
      | Some (Returned r) \<Rightarrow> Some (Returned r)
      | Some (Continue t) \<Rightarrow> capture_entries hw topa b i off ys t)"
  by (induction xs arbitrary: tot) (auto simp: Let_def)

lemma idx_le_of_nat:
  fixes i :: u32
  assumes "e < 2 ^ 32"
  shows "(i \<le> of_nat e) = (unat i \<le> e)"
  using assms by (simp add: word_le_nat_alt unat_of_nat)

lemma capture_entries_continue:
  assumes nomatch: "phys topa \<noteq> b \<or> m \<le> unat i"
    and m32: "m < 2 ^ 32" and s64: "s < 64"
    and valid: "\<forall>e<m. e < length (virt topa) \<and>
                  unat (IPT_TOPA_ENTRY_EXTRACT_SIZE hw (virt topa ! e)) = s"
  shows "capture_entries hw topa b i off [0 ..< m] tot =
           Some (Continue (tot + of_nat m * 2 ^ s))"
  using nomatch m32 valid
proof (induction m)
  case 0
  then show ?case by simp
next
  case (Suc m)
  have nm: "phys topa \<noteq> b \<or> m \<le> unat i" using Suc.prems(1) by auto
  have m32: "m < 2 ^ 32" using Suc.prems(2) by simp
  have v: "\<forall>e<m. e < length (virt topa) \<and>
                  unat (IPT_TOPA_ENTRY_EXTRACT_SIZE hw (virt topa ! e)) = s"
    using Suc.prems(3) by simp
  have ih: "capture_entries hw topa b i off [0 ..< m] tot =
           Some (Continue (tot + of_nat m * 2 ^ s))"
    using Suc.IH [OF nm m32 v] .
  have nomatch_m: "\<not> (phys topa = b \<and> i \<le> (of_nat m :: u32))"
    using Suc.prems(1) idx_le_of_nat [OF m32, of i] by auto
  have vm: "m < length (virt topa)" "unat (IPT_TOPA_ENTRY_EXTRACT_SIZE hw (virt topa ! m)) = s"
    using Suc.prems(3) by simp_all
  show ?case
    using ih nomatch_m vm s64
    by (simp add: capture_entries_append Let_def push_bit_eq_mult algebra_simps)
qed

lemma capture_entries_return:
  assumes match: "phys topa = b" and k: "unat i < m"
    and m32: "m < 2 ^ 32" and s64: "s < 64"
    and valid: "\<forall>e<unat i. e < length (virt topa) \<and>
                  unat (IPT_TOPA_ENTRY_EXTRACT_SIZE hw (virt topa ! e)) = s"
  shows "capture_entries hw topa b i off [0 ..< m] tot =
           Some (Returned (tot + of_nat (unat i) * 2 ^ s + ucast off))"
proof -
  have k32: "unat i < 2 ^ 32" using k m32 by simp
  have split: "[0 ..< m] = [0 ..< unat i] @ unat i # [Suc (unat i) ..< m]"
    using k by (metis le0 less_imp_le_nat upt_add_eq_append upt_conv_Cons add_0 le_add_diff_inverse)
  have c: "capture_entries hw topa b i off [0 ..< unat i] tot =
           Some (Continue (tot + of_nat (unat i) * 2 ^ s))"
    by (rule capture_entries_continue [OF _ k32 s64 valid]) simp
  have "i \<le> (of_nat (unat i) :: u32)" by simp
  then show ?thesis
    using c match by (simp add: split capture_entries_append)
qed

lemma capture_tables_skip:
  assumes s64: "s < 64" and D: "D = unat (IPT_TOPA_MAX_TABLE_ENTRIES hw - 1)"
  shows "(\<forall>x\<in>set xs. x < length ts \<and> phys (ts ! x) \<noteq> b \<and>
            (\<forall>e<D. e < length (virt (ts ! x)) \<and>
                    unat (IPT_TOPA_ENTRY_EXTRACT_SIZE hw (virt (ts ! x) ! e)) = s)) \<Longrightarrow>
         capture_tables hw ts b i off (xs @ ys) tot =
         capture_tables hw ts b i off ys (tot + of_nat (length xs * D) * 2 ^ s)"
proof (induction xs arbitrary: tot)
  case Nil
  then show ?case by simp
next
  case (Cons x xs)
  have D32: "D < 2 ^ 32"
    unfolding D using unsigned_less [of "IPT_TOPA_MAX_TABLE_ENTRIES hw - 1", where 'a = nat] by simp
  have x: "x < length ts" "phys (ts ! x) \<noteq> b"
    and v: "\<forall>e<D. e < length (virt (ts ! x)) \<and>
                    unat (IPT_TOPA_ENTRY_EXTRACT_SIZE hw (virt (ts ! x) ! e)) = s"
    using Cons.prems by simp_all
  have ce: "capture_entries hw (ts ! x) b i off [0 ..< D] tot =
              Some (Continue (tot + of_nat D * 2 ^ s))"
    by (rule capture_entries_continue [OF _ D32 s64 v]) (simp add: x)
  have rest: "\<forall>x\<in>set xs. x < length ts \<and> phys (ts ! x) \<noteq> b \<and>
            (\<forall>e<D. e < length (virt (ts ! x)) \<and>
                    unat (IPT_TOPA_ENTRY_EXTRACT_SIZE hw (virt (ts ! x) ! e)) = s)"
    using Cons.prems by simp
  show ?case
    using x ce Cons.IH [OF rest, of "tot + of_nat D * 2 ^ s"]
    by (simp add: D [symmetric] algebra_simps)
qed

lemma capture_entries_total:
  assumes valid: "\<forall>e\<in>set xs. e < length (virt topa) \<and>
                     unat (IPT_TOPA_ENTRY_EXTRACT_SIZE hw (virt topa ! e)) < 64"
  shows "\<exists>r. capture_entries hw topa b i off xs tot = Some r"
  using valid
  by (induction xs arbitrary: tot) (auto simp: Let_def)

lemma capture_entries_pass:
  assumes nomatch: "phys topa \<noteq> b \<or> m \<le> unat i"
    and m32: "m < 2 ^ 32"
    and valid: "\<forall>e<m. e < length (virt topa) \<and>
                  unat (IPT_TOPA_ENTRY_EXTRACT_SIZE hw (virt topa ! e)) < 64"
  shows "\<exists>t. capture_entries hw topa b i off [0 ..< m] tot = Some (Continue t)"
  using nomatch m32 valid
proof (induction m)
  case 0
  then show ?case by simp
next
  case (Suc m)
  have nm: "phys topa \<noteq> b \<or> m \<le> unat i" using Suc.prems(1) by auto
  have m32: "m < 2 ^ 32" using Suc.prems(2) by simp
  have v: "\<forall>e<m. e < length (virt topa) \<and>
                  unat (IPT_TOPA_ENTRY_EXTRACT_SIZE hw (virt topa ! e)) < 64"
    using Suc.prems(3) by simp
  obtain t where ih: "capture_entries hw topa b i off [0 ..< m] tot = Some (Continue t)"
    using Suc.IH [OF nm m32 v] by blast
  have nomatch_m: "\<not> (phys topa = b \<and> i \<le> (of_nat m :: u32))"
    using Suc.prems(1) idx_le_of_nat [OF m32, of i] by auto
  have vm: "m < length (virt topa)"
    "unat (IPT_TOPA_ENTRY_EXTRACT_SIZE hw (virt topa ! m)) < 64"
    using Suc.prems(3) by simp_all
  show ?case
    using ih nomatch_m vm
    by (simp add: capture_entries_append Let_def)
qed

lemma capture_tables_zero:
  assumes D: "D = unat (IPT_TOPA_MAX_TABLE_ENTRIES hw - 1)"
    and nomatch: "(\<forall>x\<in>set xs. phys (ts ! x) \<noteq> b) \<or> D \<le> unat i"
    and valid: "\<forall>x\<in>set xs. x < length ts \<and>
            (\<forall>e<D. e < length (virt (ts ! x)) \<and>
                    unat (IPT_TOPA_ENTRY_EXTRACT_SIZE hw (virt (ts ! x) ! e)) < 64)"
  shows "capture_tables hw ts b i off xs tot = Some 0"
  using nomatch valid
proof (induction xs arbitrary: tot)
  case Nil
  then show ?case by simp
next
  case (Cons x xs)
  have D32: "D < 2 ^ 32"
    unfolding D using unsigned_less [of "IPT_TOPA_MAX_TABLE_ENTRIES hw - 1", where 'a = nat] by simp
  have x: "x < length ts"
    and v: "\<forall>e<D. e < length (virt (ts ! x)) \<and>
                    unat (IPT_TOPA_ENTRY_EXTRACT_SIZE hw (virt (ts ! x) ! e)) < 64"
    using Cons.prems(2) by simp_all
  have nm: "phys (ts ! x) \<noteq> b \<or> D \<le> unat i" using Cons.prems(1) by auto
  obtain t where ce: "capture_entries hw (ts ! x) b i off [0 ..< D] tot = Some (Continue t)"
    using capture_entries_pass [OF nm D32 v] by blast
  have nm': "(\<forall>x\<in>set xs. phys (ts ! x) \<noteq> b) \<or> D \<le> unat i" using Cons.prems(1) by auto
  have v': "\<forall>x\<in>set xs. x < length ts \<and>
            (\<forall>e<D. e < length (virt (ts ! x)) \<and>
                    unat (IPT_TOPA_ENTRY_EXTRACT_SIZE hw (virt (ts ! x) ! e)) < 64)"
    using Cons.prems(2) by simp
  show ?case
    using x ce Cons.IH [OF nm' v', of t] by (simp add: D [symmetric])
qed

lemma capture_tables_total:
  assumes D: "D = unat (IPT_TOPA_MAX_TABLE_ENTRIES hw - 1)"
    and valid: "\<forall>x\<in>set xs. x < length ts \<and>
            (\<forall>e<D. e < length (virt (ts ! x)) \<and>
                    unat (IPT_TOPA_ENTRY_EXTRACT_SIZE hw (virt (ts ! x) ! e)) < 64)"
  shows "\<exists>c. capture_tables hw ts b i off xs tot = Some c"
  using valid
proof (induction xs arbitrary: tot)
  case Nil
  then show ?case by simp
next
  case (Cons x xs)
  have x: "x < length ts"
    and v: "\<forall>e\<in>set [0 ..< D]. e < length (virt (ts ! x)) \<and>
                    unat (IPT_TOPA_ENTRY_EXTRACT_SIZE hw (virt (ts ! x) ! e)) < 64"
    using Cons.prems by simp_all
  obtain r where ce: "capture_entries hw (ts ! x) b i off [0 ..< D] tot = Some r"
    using capture_entries_total [OF v] by blast
  have v': "\<forall>x\<in>set xs. x < length ts \<and>
            (\<forall>e<D. e < length (virt (ts ! x)) \<and>
                    unat (IPT_TOPA_ENTRY_EXTRACT_SIZE hw (virt (ts ! x) ! e)) < 64)"
    using Cons.prems by simp
  show ?case
  proof (cases r)
    case (Returned c)
    then show ?thesis using x ce by (simp add: D [symmetric])
  next
    case (Continue t)
    then show ?thesis using x ce Cons.IH [OF v', of t] by (simp add: D [symmetric])
  qed
qed

lemma capture_size_exact:
  fixes hw pt ts t
  defines "T \<equiv> unat (IPT_TOPA_MAX_TABLE_ENTRIES hw)"
  defines "D \<equiv> unat (IPT_TOPA_MAX_TABLE_ENTRIES hw) - 1"
  defines "n \<equiv> unat (num_chunks pt)"
  defines "k \<equiv> unat (drop_bit 7 (ucast (output_mask_ptrs pt) :: u32))"
  defines "off \<equiv> (ucast (drop_bit 32 (output_mask_ptrs pt)) :: u32)"
  assumes T2: "2 \<le> T"
    and ts: "topas pt = Some ts" and wf: "tables_wf T ts"
    and nt: "unat (num_tables pt) = length ts"
    and s64: "s < 64"
    and sz: "\<forall>j<n. unat (IPT_TOPA_ENTRY_EXTRACT_SIZE hw (word_at ts (j div D) (j mod D))) = s"
    and t: "t < length ts" and ob: "phys (ts ! t) = output_base pt"
    and first: "\<forall>x<t. phys (ts ! x) \<noteq> output_base pt"
    and kD: "k < D" and kn: "t * D + k \<le> n"
    and nb: "n * 2 ^ s < 2 ^ 63"
  shows "\<exists>c. compute_capture_size hw pt = Some c \<and> unat c = (t * D + k) * 2 ^ s + unat off"
proof -
  define b where "b = output_base pt"
  have jb: "phys (ts ! t) = b" by (simp add: b_def ob)
  have jl: "\<And>x. x < t \<Longrightarrow> phys (ts ! x) \<noteq> b" using first by (simp add: b_def)
  have D0: "0 < D" using T2 by (simp add: D_def T_def)
  have T1w: "(1::u32) \<le> IPT_TOPA_MAX_TABLE_ENTRIES hw"
    using T2 by (simp add: word_le_nat_alt T_def)
  have Du: "D = unat (IPT_TOPA_MAX_TABLE_ENTRIES hw - 1)"
    using T1w by (simp add: unat_sub D_def)
  have D32: "D < 2 ^ 32"
    unfolding Du using unsigned_less [of "IPT_TOPA_MAX_TABLE_ENTRIES hw - 1", where 'a = nat] by simp
  have DT: "D < T" using T2 by (simp add: D_def T_def)
  have entry: "\<And>x e. x \<le> t \<Longrightarrow> e < D \<Longrightarrow> x * D + e < t * D + k \<Longrightarrow>
                 e < length (virt (ts ! x)) \<and>
                 unat (IPT_TOPA_ENTRY_EXTRACT_SIZE hw (virt (ts ! x) ! e)) = s"
  proof -
    fix x e assume x: "x \<le> t" and e: "e < D" and lt: "x * D + e < t * D + k"
    have xl: "x < length ts" using x t by simp
    have len: "length (virt (ts ! x)) = T" using wf xl by (rule tables_wf_nth)
    have idx: "x * D + e < n" using lt kn by simp
    have "(x * D + e) div D = x" "(x * D + e) mod D = e" using e by simp_all
    then have "unat (IPT_TOPA_ENTRY_EXTRACT_SIZE hw (word_at ts x e)) = s"
      using sz [rule_format, OF idx] by simp
    then show "e < length (virt (ts ! x)) \<and>
                 unat (IPT_TOPA_ENTRY_EXTRACT_SIZE hw (virt (ts ! x) ! e)) = s"
      using len e DT by (simp add: word_at_def)
  qed
  have skip_pre: "\<forall>x\<in>set [0 ..< t]. x < length ts \<and> phys (ts ! x) \<noteq> b \<and>
            (\<forall>e<D. e < length (virt (ts ! x)) \<and>
                    unat (IPT_TOPA_ENTRY_EXTRACT_SIZE hw (virt (ts ! x) ! e)) = s)"
  proof (intro ballI conjI allI impI)
    fix x assume "x \<in> set [0 ..< t]"
    then have x: "x < t" by simp
    show "x < length ts" using x t by simp
    show "phys (ts ! x) \<noteq> b" using jl [OF x] .
    fix e assume e: "e < D"
    have "Suc x * D \<le> t * D" using x by (intro mult_le_mono1) simp
    then have "x * D + e < t * D + k" using e by simp
    then show "e < length (virt (ts ! x))"
      and "unat (IPT_TOPA_ENTRY_EXTRACT_SIZE hw (virt (ts ! x) ! e)) = s"
      using entry [of x e] x e by simp_all
  qed
  have split: "[0 ..< length ts] = [0 ..< t] @ t # [Suc t ..< length ts]"
    using t by (metis le0 less_imp_le_nat upt_add_eq_append upt_conv_Cons add_0 le_add_diff_inverse)
  have valid_j: "\<forall>e<unat (drop_bit 7 (ucast (output_mask_ptrs pt) :: u32)).
                   e < length (virt (ts ! t)) \<and>
                   unat (IPT_TOPA_ENTRY_EXTRACT_SIZE hw (virt (ts ! t) ! e)) = s"
  proof (intro allI impI)
    fix e assume "e < unat (drop_bit 7 (ucast (output_mask_ptrs pt) :: u32))"
    then have e: "e < k" by (simp add: k_def)
    then have "e < D" "t * D + e < t * D + k" using kD by simp_all
    then show "e < length (virt (ts ! t)) \<and>
                   unat (IPT_TOPA_ENTRY_EXTRACT_SIZE hw (virt (ts ! t) ! e)) = s"
      using entry [of t e] by simp
  qed
  have ret: "capture_entries hw (ts ! t) b (drop_bit 7 (ucast (output_mask_ptrs pt) :: u32)) off
               [0 ..< D] tot =
             Some (Returned (tot + of_nat k * 2 ^ s + ucast off))" for tot
    using capture_entries_return [OF jb _ D32 s64 valid_j, of off tot] kD
    by (simp add: k_def)
  define c where "c = (of_nat (t * D) * 2 ^ s + of_nat k * 2 ^ s + ucast off :: u64)"
  have res: "compute_capture_size hw pt = Some c"
    unfolding compute_capture_size_def Let_def
    using ts nt t ret
    by (simp add: array_of_def split capture_tables_skip [OF s64 Du skip_pre]
          b_def [symmetric] off_def [symmetric] Du [symmetric] c_def)
  define X where "X = (t * D + k) * 2 ^ s + unat off"
  have "(t * D + k) * 2 ^ s \<le> n * 2 ^ s" using kn by (intro mult_le_mono1)
  moreover have "unat off < 2 ^ 32" using unsigned_less [of off, where 'a = nat] by simp
  ultimately have "X < 2 ^ 63 + 2 ^ 32" using nb unfolding X_def by linarith
  then have X64: "X < 2 ^ 64" by simp
  have "c = of_nat X"
    by (simp add: c_def X_def algebra_simps)
  then have "unat c = X" using X64 by (simp add: unat_of_nat)
  then show ?thesis using res by (simp add: X_def)
qed

lemma capture_size_zero:
  fixes hw pt ts
  defines "T \<equiv> unat (IPT_TOPA_MAX_TABLE_ENTRIES hw)"
  defines "k \<equiv> unat (drop_bit 7 (ucast (output_mask_ptrs pt) :: u32))"
  assumes T2: "2 \<le> T"
    and ts: "topas pt = Some ts" and wf: "tables_wf T ts"
    and nt: "unat (num_tables pt) = length ts"
    and any: "\<forall>w. unat (IPT_TOPA_ENTRY_EXTRACT_SIZE hw w) < 64"
    and nomatch: "(\<forall>x<length ts. phys (ts ! x) \<noteq> output_base pt) \<or> T - 1 \<le> k"
  shows "compute_capture_size hw pt = Some 0"
proof -
  define D where "D = T - 1"
  have T1w: "(1::u32) \<le> IPT_TOPA_MAX_TABLE_ENTRIES hw"
    using T2 by (simp add: word_le_nat_alt T_def)
  have Du: "D = unat (IPT_TOPA_MAX_TABLE_ENTRIES hw - 1)"
    using T1w by (simp add: unat_sub D_def T_def)
  have DT: "D < T" using T2 by (simp add: D_def)
  have nm: "(\<forall>x\<in>set [0 ..< length ts]. phys (ts ! x) \<noteq> output_base pt) \<or>
            D \<le> unat (drop_bit 7 (ucast (output_mask_ptrs pt) :: u32))"
    using nomatch by (auto simp: D_def k_def)
  have valid: "\<forall>x\<in>set [0 ..< length ts]. x < length ts \<and>
            (\<forall>e<D. e < length (virt (ts ! x)) \<and>
                    unat (IPT_TOPA_ENTRY_EXTRACT_SIZE hw (virt (ts ! x) ! e)) < 64)"
  proof (intro ballI conjI allI impI)
    fix x assume "x \<in> set [0 ..< length ts]"
    then show x: "x < length ts" by simp
    fix e assume e: "e < D"
    have "length (virt (ts ! x)) = T" using wf x by (rule tables_wf_nth)
    then show "e < length (virt (ts ! x))" using e DT by simp
    show "unat (IPT_TOPA_ENTRY_EXTRACT_SIZE hw (virt (ts ! x) ! e)) < 64" using any by simp
  qed
  show ?thesis
    unfolding compute_capture_size_def Let_def
    using ts nt capture_tables_zero [OF Du nm valid]
    by (simp add: array_of_def)
qed

lemma capture_size_total:
  fixes hw pt ts
  defines "T \<equiv> unat (IPT_TOPA_MAX_TABLE_ENTRIES hw)"
  assumes T2: "2 \<le> T"
    and ts: "topas pt = Some ts" and wf: "tables_wf T ts"
    and nt: "unat (num_tables pt) = length ts"
    and any: "\<forall>w. unat (IPT_TOPA_ENTRY_EXTRACT_SIZE hw w) < 64"
  shows "\<exists>c. compute_capture_size hw pt = Some c"
proof -
  define D where "D = T - 1"
  have T1w: "(1::u32) \<le> IPT_TOPA_MAX_TABLE_ENTRIES hw"
    using T2 by (simp add: word_le_nat_alt T_def)
  have Du: "D = unat (IPT_TOPA_MAX_TABLE_ENTRIES hw - 1)"
    using T1w by (simp add: unat_sub D_def T_def)
  have DT: "D < T" using T2 by (simp add: D_def)
  have valid: "\<forall>x\<in>set [0 ..< length ts]. x < length ts \<and>
            (\<forall>e<D. e < length (virt (ts ! x)) \<and>
                    unat (IPT_TOPA_ENTRY_EXTRACT_SIZE hw (virt (ts ! x) ! e)) < 64)"
  proof (intro ballI conjI allI impI)
    fix x assume "x \<in> set [0 ..< length ts]"
    then show x: "x < length ts" by simp
    fix e assume e: "e < D"
    have "length (virt (ts ! x)) = T" using wf x by (rule tables_wf_nth)
    then show "e < length (virt (ts ! x))" using e DT by simp
    show "unat (IPT_TOPA_ENTRY_EXTRACT_SIZE hw (virt (ts ! x) ! e)) < 64" using any by simp
  qed
  show ?thesis
    unfolding compute_capture_size_def Let_def
    using ts nt capture_tables_total [OF Du valid]
    by (simp add: array_of_def)
qed

text \<open>
  Claim C9, as the code has it.  Take a slot that \<^verbatim>\<open>x86_pt_alloc_buffer\<close> has filled, on a
  platform whose \<^verbatim>\<open>IPT_TOPA_ENTRY_EXTRACT_SIZE\<close> reads back from each data entry of the
  buffer the size \<^verbatim>\<open>PAGE_SIZE_SHIFT + chunk_order\<close> it was built with and a size below 64
  from any word, and let any registers be saved into the slot.  Then
  \<^verbatim>\<open>compute_capture_size\<close> returns, and

  \<^item> it returns 0 when the saved \<^verbatim>\<open>output_base\<close> is the physical address of none of the
    slot's tables, or the entry index in \<^verbatim>\<open>output_mask_ptrs\<close> is \<open>TABLE_ENTRIES - 1\<close> or
    more;

  \<^item> it returns \<open>(t * (TABLE_ENTRIES - 1) + idx) * 2^chunk_order * PAGE_SIZE + offset\<close> when
    table \<open>t\<close> is the first one at \<^verbatim>\<open>output_base\<close> and the entry index \<open>idx\<close> is below
    \<open>TABLE_ENTRIES - 1\<close> and not past the END entry of this table;

  \<^item> its result is at most \<open>num_chunks * 2^chunk_order * PAGE_SIZE\<close> when some table
    \<open>t\<close> is at \<^verbatim>\<open>output_base\<close>, \<open>idx\<close> is below \<open>TABLE_ENTRIES - 1\<close> and that sum is at
    most \<open>num_chunks * 2^chunk_order * PAGE_SIZE\<close>.
\<close>

theorem capture_within_buffer:
  fixes hw cfg env dev config d dev' regs
  defines "T \<equiv> unat (IPT_TOPA_MAX_TABLE_ENTRIES hw)"
  defines "slot \<equiv> (array_of (per_trace_state dev') ! unat d)
                      \<lparr>ctl := regs_ctl regs,
                       status := regs_status regs,
                       output_base := regs_output_base regs,
                       output_mask_ptrs := regs_output_mask_ptrs regs,
                       cr3_match := regs_cr3_match regs,
                       addr_ranges := regs_addr_ranges regs\<rparr>"
  defines "tables \<equiv> array_of (topas slot)"
  defines "idx \<equiv> unat (drop_bit 7 (ucast (regs_output_mask_ptrs regs) :: u32))"
  defines "offset \<equiv> unat (ucast (drop_bit 32 (regs_output_mask_ptrs regs)) :: u32)"
  defines "chunk_bytes \<equiv> 2 ^ unat (chunk_order slot) * 4096"
  assumes ok: "x86_pt_alloc_buffer hw cfg env dev config = Some (ZX_OK, Some d, dev')"
    and T2: "2 \<le> T" and Tb: "T < 2 ^ 31"
    and sizes: "\<forall>i < unat (cfg_num_chunks config).
        IPT_TOPA_ENTRY_EXTRACT_SIZE hw
          (topa_data_entry hw (ucast (cfg_chunk_order config))
             (fst (snd (io_buffer_init_aligned env i)))) =
          of_nat PAGE_SIZE_SHIFT + cfg_chunk_order config \<and>
        IPT_TOPA_ENTRY_EXTRACT_SIZE hw
          (topa_data_entry hw (ucast (cfg_chunk_order config))
             (fst (snd (io_buffer_init_aligned env i))) OR IPT_TOPA_ENTRY_STOP hw) =
          of_nat PAGE_SIZE_SHIFT + cfg_chunk_order config"
    and any: "\<forall>w. unat (IPT_TOPA_ENTRY_EXTRACT_SIZE hw w) < 64"
  shows "\<exists>c. compute_capture_size hw slot = Some c \<and>
           ((\<forall>t < unat (num_tables slot). phys (tables ! t) \<noteq> regs_output_base regs) \<or>
            T - 1 \<le> idx \<longrightarrow> c = 0) \<and>
           (\<forall>t < unat (num_tables slot).
              phys (tables ! t) = regs_output_base regs \<and>
              (\<forall>u < t. phys (tables ! u) \<noteq> regs_output_base regs) \<and>
              idx < T - 1 \<and> t * (T - 1) + idx \<le> unat (num_chunks slot) \<longrightarrow>
              unat c = (t * (T - 1) + idx) * chunk_bytes + offset) \<and>
           (\<forall>t < unat (num_tables slot).
              phys (tables ! t) = regs_output_base regs \<and> idx < T - 1 \<and>
              (t * (T - 1) + idx) * chunk_bytes + offset \<le> buffer_bytes slot \<longrightarrow>
              unat c \<le> buffer_bytes slot)"
proof -
  define slot0 where "slot0 = array_of (per_trace_state dev') ! unat d"
  define n where "n = unat (cfg_num_chunks config)"
  define ts where "ts = array_of (topas slot0)"
  define cs where "cs = array_of (chunks slot0)"
  define s where "s = unat (cfg_chunk_order config) + 12"
  define D where "D = T - 1"
  define b where "b = regs_output_base regs"
  note a = alloc_buffer_slot [OF ok T2 [unfolded T_def] Tb [unfolded T_def],
      folded slot0_def T_def n_def, folded ts_def cs_def]
  then have nc: "num_chunks slot0 = cfg_num_chunks config"
    and co: "chunk_order slot0 = cfg_chunk_order config"
    and n1: "1 \<le> n" and nb: "n \<le> 4096" and ob: "unat (cfg_chunk_order config) \<le> 8"
    and nt: "unat (num_tables slot0) = ceil_div n (T - 1)"
    and lcs: "length cs = n"
    and phcs: "\<forall>i<n. phys (cs ! i) = fst (snd (io_buffer_init_aligned env i))"
    and tp: "topas slot0 = Some ts"
    and lts: "length ts = ceil_div n (T - 1)"
    and wf: "tables_wf T ts"
    and dat: "\<forall>j<n. word_at ts (j div (T - 1)) (j mod (T - 1)) =
                  (if j = n - 1 \<and> \<not> cfg_is_circular config
                   then topa_data_entry hw (ucast (cfg_chunk_order config)) (phys (cs ! j)) OR
                        IPT_TOPA_ENTRY_STOP hw
                   else topa_data_entry hw (ucast (cfg_chunk_order config)) (phys (cs ! j)))"
    by simp_all
  have sl: "slot = slot0\<lparr>ctl := regs_ctl regs,
                       status := regs_status regs,
                       output_base := regs_output_base regs,
                       output_mask_ptrs := regs_output_mask_ptrs regs,
                       cr3_match := regs_cr3_match regs,
                       addr_ranges := regs_addr_ranges regs\<rparr>"
    by (simp add: slot_def slot0_def)
  have f: "topas slot = Some ts" "unat (num_tables slot) = length ts"
    "unat (num_chunks slot) = n" "unat (chunk_order slot) = unat (cfg_chunk_order config)"
    "output_base slot = b"
    "output_mask_ptrs slot = regs_output_mask_ptrs regs"
    using tp nt lts nc co by (simp_all add: sl n_def b_def)
  have tabs: "tables = ts" using f(1) by (simp add: tables_def array_of_def)
  have "unat (of_nat PAGE_SIZE_SHIFT + cfg_chunk_order config :: u32) =
          unat (of_nat PAGE_SIZE_SHIFT :: u32) + unat (cfg_chunk_order config)"
    using ob by (intro unat_add_lem [THEN iffD1]) (simp add: PAGE_SIZE_SHIFT_def)
  then have us: "unat (of_nat PAGE_SIZE_SHIFT + cfg_chunk_order config :: u32) = s"
    by (simp add: s_def PAGE_SIZE_SHIFT_def)
  have s64: "s < 64" using ob by (simp add: s_def)
  have sz: "\<forall>j<unat (num_chunks slot).
              unat (IPT_TOPA_ENTRY_EXTRACT_SIZE hw
                (word_at ts (j div (unat (IPT_TOPA_MAX_TABLE_ENTRIES hw) - 1))
                            (j mod (unat (IPT_TOPA_MAX_TABLE_ENTRIES hw) - 1)))) = s"
  proof (intro allI impI)
    fix j assume "j < unat (num_chunks slot)"
    then have j: "j < n" using f(3) by simp
    have p: "phys (cs ! j) = fst (snd (io_buffer_init_aligned env j))" using phcs j by simp
    show "unat (IPT_TOPA_ENTRY_EXTRACT_SIZE hw
                (word_at ts (j div (unat (IPT_TOPA_MAX_TABLE_ENTRIES hw) - 1))
                            (j mod (unat (IPT_TOPA_MAX_TABLE_ENTRIES hw) - 1)))) = s"
      using dat [rule_format, OF j] sizes [rule_format, OF j [unfolded n_def]] p us
      by (auto simp: T_def)
  qed
  have "s \<le> 20" using ob by (simp add: s_def)
  then have "(2::nat) ^ s \<le> 2 ^ 20" by (intro power_increasing) simp_all
  then have "n * 2 ^ s \<le> 4096 * 2 ^ 20" using nb by (intro mult_le_mono) simp_all
  then have nb63: "unat (num_chunks slot) * 2 ^ s < 2 ^ 63" using f(3) by simp
  have cb: "chunk_bytes = 2 ^ s"
    by (simp add: chunk_bytes_def f(4) s_def power_add)
  have bb: "buffer_bytes slot = n * 2 ^ s"
    by (simp add: buffer_bytes_def f(3) f(4) s_def power_add)
  have kk: "unat (drop_bit 7 (ucast (output_mask_ptrs slot) :: u32)) = idx"
    and oo: "unat (ucast (drop_bit 32 (output_mask_ptrs slot)) :: u32) = offset"
    by (simp_all add: idx_def offset_def f(6))
  obtain c where c: "compute_capture_size hw slot = Some c"
    using capture_size_total [OF T2 [unfolded T_def] f(1) wf [unfolded T_def] f(2) any] by blast
  have exact: "unat c = (t * D + idx) * 2 ^ s + offset"
    if t: "t < length ts" and m: "phys (ts ! t) = b" and fi: "\<forall>u<t. phys (ts ! u) \<noteq> b"
      and k: "idx < D" and kn: "t * D + idx \<le> n" for t
    using capture_size_exact [of hw slot ts s t, OF T2 [unfolded T_def] f(1) wf [unfolded T_def]
        f(2) s64 sz t, unfolded kk oo f(3) f(5), folded T_def, folded D_def, OF m fi k kn
        nb63 [unfolded f(3)]] c
    by simp
  have zero: "c = 0"
    if "(\<forall>t<length ts. phys (ts ! t) \<noteq> b) \<or> D \<le> idx"
    using capture_size_zero [of hw slot ts, OF T2 [unfolded T_def] f(1) wf [unfolded T_def]
        f(2) any, unfolded kk f(5), folded T_def, folded D_def, OF that] c
    by simp
  have bound: "unat c \<le> n * 2 ^ s"
    if t: "t < length ts" and m: "phys (ts ! t) = b" and k: "idx < D"
      and le: "(t * D + idx) * 2 ^ s + offset \<le> n * 2 ^ s" for t
  proof -
    define j where "j = (LEAST j. phys (ts ! j) = b)"
    have jb: "phys (ts ! j) = b" unfolding j_def by (rule LeastI [of _ t]) (rule m)
    have jt: "j \<le> t" unfolding j_def by (rule Least_le) (rule m)
    have jl: "\<forall>u<j. phys (ts ! u) \<noteq> b"
      unfolding j_def using not_less_Least by blast
    have jlt: "j < length ts" using jt t by simp
    have "(t * D + idx) * 2 ^ s \<le> n * 2 ^ s" using le by linarith
    then have tn: "t * D + idx \<le> n" by simp
    have "j * D \<le> t * D" using jt by (rule mult_le_mono1)
    then have jle: "j * D + idx \<le> t * D + idx" by (rule add_le_mono1)
    have jn: "j * D + idx \<le> n" using jle tn by (rule le_trans)
    have "unat c = (j * D + idx) * 2 ^ s + offset" using exact [OF jlt jb jl k jn] .
    also have "\<dots> \<le> (t * D + idx) * 2 ^ s + offset"
      by (intro add_le_mono1 mult_le_mono1) (rule jt)
    also have "\<dots> \<le> n * 2 ^ s" by (rule le)
    finally show ?thesis .
  qed
  show ?thesis
    unfolding tabs f(2) f(3) cb bb b_def [symmetric] D_def [symmetric]
    using c zero exact bound
    by (intro exI [of _ c]) blast
qed

lemma sample_sizes:
  "\<forall>i < unat (cfg_num_chunks (sample_buffer_config 5 False)).
        IPT_TOPA_ENTRY_EXTRACT_SIZE sample_header
          (topa_data_entry sample_header (ucast (cfg_chunk_order (sample_buffer_config 5 False)))
             (fst (snd (io_buffer_init_aligned sample_collaborators i)))) =
          of_nat PAGE_SIZE_SHIFT + cfg_chunk_order (sample_buffer_config 5 False) \<and>
        IPT_TOPA_ENTRY_EXTRACT_SIZE sample_header
          (topa_data_entry sample_header (ucast (cfg_chunk_order (sample_buffer_config 5 False)))
             (fst (snd (io_buffer_init_aligned sample_collaborators i))) OR
           IPT_TOPA_ENTRY_STOP sample_header) =
          of_nat PAGE_SIZE_SHIFT + cfg_chunk_order (sample_buffer_config 5 False)"
proof (intro allI impI)
  fix i :: nat
  assume "i < unat (cfg_num_chunks (sample_buffer_config 5 False))"
  then have "i < 5" by (simp add: sample_buffer_config_def)
  then consider "i = 0" | "i = 1" | "i = 2" | "i = 3" | "i = 4" by linarith
  then show "IPT_TOPA_ENTRY_EXTRACT_SIZE sample_header
          (topa_data_entry sample_header (ucast (cfg_chunk_order (sample_buffer_config 5 False)))
             (fst (snd (io_buffer_init_aligned sample_collaborators i)))) =
          of_nat PAGE_SIZE_SHIFT + cfg_chunk_order (sample_buffer_config 5 False) \<and>
        IPT_TOPA_ENTRY_EXTRACT_SIZE sample_header
          (topa_data_entry sample_header (ucast (cfg_chunk_order (sample_buffer_config 5 False)))
             (fst (snd (io_buffer_init_aligned sample_collaborators i))) OR
           IPT_TOPA_ENTRY_STOP sample_header) =
          of_nat PAGE_SIZE_SHIFT + cfg_chunk_order (sample_buffer_config 5 False)"
    by cases (simp_all add: sample_defs topa_data_entry_def PAGE_SIZE_SHIFT_def)
qed

lemma sample_extract_size_bound:
  "\<forall>w. unat (IPT_TOPA_ENTRY_EXTRACT_SIZE sample_header w) < 64"
proof
  fix w :: u64
  have "drop_bit 6 w AND 15 \<le> 15" by (rule word_and_le1)
  then have a: "unat (drop_bit 6 w AND 15) \<le> 15" by (simp add: word_le_nat_alt)
  have "unat (ucast (drop_bit 6 w AND 15) :: u32) = unat (drop_bit 6 w AND 15)"
    using a by (simp add: unsigned_ucast_eq take_bit_nat_eq_self)
  then have b: "unat (ucast (drop_bit 6 w AND 15) :: u32) \<le> 15" using a by simp
  have "unat ((ucast (drop_bit 6 w AND 15) :: u32) + 12) =
        unat (ucast (drop_bit 6 w AND 15) :: u32) + unat (12 :: u32)"
    using b by (intro unat_add_lem [THEN iffD1]) simp
  then show "unat (IPT_TOPA_ENTRY_EXTRACT_SIZE sample_header w) < 64"
    using b by (simp add: sample_header_def)
qed

theorem capture_within_buffer_witness:
  "\<exists>dev'. x86_pt_alloc_buffer sample_header sample_config sample_collaborators sample_device
            (sample_buffer_config 5 False) = Some (ZX_OK, Some 0, dev') \<and>
     (\<exists>c. compute_capture_size sample_header
             ((array_of (per_trace_state dev') ! unat (0 :: u32))
                \<lparr>ctl := 9216, status := 0, output_base := 8192,
                 output_mask_ptrs := 429496729728, cr3_match := 0,
                 addr_ranges := replicate 4 (0, 0)\<rparr>) = Some c \<and>
           unat c = 16484 \<and> unat c \<le> 20480) \<and>
     compute_capture_size sample_header
       ((array_of (per_trace_state dev') ! unat (0 :: u32))
          \<lparr>ctl := 9216, status := 0, output_base := 12288,
           output_mask_ptrs := 429496729728, cr3_match := 0,
           addr_ranges := replicate 4 (0, 0)\<rparr>) = Some 0"
proof -
  from sample_alloc_5 obtain dev' where
    ok: "x86_pt_alloc_buffer sample_header sample_config sample_collaborators sample_device
            (sample_buffer_config 5 False) = Some (ZX_OK, Some 0, dev')"
    and nc: "unat (num_chunks (array_of (per_trace_state dev') ! 0)) = 5"
    and nt: "unat (num_tables (array_of (per_trace_state dev') ! 0)) = 2" by blast
  define slot0 where "slot0 = array_of (per_trace_state dev') ! 0"
  have ph: "phys (array_of (topas slot0) ! 0) = 4096" "phys (array_of (topas slot0) ! 1) = 8192"
    and co: "chunk_order slot0 = 0"
    using ok unfolding slot0_def by (auto simp: eval_defs)
  have two: "\<And>t P. (\<forall>t<2. P t) = (P 0 \<and> P (1 :: nat))"
    by (auto simp: less_2_cases_iff)
  note th = capture_within_buffer [OF ok sample_T(1) sample_T(2) sample_sizes
      sample_extract_size_bound]
  have a: "\<exists>c. compute_capture_size sample_header
             ((array_of (per_trace_state dev') ! unat (0 :: u32))
                \<lparr>ctl := 9216, status := 0, output_base := 8192,
                 output_mask_ptrs := 429496729728, cr3_match := 0,
                 addr_ranges := replicate 4 (0, 0)\<rparr>) = Some c \<and>
           unat c = 16484 \<and> unat c \<le> 20480"
    using th [of sample_stopped_regs] nc nt ph co
    by (simp add: sample_stopped_regs_def sample_T(3) slot0_def buffer_bytes_def two)
  have b: "compute_capture_size sample_header
       ((array_of (per_trace_state dev') ! unat (0 :: u32))
          \<lparr>ctl := 9216, status := 0, output_base := 12288,
           output_mask_ptrs := 429496729728, cr3_match := 0,
           addr_ranges := replicate 4 (0, 0)\<rparr>) = Some 0"
    using th [of "sample_stopped_regs\<lparr>regs_output_base := 12288\<rparr>"] nc nt ph co
    by (simp add: sample_stopped_regs_def sample_T(3) slot0_def buffer_bytes_def two)
  show ?thesis using ok a b by blast
qed

text \<open>
  The bound of claim C9 does not hold regardless of the saved registers: a one-page buffer
  whose saved \<^verbatim>\<open>output_mask_ptrs\<close> has the offset 4097 gives a capture size of 4097 bytes,
  more than the 4096 bytes of the buffer.
\<close>

theorem capture_exceeds_buffer:
  "case x86_pt_alloc_buffer sample_header sample_config sample_collaborators sample_device
          (sample_buffer_config 1 False) of
     None \<Rightarrow> False
   | Some (st, d, dev') \<Rightarrow>
       st = ZX_OK \<and> d = Some 0 \<and>
       (let slot = (array_of (per_trace_state dev') ! unat (0 :: u32))
                     \<lparr>output_base := 4096, output_mask_ptrs := 17596481011712\<rparr>
        in allocated slot \<and> buffer_bytes slot = 4096 \<and>
           compute_capture_size sample_header slot = Some 4097 \<and>
           \<not> unat (4097 :: u64) \<le> buffer_bytes slot)"
  by (simp add: eval_defs buffer_bytes_def compute_capture_size_def)

text \<open>
  Nor does it hold for an entry index past the END entry of a partly filled table: the
  walk then adds what it reads as the sizes of the END entry and of the words after it.
  In the same buffer with entry index 2 and offset 0:
\<close>

lemma capture_past_the_end_entry:
  "case x86_pt_alloc_buffer sample_header sample_config sample_collaborators sample_device
          (sample_buffer_config 1 False) of
     None \<Rightarrow> False
   | Some (st, d, dev') \<Rightarrow>
       st = ZX_OK \<and> d = Some 0 \<and>
       (let slot = (array_of (per_trace_state dev') ! unat (0 :: u32))
                     \<lparr>output_base := 4096, output_mask_ptrs := 256\<rparr>
        in allocated slot \<and> buffer_bytes slot = 4096 \<and>
           phys (array_of (topas slot) ! 0) = 4096 \<and>
           unat (drop_bit 7 (ucast (output_mask_ptrs slot) :: u32)) = 2 \<and>
           unat (ucast (drop_bit 32 (output_mask_ptrs slot)) :: u32) = 0 \<and>
           compute_capture_size sample_header slot = Some 8192)"
  by (simp add: eval_defs buffer_bytes_def compute_capture_size_def)

section \<open>Operations whose precondition is not met\<close>

lemma any_assigned_eq:
  "\<forall>x\<in>set xs. x < length slots \<Longrightarrow>
   any_assigned slots xs = Some (\<exists>x\<in>set xs. assigned (slots ! x))"
  by (induction xs) auto

lemma all_allocated_unassigned_eq:
  "\<forall>x\<in>set xs. x < length slots \<Longrightarrow>
   all_allocated_unassigned slots xs =
     Some (\<forall>x\<in>set xs. allocated (slots ! x) \<and> \<not> assigned (slots ! x))"
  by (induction xs) auto

lemma any_assigned_all:
  "any_assigned slots [0 ..< length slots] = Some (\<not> list_all (\<lambda>s. \<not> assigned s) slots)"
  by (auto simp: any_assigned_eq list_all_length)

lemma all_allocated_unassigned_all:
  "all_allocated_unassigned slots [0 ..< length slots] =
     Some (list_all (\<lambda>s. allocated s \<and> \<not> assigned s) slots)"
  by (auto simp: all_allocated_unassigned_eq list_all_length)

lemmas handler_defs =
  ipt_alloc_trace_def ipt_free_trace_def ipt_get_trace_config_def ipt_alloc_buffer_def
  ipt_assign_thread_buffer_def ipt_release_thread_buffer_def ipt_get_buffer_config_def
  ipt_get_buffer_info_def ipt_get_chunk_handle_def ipt_free_buffer_def x86_pt_free_buffer_def
  ipt_start_def ipt_stop_def keep_device_def without_reply_def not_alloc_trace_def

text \<open>
  Claim C7, as the code has it.  On a device whose trace array, when present, has
  \<^verbatim>\<open>num_traces\<close> slots, an operation invoked with an unmet precondition of the lifecycle
  table returns, with no reply, one of \<^verbatim>\<open>ZX_ERR_BAD_STATE\<close>, \<^verbatim>\<open>ZX_ERR_INVALID_ARGS\<close>,
  \<^verbatim>\<open>ZX_ERR_NOT_SUPPORTED\<close> and \<^verbatim>\<open>ZX_ERR_BUFFER_TOO_SMALL\<close>, and leaves the whole device,
  every slot included, as it was.
\<close>

theorem unmet_precondition_is_rejected:
  assumes wf: "device_wf dev"
    and unmet: "\<not> spec_precondition cfg dev op"
  shows "\<exists>st. insntrace_ioctl_worker hw cfg env dev op cmdlen replymax = Some (st, No_reply, dev) \<and>
              (st = ZX_ERR_BAD_STATE \<or> st = ZX_ERR_INVALID_ARGS \<or>
               st = ZX_ERR_NOT_SUPPORTED \<or> st = ZX_ERR_BUFFER_TOO_SMALL)"
proof (cases "per_trace_state dev")
  case None
  then show ?thesis
    using unmet
    by (cases op)
       (auto simp: insntrace_ioctl_worker_def spec_precondition_def handler_defs)
next
  case (Some slots)
  then have len: "length slots = unat (num_traces dev)"
    using wf by (simp add: device_wf_def)
  have inr: "\<And>d. \<not> num_traces dev \<le> d \<Longrightarrow> unat d < length slots"
    using len by (simp add: word_le_nat_alt)
  show ?thesis
  proof (cases op)
    case (IOCTL_INSNTRACE_ALLOC_TRACE c)
    then show ?thesis
      using Some by (simp add: insntrace_ioctl_worker_def handler_defs)
  next
    case IOCTL_INSNTRACE_FREE_TRACE
    then show ?thesis
      using Some unmet len any_assigned_all [of slots]
      by (auto simp: insntrace_ioctl_worker_def spec_precondition_def handler_defs array_of_def)
  next
    case IOCTL_INSNTRACE_GET_TRACE_CONFIG
    then show ?thesis using Some unmet by (simp add: spec_precondition_def)
  next
    case (IOCTL_INSNTRACE_ALLOC_BUFFER c)
    then show ?thesis using Some unmet by (simp add: spec_precondition_def)
  next
    case (IOCTL_INSNTRACE_ASSIGN_THREAD_BUFFER c)
    then show ?thesis
      using Some by (simp add: insntrace_ioctl_worker_def handler_defs)
  next
    case (IOCTL_INSNTRACE_RELEASE_THREAD_BUFFER c)
    then show ?thesis
      using Some by (simp add: insntrace_ioctl_worker_def handler_defs)
  next
    case (IOCTL_INSNTRACE_GET_BUFFER_CONFIG d)
    then show ?thesis
      using Some unmet inr [of d]
      by (auto simp: insntrace_ioctl_worker_def spec_precondition_def handler_defs array_of_def
            slot_is_def)
  next
    case (IOCTL_INSNTRACE_GET_BUFFER_INFO d)
    then show ?thesis
      using Some unmet inr [of d]
      by (cases "mode dev")
         (auto simp: insntrace_ioctl_worker_def spec_precondition_def handler_defs array_of_def
            slot_is_def)
  next
    case (IOCTL_INSNTRACE_GET_CHUNK_HANDLE r)
    then show ?thesis
      using Some unmet inr [of "req_descriptor r"]
      by (auto simp: insntrace_ioctl_worker_def spec_precondition_def handler_defs array_of_def
            slot_is_def Let_def)
  next
    case (IOCTL_INSNTRACE_FREE_BUFFER d)
    then show ?thesis
      using Some unmet inr [of d]
      by (auto simp: insntrace_ioctl_worker_def spec_precondition_def handler_defs array_of_def
            slot_is_def Let_def)
  next
    case IOCTL_INSNTRACE_START
    then show ?thesis
      using Some unmet len all_allocated_unassigned_all [of slots]
      by (auto simp: insntrace_ioctl_worker_def spec_precondition_def handler_defs array_of_def)
  next
    case IOCTL_INSNTRACE_STOP
    then show ?thesis
      using Some unmet
      by (auto simp: insntrace_ioctl_worker_def spec_precondition_def handler_defs)
  next
    case IOCTL_INSNTRACE_OTHER
    then show ?thesis using unmet by (simp add: spec_precondition_def)
  qed
qed


lemmas worker_eval =
  insntrace_ioctl_worker_def handler_defs eval_defs spec_precondition_def device_wf_def
  fresh_device_def IPT_MODE_CPUS_def IPT_MODE_THREADS_def

theorem unmet_precondition_is_rejected_witness:
  "\<exists>st. insntrace_ioctl_worker sample_header sample_config sample_collaborators
           (sample_device\<lparr>active := True\<rparr>) IOCTL_INSNTRACE_START 0 0 =
           Some (st, No_reply, sample_device\<lparr>active := True\<rparr>) \<and>
         (st = ZX_ERR_BAD_STATE \<or> st = ZX_ERR_INVALID_ARGS \<or>
          st = ZX_ERR_NOT_SUPPORTED \<or> st = ZX_ERR_BUFFER_TOO_SMALL)"
  using unmet_precondition_is_rejected
          [of "sample_device\<lparr>active := True\<rparr>" sample_config IOCTL_INSNTRACE_START
              sample_header sample_collaborators 0 0]
  by (simp add: device_wf_def spec_precondition_def sample_device_def)

text \<open>
  The status is not always one of the two that claim C7 names: \<^verbatim>\<open>ALLOC_TRACE\<close> on a
  platform that does not support the feature, an unmet precondition of the table, returns
  \<^verbatim>\<open>ZX_ERR_NOT_SUPPORTED\<close>.
\<close>

theorem alloc_trace_without_support_is_not_supported:
  "\<not> spec_precondition (sample_config\<lparr>ipt_config_supported := False\<rparr>) fresh_device
       (IOCTL_INSNTRACE_ALLOC_TRACE \<lparr>tc_mode = IPT_MODE_CPUS, tc_num_traces = 2\<rparr>) \<and>
   insntrace_ioctl_worker sample_header (sample_config\<lparr>ipt_config_supported := False\<rparr>)
     sample_collaborators fresh_device
     (IOCTL_INSNTRACE_ALLOC_TRACE \<lparr>tc_mode = IPT_MODE_CPUS, tc_num_traces = 2\<rparr>) 8 0 =
     Some (ZX_ERR_NOT_SUPPORTED, No_reply, fresh_device) \<and>
   ZX_ERR_NOT_SUPPORTED \<noteq> ZX_ERR_BAD_STATE \<and> ZX_ERR_NOT_SUPPORTED \<noteq> ZX_ERR_INVALID_ARGS"
  by (simp add: worker_eval)

section \<open>The reply of \<^verbatim>\<open>GET_TRACE_CONFIG\<close>\<close>

text \<open>
  Claim C3 fails in the code: \<^verbatim>\<open>ipt_get_trace_config\<close> succeeds and reports the mode, but
  the \<^verbatim>\<open>num_traces\<close> of its reply is the uninitialised word of the local \<^verbatim>\<open>config\<close>, not
  the device's \<^verbatim>\<open>num_traces\<close>.  On the sample device, which has two traces, with the stack
  holding 57005:
\<close>

theorem get_trace_config_leaves_num_traces_unset:
  "insntrace_ioctl_worker sample_header sample_config
     (sample_collaborators\<lparr>uninitialized_u32 := 57005\<rparr>) sample_device
     IOCTL_INSNTRACE_GET_TRACE_CONFIG 0 8 =
     Some (ZX_OK, Trace_config_reply \<lparr>tc_mode = IPT_MODE_CPUS, tc_num_traces = 57005\<rparr>,
           sample_device) \<and>
   num_traces sample_device = 2"
  by (simp add: worker_eval)

theorem get_trace_config_leaves_num_traces_unset_witness:
  "\<exists>reply. insntrace_ioctl_worker sample_header sample_config
            (sample_collaborators\<lparr>uninitialized_u32 := 57005\<rparr>) sample_device
            IOCTL_INSNTRACE_GET_TRACE_CONFIG 0 8 = Some (ZX_OK, reply, sample_device) \<and>
          reply \<noteq> Trace_config_reply
                    \<lparr>tc_mode = IPT_MODE_CPUS, tc_num_traces = num_traces sample_device\<rparr>"
  using get_trace_config_leaves_num_traces_unset by simp

section \<open>A failing \<^verbatim>\<open>MTRACE_INSNTRACE_FREE_TRACE\<close>\<close>

text \<open>
  Claim C4 fails in the code: when \<^verbatim>\<open>zx_mtrace_control\<close> fails in \<^verbatim>\<open>ipt_free_trace\<close>, the
  function returns \<^verbatim>\<open>ZX_OK\<close> and marks nothing, although its comment says
  ``flag things as busted and prevent further use''; the trace array stays and the next
  operation is served as before.  On the sample device:
\<close>

theorem free_trace_failure_is_not_flagged:
  "insntrace_ioctl_worker sample_header sample_config
     (sample_collaborators\<lparr>mtrace_free_trace := ZX_ERR_INTERNAL\<rparr>) sample_device
     IOCTL_INSNTRACE_FREE_TRACE 0 0 = Some (ZX_OK, No_reply, sample_device) \<and>
   insntrace_ioctl_worker sample_header sample_config
     (sample_collaborators\<lparr>mtrace_free_trace := ZX_ERR_INTERNAL\<rparr>) sample_device
     IOCTL_INSNTRACE_GET_TRACE_CONFIG 0 8 =
     Some (ZX_OK, Trace_config_reply \<lparr>tc_mode = IPT_MODE_CPUS, tc_num_traces = 0\<rparr>,
           sample_device)"
  by (simp add: worker_eval)

theorem free_trace_failure_is_not_flagged_witness:
  "\<exists>dev'. insntrace_ioctl_worker sample_header sample_config
           (sample_collaborators\<lparr>mtrace_free_trace := ZX_ERR_INTERNAL\<rparr>) sample_device
           IOCTL_INSNTRACE_FREE_TRACE 0 0 = Some (ZX_OK, No_reply, dev') \<and>
         per_trace_state dev' \<noteq> None \<and>
         (\<exists>st reply. insntrace_ioctl_worker sample_header sample_config
                        (sample_collaborators\<lparr>mtrace_free_trace := ZX_ERR_INTERNAL\<rparr>) dev'
                        IOCTL_INSNTRACE_GET_TRACE_CONFIG 0 8 = Some (st, reply, dev') \<and>
                     st \<noteq> ZX_ERR_BAD_STATE)"
  using free_trace_failure_is_not_flagged
  by (intro exI [of _ sample_device]) (simp add: sample_device_def)

section \<open>The slots that are not allocated\<close>























end
